(* ===== verification/Prelude.thy ===== *)
theory Prelude
  imports Main "HOL-Library.Word"
begin

text \<open>
  The language layer of the development. A C++ member function is a function on the state
  that ends in one of three ways: it returns (\<open>Normal\<close>), it leaves by an exception
  (\<open>Thrown\<close>, with the state as the statements before the throw left it, so that a handler
  further up sees the partial updates) or it ends the process (\<open>Fatal\<close>: \<open>log::fatal\<close> and a
  failed \<open>assert\<close>). Statements are composed by \<open>block\<close>, \<open>bindm\<close> and \<open>for_each\<close>, and a
  C++ \<open>try\<close> block is \<open>try_catch\<close>. The second half is the decimal formatting of integers
  that \<open>fmt::format\<close> does for the code, and the list and string lemmas the components share.
\<close>

named_theorems exec_simps "equations that execute the statements of the model"

subsection \<open>Outcomes and statements\<close>

datatype ('a, 'e, 's) outcome = Normal 'a 's | Thrown 'e 's | Fatal string 's

primrec final_state :: "('a, 'e, 's) outcome \<Rightarrow> 's" where
  "final_state (Normal a s) = s"
| "final_state (Thrown e s) = s"
| "final_state (Fatal msg s) = s"

primrec returns :: "('a, 'e, 's) outcome \<Rightarrow> bool" where
  "returns (Normal a s) = True"
| "returns (Thrown e s) = False"
| "returns (Fatal msg s) = False"

primrec is_fatal :: "('a, 'e, 's) outcome \<Rightarrow> bool" where
  "is_fatal (Normal a s) = False"
| "is_fatal (Thrown e s) = False"
| "is_fatal (Fatal msg s) = True"

type_synonym ('s, 'e, 'a) stmt = "'s \<Rightarrow> ('a, 'e, 's) outcome"

definition ret :: "'a \<Rightarrow> ('s, 'e, 'a) stmt" where
  [exec_simps]: "ret a = (\<lambda>s. Normal a s)"

definition skip :: "('s, 'e, unit) stmt" where
  [exec_simps]: "skip = (\<lambda>s. Normal () s)"

definition throw :: "'e \<Rightarrow> ('s, 'e, 'a) stmt" where
  [exec_simps]: "throw e = (\<lambda>s. Thrown e s)"

definition fatal :: "string \<Rightarrow> ('s, 'e, 'a) stmt" where
  [exec_simps]: "fatal msg = (\<lambda>s. Fatal msg s)"

definition modify :: "('s \<Rightarrow> 's) \<Rightarrow> ('s, 'e, unit) stmt" where
  [exec_simps]: "modify f = (\<lambda>s. Normal () (f s))"

definition bindm :: "('s, 'e, 'a) stmt \<Rightarrow> ('a \<Rightarrow> ('s, 'e, 'b) stmt) \<Rightarrow> ('s, 'e, 'b) stmt" where
  [exec_simps]: "bindm m f = (\<lambda>s. case m s of
     Normal a t \<Rightarrow> f a t
   | Thrown e t \<Rightarrow> Thrown e t
   | Fatal msg t \<Rightarrow> Fatal msg t)"

definition seqm :: "('s, 'e, unit) stmt \<Rightarrow> ('s, 'e, 'b) stmt \<Rightarrow> ('s, 'e, 'b) stmt" where
  [exec_simps]: "seqm m n = bindm m (\<lambda>_. n)"

definition reading :: "('s \<Rightarrow> 'b) \<Rightarrow> ('b \<Rightarrow> ('s, 'e, 'a) stmt) \<Rightarrow> ('s, 'e, 'a) stmt" where
  [exec_simps]: "reading f k = (\<lambda>s. k (f s) s)"

definition whenm :: "bool \<Rightarrow> ('s, 'e, unit) stmt \<Rightarrow> ('s, 'e, unit) stmt" where
  [exec_simps]: "whenm c m = (\<lambda>s. if c then m s else Normal () s)"

definition assert_that :: "bool \<Rightarrow> ('s, 'e, unit) stmt" where
  [exec_simps]: "assert_that c = (\<lambda>s. if c then Normal () s else Fatal ''assert'' s)"

primrec block :: "('s, 'e, unit) stmt list \<Rightarrow> ('s, 'e, unit) stmt" where
  "block [] = skip"
| "block (c # cs) = seqm c (block cs)"

primrec for_each :: "'a list \<Rightarrow> ('a \<Rightarrow> ('s, 'e, unit) stmt) \<Rightarrow> ('s, 'e, unit) stmt" where
  "for_each [] body = skip"
| "for_each (x # xs) body = seqm (body x) (for_each xs body)"

definition try_catch :: "('s, 'e, 'a) stmt \<Rightarrow> ('e \<Rightarrow> ('s, 'e, 'a) stmt) \<Rightarrow> ('s, 'e, 'a) stmt" where
  [exec_simps]: "try_catch m h = (\<lambda>s. case m s of
     Normal a t \<Rightarrow> Normal a t
   | Thrown e t \<Rightarrow> h e t
   | Fatal msg t \<Rightarrow> Fatal msg t)"

text \<open>A value that external code returned, or the exception it threw.\<close>

definition lift_sum :: "'e + 'a \<Rightarrow> ('s, 'e, 'a) stmt" where
  [exec_simps]: "lift_sum r = (case r of Inl e \<Rightarrow> throw e | Inr a \<Rightarrow> ret a)"

declare block.simps [exec_simps]

lemmas for_each_simps [exec_simps] = for_each.simps

lemma if_app [exec_simps]: "(if c then m else n) s = (if c then m s else n s)"
  by simp

lemma case_outcome_if [exec_simps]:
  "case_outcome n h g (if c then x else y) = (if c then case_outcome n h g x else case_outcome n h g y)"
  by simp

lemma case_outcome_id [simp]: "case_outcome Normal Thrown Fatal x = x"
  by (cases x) simp_all

text \<open>The laws that shorten a program without running it.\<close>

lemma bindm_ret [simp]: "bindm (ret a) f = f a"
  and bindm_throw [simp]: "bindm (throw e) f = throw e"
  and bindm_fatal [simp]: "bindm (fatal msg) f = fatal msg"
  and seqm_skip [simp]: "seqm skip n = n"
  and lift_sum_Inr [simp]: "lift_sum (Inr a) = ret a"
  and lift_sum_Inl [simp]: "lift_sum (Inl e) = throw e"
  by (simp_all add: exec_simps)

lemma seqm_skip_right [simp, exec_simps]: "seqm m skip = m"
proof
  fix s show "seqm m skip s = m s" by (cases "m s") (simp_all add: exec_simps)
qed

lemma seqm_Normal: "m s = Normal () t \<Longrightarrow> seqm m n s = n t"
  by (simp add: exec_simps)

lemma seqm_NormalE:
  assumes "seqm m n s = Normal b t"
  obtains u where "m s = Normal () u" and "n u = Normal b t"
  using assms by (cases "m s") (auto simp: exec_simps)

subsection \<open>Postconditions\<close>

text \<open>
  \<open>ends m s Q\<close>: whichever way the statement ends, the state it ends in satisfies \<open>Q\<close>. This
  is the form in which invariants are carried through a handler.
\<close>

definition ends :: "('s, 'e, 'a) stmt \<Rightarrow> 's \<Rightarrow> ('s \<Rightarrow> bool) \<Rightarrow> bool" where
  "ends m s Q = Q (final_state (m s))"

definition keeps :: "('s \<Rightarrow> bool) \<Rightarrow> ('s, 'e, 'a) stmt \<Rightarrow> bool" where
  "keeps I m \<longleftrightarrow> (\<forall>s. I s \<longrightarrow> I (final_state (m s)))"

lemma keepsI: "(\<And>s. I s \<Longrightarrow> I (final_state (m s))) \<Longrightarrow> keeps I m"
  by (simp add: keeps_def)

lemma keepsD: "keeps I m \<Longrightarrow> I s \<Longrightarrow> I (final_state (m s))"
  by (simp add: keeps_def)

named_theorems keeps_intros "rules that carry an invariant through a statement"

lemma keeps_ret [keeps_intros]: "keeps I (ret a)"
  and keeps_skip [keeps_intros]: "keeps I skip"
  and keeps_throw [keeps_intros]: "keeps I (throw e)"
  and keeps_fatal [keeps_intros]: "keeps I (fatal msg)"
  and keeps_assert [keeps_intros]: "keeps I (assert_that c)"
  by (auto simp: keeps_def exec_simps)

lemma keeps_lift_sum [keeps_intros]: "keeps I (lift_sum r)"
  by (auto simp: keeps_def exec_simps split: sum.splits)

lemma keeps_bindm [keeps_intros]:
  assumes "keeps I m" and "\<And>a. keeps I (f a)"
  shows "keeps I (bindm m f)"
proof (rule keepsI)
  fix s assume "I s"
  with assms(1) have "I (final_state (m s))" by (rule keepsD)
  with assms(2) show "I (final_state (bindm m f s))"
    by (cases "m s") (auto simp: bindm_def keeps_def)
qed

lemma keeps_seqm [keeps_intros]: "keeps I m \<Longrightarrow> keeps I n \<Longrightarrow> keeps I (seqm m n)"
  unfolding seqm_def by (rule keeps_bindm)

lemma keeps_reading [keeps_intros]: "(\<And>b. keeps I (k b)) \<Longrightarrow> keeps I (reading f k)"
  by (simp add: keeps_def reading_def)

lemma keeps_whenm [keeps_intros]: "keeps I m \<Longrightarrow> keeps I (whenm c m)"
  by (simp add: keeps_def exec_simps)

lemma keeps_if [keeps_intros]: "keeps I m \<Longrightarrow> keeps I n \<Longrightarrow> keeps I (if c then m else n)"
  by simp

lemma keeps_block: "(\<And>c. c \<in> set cs \<Longrightarrow> keeps I c) \<Longrightarrow> keeps I (block cs)"
  by (induction cs) (auto intro!: keeps_intros)

lemma keeps_for_each [keeps_intros]:
  "(\<And>x. x \<in> set xs \<Longrightarrow> keeps I (body x)) \<Longrightarrow> keeps I (for_each xs body)"
  by (induction xs) (auto intro!: keeps_intros)

lemma keeps_try_catch [keeps_intros]:
  assumes "keeps I m" and "\<And>e. keeps I (h e)"
  shows "keeps I (try_catch m h)"
proof (rule keepsI)
  fix s assume "I s"
  with assms(1) have "I (final_state (m s))" by (rule keepsD)
  with assms(2) show "I (final_state (try_catch m h s))"
    by (cases "m s") (auto simp: try_catch_def keeps_def)
qed

lemma keeps_modify: "(\<And>s. I s \<Longrightarrow> I (f s)) \<Longrightarrow> keeps I (modify f)"
  by (simp add: keeps_def exec_simps)

lemma for_each_append:
  "for_each (xs @ ys) body = seqm (for_each xs body) (for_each ys body)"
  by (induction xs) (auto simp: exec_simps fun_eq_iff split: outcome.splits)

text \<open>A loop whose body always returns and whose effect on the state is a function.\<close>

lemma for_each_fold:
  assumes "\<And>x s. x \<in> set xs \<Longrightarrow> body x s = Normal () (f x s)"
  shows "for_each xs body s = Normal () (fold f xs s)"
  using assms by (induction xs arbitrary: s) (auto simp: exec_simps)

subsection \<open>Decimal formatting\<close>

fun fmt_nat :: "nat \<Rightarrow> string" where
  "fmt_nat n = (if n < 10 then [char_of (48 + n)] else fmt_nat (n div 10) @ [char_of (48 + n mod 10)])"

declare fmt_nat.simps [simp del]

definition fmt_int :: "int \<Rightarrow> string" where
  "fmt_int i = (if i < 0 then CHR ''-'' # fmt_nat (nat (- i)) else fmt_nat (nat i))"

definition digit_value :: "char \<Rightarrow> nat" where
  "digit_value c = of_char c - 48"

definition decimal_value :: "string \<Rightarrow> nat" where
  "decimal_value ds = fold (\<lambda>c v. 10 * v + digit_value c) ds 0"

definition is_digit :: "char \<Rightarrow> bool" where
  "is_digit c \<longleftrightarrow> 48 \<le> (of_char c :: nat) \<and> (of_char c :: nat) \<le> 57"

lemma digit_value_char_of: "d < 10 \<Longrightarrow> digit_value (char_of (48 + d)) = d"
  by (simp add: digit_value_def)

lemma decimal_value_snoc: "decimal_value (ds @ [c]) = 10 * decimal_value ds + digit_value c"
  by (simp add: decimal_value_def)

lemma decimal_value_fmt_nat [simp]: "decimal_value (fmt_nat n) = n"
proof (induction n rule: fmt_nat.induct)
  case (1 n)
  show ?case
  proof (cases "n < 10")
    case True
    then have "fmt_nat n = [char_of (48 + n)]" by (subst fmt_nat.simps) simp
    with True show ?thesis
      by (simp add: decimal_value_def digit_value_char_of)
  next
    case False
    with 1 show ?thesis
      by (simp add: fmt_nat.simps [of n] decimal_value_snoc digit_value_char_of)
  qed
qed

lemma fmt_nat_inject [simp]: "fmt_nat m = fmt_nat n \<longleftrightarrow> m = n"
  by (metis decimal_value_fmt_nat)

lemma fmt_nat_digits: "c \<in> set (fmt_nat n) \<Longrightarrow> is_digit c"
proof (induction n rule: fmt_nat.induct)
  case (1 n)
  show ?case
  proof (cases "n < 10")
    case True
    with 1(2) show ?thesis
      by (simp add: fmt_nat.simps [of n] is_digit_def)
  next
    case False
    with 1(2) have "c \<in> set (fmt_nat (n div 10)) \<or> c = char_of (48 + n mod 10)"
      by (auto simp: fmt_nat.simps [of n])
    with False 1(1) show ?thesis by (auto simp: is_digit_def)
  qed
qed

lemma fmt_nat_not_Nil [simp]: "fmt_nat n \<noteq> []"
  by (subst fmt_nat.simps) simp

subsection \<open>Searching strings\<close>

text \<open>\<open>find_first_of(c)\<close> and \<open>find_last_of(c)\<close> of \<open>std::string_view\<close>, as the split of the text at the hit.\<close>

definition split_first :: "char \<Rightarrow> string \<Rightarrow> (string \<times> string) option" where
  "split_first c s = (if c \<in> set s
     then Some (takeWhile (\<lambda>x. x \<noteq> c) s, tl (dropWhile (\<lambda>x. x \<noteq> c) s)) else None)"

definition after_last :: "char \<Rightarrow> string \<Rightarrow> string option" where
  "after_last c s = (if c \<in> set s then Some (rev (takeWhile (\<lambda>x. x \<noteq> c) (rev s))) else None)"

lemma split_first_append [simp]: "c \<notin> set p \<Longrightarrow> split_first c (p @ c # q) = Some (p, q)"
proof -
  assume "c \<notin> set p"
  then have "\<forall>x\<in>set p. x \<noteq> c" by auto
  then show ?thesis by (simp add: split_first_def)
qed

lemma split_first_None [simp]: "split_first c s = None \<longleftrightarrow> c \<notin> set s"
  by (simp add: split_first_def)

lemma split_first_absent [simp]: "c \<notin> set s \<Longrightarrow> split_first c s = None"
  by simp

lemma split_first_SomeD: "split_first c s = Some (p, q) \<Longrightarrow> s = p @ c # q \<and> c \<notin> set p"
proof -
  assume a: "split_first c s = Some (p, q)"
  then have "c \<in> set s" by (auto simp: split_first_def split: if_splits)
  then obtain xs ys where s: "s = xs @ c # ys" and "c \<notin> set xs"
    by (auto dest: split_list_first)
  with a show ?thesis by simp
qed

lemma after_last_append [simp]: "c \<notin> set q \<Longrightarrow> after_last c (p @ c # q) = Some q"
proof -
  assume "c \<notin> set q"
  then have "\<forall>x\<in>set (rev q). x \<noteq> c" by auto
  then have "takeWhile (\<lambda>x. x \<noteq> c) (rev q @ c # rev p) = rev q"
    by (subst takeWhile_append2) auto
  then show ?thesis by (simp add: after_last_def)
qed

lemma after_last_None [simp]: "after_last c s = None \<longleftrightarrow> c \<notin> set s"
  by (simp add: after_last_def)

lemma after_last_absent [simp]: "c \<notin> set s \<Longrightarrow> after_last c s = None"
  by simp

end
