(* ===== verification/Binary64.thy ===== *)
theory Binary64
  imports Prelude "HOL-Library.Log_Nat"
begin

text \<open>
  The C++ type \<open>double\<close> (IEEE 754 binary64). Every non-NaN value has exactly one
  representation: the two infinities, the negative zero, and \<open>Fin x\<close> for the value \<open>x\<close>
  (\<open>Fin 0\<close> is the positive zero). NaN payloads are not distinguished: the code never reads
  them. The operations are the ones the code uses: unary minus, the comparison below
  \<open>std::max\<close>, and subtraction with the rounding to nearest, ties to even.
\<close>

datatype f64 = NaN | PInf | NInf | NZero | Fin rat

definition pow2 :: "int \<Rightarrow> rat" where
  "pow2 e = (if 0 \<le> e then 2 ^ nat e else 1 / 2 ^ nat (- e))"

text \<open>The exponent of the binade of a positive rational, from the lengths of its parts.\<close>

definition binade :: "rat \<Rightarrow> int" where
  "binade x = (case quotient_of x of (p, q) \<Rightarrow>
     let e = bitlen p - bitlen q
     in if pow2 e \<le> x then e else e - 1)"

definition round_half_even :: "rat \<Rightarrow> int" where
  "round_half_even x = (let f = \<lfloor>x\<rfloor>; d = x - of_int f in
     if d < 1 / 2 then f else if 1 / 2 < d then f + 1 else if even f then f else f + 1)"

definition round_mag :: "rat \<Rightarrow> rat" where
  "round_mag x = (let u = max (binade x - 52) (- 1074)
                  in of_int (round_half_even (x / pow2 u)) * pow2 u)"

definition round64 :: "rat \<Rightarrow> f64" where
  "round64 x = (if x = 0 then Fin 0
     else if 0 < x then (let r = round_mag x in if r < 2 ^ 1024 then Fin r else PInf)
     else (let r = round_mag (- x) in if r = 0 then NZero else if r < 2 ^ 1024 then Fin (- r) else NInf))"

primrec f64_neg :: "f64 \<Rightarrow> f64" where
  "f64_neg NaN = NaN"
| "f64_neg PInf = NInf"
| "f64_neg NInf = PInf"
| "f64_neg NZero = Fin 0"
| "f64_neg (Fin x) = (if x = 0 then NZero else Fin (- x))"

definition value64 :: "f64 \<Rightarrow> rat" where
  "value64 a = (case a of Fin x \<Rightarrow> x | _ \<Rightarrow> 0)"

definition is_finite :: "f64 \<Rightarrow> bool" where
  "is_finite a \<longleftrightarrow> (case a of Fin x \<Rightarrow> True | NZero \<Rightarrow> True | _ \<Rightarrow> False)"

definition f64_less :: "f64 \<Rightarrow> f64 \<Rightarrow> bool" where
  "f64_less a b = (case (a, b) of
     (NaN, _) \<Rightarrow> False | (_, NaN) \<Rightarrow> False
   | (PInf, _) \<Rightarrow> False | (_, NInf) \<Rightarrow> False
   | (NInf, _) \<Rightarrow> True | (_, PInf) \<Rightarrow> True
   | (_, _) \<Rightarrow> value64 a < value64 b)"

text \<open>\<open>std::max(a, b)\<close> returns \<open>(a < b) ? b : a\<close>.\<close>

definition std_max :: "f64 \<Rightarrow> f64 \<Rightarrow> f64" where
  "std_max a b = (if f64_less a b then b else a)"

definition f64_sub :: "f64 \<Rightarrow> f64 \<Rightarrow> f64" where
  "f64_sub a b = (case (a, b) of
     (NaN, _) \<Rightarrow> NaN | (_, NaN) \<Rightarrow> NaN
   | (PInf, PInf) \<Rightarrow> NaN | (PInf, _) \<Rightarrow> PInf
   | (NInf, NInf) \<Rightarrow> NaN | (NInf, _) \<Rightarrow> NInf
   | (_, PInf) \<Rightarrow> NInf | (_, NInf) \<Rightarrow> PInf
   | (NZero, Fin y) \<Rightarrow> if y = 0 then NZero else round64 (- y)
   | (_, _) \<Rightarrow> round64 (value64 a - value64 b))"

subsection \<open>Order and sign\<close>

definition nonneg64 :: "f64 \<Rightarrow> bool" where
  "nonneg64 a = (case a of PInf \<Rightarrow> True | NZero \<Rightarrow> True | Fin x \<Rightarrow> 0 \<le> x | _ \<Rightarrow> False)"

lemma std_max_zero_nonneg: "a \<noteq> NaN \<Longrightarrow> nonneg64 (std_max a (Fin 0))"
  by (cases a) (auto simp: std_max_def f64_less_def nonneg64_def value64_def)

text \<open>The two halves that a signed position is split into: at most one of them is not a zero.\<close>

lemma long_short_exclusive:
  "is_finite q \<Longrightarrow> value64 (std_max q (Fin 0)) = 0 \<or> value64 (std_max (f64_neg q) (Fin 0)) = 0"
  by (cases q) (auto simp: std_max_def f64_less_def value64_def is_finite_def)

lemma long_minus_short:
  "is_finite q \<Longrightarrow> value64 (std_max q (Fin 0)) - value64 (std_max (f64_neg q) (Fin 0)) = value64 q"
  by (cases q) (auto simp: std_max_def f64_less_def value64_def is_finite_def)

lemma is_finite_max_zero: "is_finite q \<Longrightarrow> is_finite (std_max q (Fin 0))"
  and is_finite_neg: "is_finite q \<Longrightarrow> is_finite (f64_neg q)"
  by (cases q; auto simp: std_max_def is_finite_def)+

subsection \<open>Subtraction is exact on integers below \<open>2 ^ 53\<close>\<close>

lemma round_half_even_int [simp]: "round_half_even (of_int n) = n"
  by (simp add: round_half_even_def)

lemma pow2_pos [simp]: "0 < pow2 e"
  by (simp add: pow2_def)

lemma pow2_neg_nat: "e \<le> 0 \<Longrightarrow> of_int n / pow2 e = of_int (n * 2 ^ nat (- e))"
  by (cases "e = 0") (auto simp: pow2_def)

lemma binade_le:
  assumes "1 \<le> n" and "n < 2 ^ k"
  shows "binade (of_int n) \<le> int k - 1"
proof -
  have "nat n < 2 ^ k"
    using assms by (simp add: nat_less_iff)
  then have "floorlog 2 (nat n) \<le> k"
    by (intro floorlog_leI) auto
  moreover have "floorlog 2 (Suc 0) = 1" by (simp add: floorlog_def)
  ultimately show ?thesis
    by (auto simp: binade_def bitlen_def Let_def)
qed

lemma round_mag_int:
  assumes "1 \<le> n" and "n < 2 ^ 53"
  shows "round_mag (of_int n) = of_int n"
proof -
  define u where "u = max (binade (of_int n) - 52) (- 1074)"
  have u: "u \<le> 0"
    using binade_le [OF assms] by (simp add: u_def)
  have "round_mag (of_int n) = of_int (round_half_even (of_int n / pow2 u)) * pow2 u"
    by (simp add: round_mag_def u_def [symmetric])
  also have "of_int n / pow2 u = of_int (n * 2 ^ nat (- u))"
    by (rule pow2_neg_nat [OF u])
  also have "of_int (round_half_even (of_int (n * 2 ^ nat (- u)))) * pow2 u = of_int (n * 2 ^ nat (- u)) * pow2 u"
    by (simp only: round_half_even_int)
  also have "\<dots> = of_int n"
    using u by (cases "u = 0") (simp_all add: pow2_def)
  finally show ?thesis .
qed

lemma round64_int:
  assumes "\<bar>n\<bar> < 2 ^ 53"
  shows "round64 (of_int n) = Fin (of_int n)"
proof -
  have bound: "(of_int m :: rat) < 2 ^ 1024" if "m < 2 ^ 53" for m :: int
  proof -
    have "(of_int m :: rat) < of_int (2 ^ 53)" using that by (simp only: of_int_less_iff)
    also have "(of_int (2 ^ 53) :: rat) \<le> 2 ^ 1024" by simp
    finally show ?thesis .
  qed
  consider "n = 0" | "0 < n" | "n < 0" by linarith
  then show ?thesis
  proof cases
    case 1
    then show ?thesis by (simp add: round64_def)
  next
    case 2
    with assms have "round_mag (of_int n) = of_int n" by (intro round_mag_int) auto
    with 2 assms bound [of n] show ?thesis by (simp add: round64_def)
  next
    case 3
    with assms have "round_mag (of_int (- n)) = of_int (- n)" by (intro round_mag_int) auto
    with 3 assms bound [of "- n"] show ?thesis by (simp add: round64_def)
  qed
qed

lemma f64_sub_int:
  assumes "\<bar>m - n\<bar> < 2 ^ 53"
  shows "f64_sub (Fin (of_int m)) (Fin (of_int n)) = Fin (of_int m - of_int n)"
  using round64_int [OF assms] by (simp add: f64_sub_def value64_def)

lemma f64_sub_self [simp]: "f64_sub (Fin x) (Fin x) = Fin 0"
  by (simp add: f64_sub_def value64_def round64_def)

end
