(* ===== verification/Roq_Types.thy ===== *)
theory Roq_Types
  imports Binary64
begin

text \<open>
  The vocabulary the gateway shares with the Roq libraries it is built on: enums, the update
  messages it publishes through the server's dispatcher, exceptions, and the calls it makes on
  objects it does not implement (connections, request slots, queues, order book sequencers).
  Each such call is an \<open>effect\<close>; a component's trace is the list of its effects, oldest first.
  What an external object answers is a parameter of the handlers. Message fields that every
  construction in the sources leaves at their default (\<open>{}\<close> or NaN) are left out.
\<close>

subsection \<open>Enums\<close>

datatype side = Side_UNDEFINED | Side_BUY | Side_SELL

datatype order_type = OrderType_UNDEFINED | OrderType_MARKET | OrderType_LIMIT

datatype time_in_force =
    TimeInForce_UNDEFINED | TimeInForce_GFD | TimeInForce_GTC | TimeInForce_OPG | TimeInForce_IOC
  | TimeInForce_FOK | TimeInForce_GTX | TimeInForce_GTD | TimeInForce_AT_THE_CLOSE
  | TimeInForce_GOOD_THROUGH_CROSSING | TimeInForce_AT_CROSSING | TimeInForce_GOOD_FOR_TIME
  | TimeInForce_GFA | TimeInForce_GFM

datatype margin_mode =
  MarginMode_UNDEFINED | MarginMode_ISOLATED | MarginMode_CROSS | MarginMode_PORTFOLIO

datatype liquidity = Liquidity_UNDEFINED | Liquidity_MAKER | Liquidity_TAKER

datatype position_effect = PositionEffect_UNDEFINED | PositionEffect_OPEN | PositionEffect_CLOSE

datatype order_status =
    OrderStatus_UNDEFINED | OrderStatus_WORKING | OrderStatus_COMPLETED | OrderStatus_CANCELED
  | OrderStatus_REJECTED

datatype update_type = UpdateType_SNAPSHOT | UpdateType_INCREMENTAL

datatype connection_status =
    ConnectionStatus_UNDEFINED | ConnectionStatus_DISCONNECTED | ConnectionStatus_LOGIN_SENT
  | ConnectionStatus_DOWNLOADING | ConnectionStatus_READY

datatype security_type = SecurityType_UNDEFINED | SecurityType_SWAP | SecurityType_FUTURES

datatype trading_status = TradingStatus_UNDEFINED | TradingStatus_OPEN

datatype statistics_type =
    SETTLEMENT_PRICE | INDEX_VALUE | FUNDING_RATE | FUNDING_RATE_PREDICTION
  | HIGHEST_TRADED_PRICE | LOWEST_TRADED_PRICE | TRADE_VOLUME

datatype support_type =
    Support_REFERENCE_DATA | Support_MARKET_STATUS | Support_TOP_OF_BOOK | Support_MARKET_BY_PRICE
  | Support_TRADE_SUMMARY | Support_STATISTICS | Support_CREATE_ORDER | Support_CANCEL_ORDER
  | Support_ORDER_ACK | Support_ORDER | Support_TRADE | Support_FUNDS | Support_POSITION

datatype protocol = Protocol_HTTP | Protocol_WS

datatype origin = Origin_UNDEFINED | Origin_GATEWAY | Origin_EXCHANGE

text \<open>The last constructors stand for the values only the libraries produce.\<close>

datatype request_status =
    RequestStatus_FORWARDED | RequestStatus_ACCEPTED | RequestStatus_REJECTED
  | RequestStatus_ERROR | RequestStatus_OTHER nat

datatype error = Error_UNDEFINED | Error_UNKNOWN | Error_UNKNOWN_ORDER_ID | Error_OTHER nat

datatype request_type = RequestType_CREATE_ORDER | RequestType_CANCEL_ORDER

datatype execution_instruction = PARTICIPATE_DO_NOT_INITIATE | DO_NOT_INCREASE | OtherInstruction nat

datatype http_method = GET | POST | DELETE

datatype http_category =
    Category_UNKNOWN | INFORMATIONAL_RESPONSE | SUCCESS | REDIRECTION | CLIENT_ERROR | SERVER_ERROR

subsection \<open>Exceptions\<close>

text \<open>
  \<open>server::oms::Exception\<close> with its two subclasses the code throws; \<open>roq::NetworkError\<close>;
  \<open>roq::BadState\<close>; and every other \<open>std::exception\<close>, such as \<open>roq::RuntimeError\<close>.
\<close>

datatype oms_exception = NotReady | NotSupported | OtherOms origin request_status error

datatype exn =
    OmsException oms_exception string
  | NetworkError request_status error string
  | BadState
  | RuntimeError string
  | StdException string

definition what :: "exn \<Rightarrow> string" where
  "what e = (case e of OmsException k m \<Rightarrow> m | NetworkError st er m \<Rightarrow> m
     | BadState \<Rightarrow> ''BadState'' | RuntimeError m \<Rightarrow> m | StdException m \<Rightarrow> m)"

subsection \<open>Time and tracing\<close>

text \<open>Durations are counts: nanoseconds unless a conversion says otherwise.\<close>

definition ns_of_ms :: "int \<Rightarrow> int" where
  "ns_of_ms t = t * 1000000"

definition ns_of_s :: "int \<Rightarrow> int" where
  "ns_of_s t = t * 1000000000"

record trace_info =
  origin_create_time :: int
  origin_create_time_utc :: int
  source_receive_time :: int

subsection \<open>Messages published through the dispatcher\<close>

record stream_status =
  ss_stream_id :: "16 word"
  ss_account :: string
  ss_supports :: "support_type set"
  ss_protocol :: protocol
  ss_connection_status :: connection_status
  ss_reason :: string
  ss_interface :: string
  ss_authority :: string
  ss_path :: string
  ss_proxy :: string

record mbp_update =
  mbp_price :: f64
  mbp_quantity :: f64

record market_by_price_update =
  mb_stream_id :: "16 word"
  mb_exchange :: string
  mb_symbol :: string
  mb_bids :: "mbp_update list"
  mb_asks :: "mbp_update list"
  mb_update_type :: update_type
  mb_exchange_time_utc :: int
  mb_exchange_sequence :: "64 word"
  mb_sending_time_utc :: int

record top_of_book =
  tob_stream_id :: "16 word"
  tob_exchange :: string
  tob_symbol :: string
  tob_bid_price :: f64
  tob_bid_quantity :: f64
  tob_ask_price :: f64
  tob_ask_quantity :: f64
  tob_update_type :: update_type
  tob_exchange_time_utc :: int

record trade =
  tr_side :: side
  tr_price :: f64
  tr_quantity :: f64
  tr_trade_id :: string
  tr_taker_order_id :: string
  tr_maker_order_id :: string

record trade_summary =
  ts_stream_id :: "16 word"
  ts_exchange :: string
  ts_symbol :: string
  ts_trades :: "trade list"
  ts_exchange_time_utc :: int
  ts_exchange_sequence :: "64 word"

record statistics =
  st_type :: statistics_type
  st_value :: f64
  st_begin_time_utc :: int

record statistics_update =
  su_stream_id :: "16 word"
  su_exchange :: string
  su_symbol :: string
  su_statistics :: "statistics list"
  su_update_type :: update_type
  su_exchange_time_utc :: int

record reference_data =
  rd_stream_id :: "16 word"
  rd_exchange :: string
  rd_symbol :: string
  rd_security_type :: security_type
  rd_cfi_code :: string
  rd_base_currency :: string
  rd_quote_currency :: string
  rd_settlement_currency :: string
  rd_tick_size :: f64
  rd_multiplier :: f64
  rd_min_trade_vol :: f64
  rd_max_trade_vol :: f64
  rd_trade_vol_step_size :: f64
  rd_underlying :: string
  rd_issue_date :: int
  rd_settlement_date :: int
  rd_expiry_datetime :: int
  rd_expiry_datetime_utc :: int
  rd_discard :: bool

record market_status =
  ms_stream_id :: "16 word"
  ms_exchange :: string
  ms_symbol :: string
  ms_trading_status :: trading_status

record funds_update =
  fu_stream_id :: "16 word"
  fu_account :: string
  fu_currency :: string
  fu_balance :: f64
  fu_hold :: f64
  fu_update_type :: update_type
  fu_exchange_time_utc :: int
  fu_exchange_sequence :: "32 word"

record position_update =
  pu_stream_id :: "16 word"
  pu_account :: string
  pu_exchange :: string
  pu_symbol :: string
  pu_margin_mode :: margin_mode
  pu_long_quantity :: f64
  pu_short_quantity :: f64
  pu_update_type :: update_type
  pu_exchange_time_utc :: int
  pu_sending_time_utc :: int

record order_update =
  ou_account :: string
  ou_exchange :: string
  ou_symbol :: string
  ou_side :: side
  ou_position_effect :: position_effect
  ou_margin_mode :: margin_mode
  ou_max_show_quantity :: f64
  ou_order_type :: order_type
  ou_time_in_force :: time_in_force
  ou_create_time_utc :: int
  ou_update_time_utc :: int
  ou_external_order_id :: string
  ou_client_order_id :: string
  ou_order_status :: order_status
  ou_text :: string
  ou_quantity :: f64
  ou_price :: f64
  ou_stop_price :: f64
  ou_remaining_quantity :: f64
  ou_traded_quantity :: f64
  ou_average_traded_price :: f64
  ou_last_traded_quantity :: f64
  ou_last_traded_price :: f64
  ou_last_liquidity :: liquidity
  ou_sending_time_utc :: int

record fill =
  fi_external_trade_id :: string
  fi_quantity :: f64
  fi_price :: f64
  fi_liquidity :: liquidity

record trade_update =
  tu_stream_id :: "16 word"
  tu_account :: string
  tu_order_id :: "64 word"
  tu_exchange :: string
  tu_symbol :: string
  tu_side :: side
  tu_position_effect :: position_effect
  tu_margin_mode :: margin_mode
  tu_create_time_utc :: int
  tu_update_time_utc :: int
  tu_external_order_id :: string
  tu_client_order_id :: string
  tu_fills :: "fill list"
  tu_routing_id :: string
  tu_update_type :: update_type
  tu_sending_time_utc :: int
  tu_strategy_id :: "32 word"

record response =
  rs_request_type :: request_type
  rs_origin :: origin
  rs_request_status :: request_status
  rs_error :: error
  rs_text :: string
  rs_version :: "32 word"
  rs_request_id :: string
  rs_external_order_id :: string
  rs_client_order_id :: string

record cancel_all_orders_ack =
  ca_stream_id :: "16 word"
  ca_account :: string
  ca_order_id :: "64 word"
  ca_exchange :: string
  ca_symbol :: string
  ca_side :: side
  ca_origin :: origin
  ca_request_status :: request_status
  ca_error :: error
  ca_text :: string
  ca_request_id :: string
  ca_strategy_id :: "32 word"

text \<open>
  \<open>OrderResponse\<close> is the dispatch of a \<open>Response\<close> that names its order by user and order id;
  \<open>RequestResponse\<close> the one that names it by the request id inside the response.
\<close>

datatype update =
    U_StreamStatus stream_status
  | U_ExternalLatency "16 word" string int
  | U_MarketByPrice market_by_price_update
  | U_TopOfBook top_of_book
  | U_TradeSummary trade_summary
  | U_Statistics statistics_update
  | U_ReferenceData reference_data
  | U_MarketStatus market_status
  | U_Funds funds_update
  | U_Position position_update
  | U_Order order_update "16 word"
  | U_Trade trade_update "8 word"
  | U_OrderResponse response "16 word" "8 word" "64 word"
  | U_RequestResponse response "16 word"
  | U_CancelAllOrdersAck cancel_all_orders_ack

subsection \<open>Orders as the server's order management knows them\<close>

record oms_order =
  or_user_id :: "8 word"
  or_order_id :: "64 word"
  or_account :: string
  or_exchange :: string
  or_symbol :: string
  or_side :: side
  or_position_effect :: position_effect
  or_margin_mode :: margin_mode
  or_external_order_id :: string
  or_client_order_id :: string
  or_routing_id :: string
  or_strategy_id :: "32 word"

record create_order =
  co_account :: string
  co_order_id :: "64 word"
  co_symbol :: string
  co_side :: side
  co_margin_mode :: margin_mode
  co_order_type :: order_type
  co_time_in_force :: time_in_force
  co_execution_instructions :: "execution_instruction list"
  co_quantity :: f64
  co_price :: f64

record cancel_order =
  xo_account :: string
  xo_order_id :: "64 word"
  xo_version :: "32 word"

record cancel_all_orders =
  xa_account :: string
  xa_order_id :: "64 word"
  xa_exchange :: string
  xa_symbol :: string
  xa_side :: side
  xa_strategy_id :: "32 word"

text \<open>\<open>server::oms::RefData\<close>: the precisions the encoder formats with.\<close>

record ref_data =
  rf_quantity_precision :: nat
  rf_price_precision :: nat

subsection \<open>Calls on external objects\<close>

record rest_request =
  rq_method :: http_method
  rq_path :: string
  rq_query :: string
  rq_headers :: string
  rq_body :: string
  rq_json_content :: bool
  rq_immediate :: bool

text \<open>The closures handed to the REST client with a request, by what they capture.\<close>

datatype callback =
    CbPublicToken "32 word" | CbContracts "32 word" | CbOrderBook string
  | CbPrivateToken | CbAccount | CbPositions | CbOrders | CbOrder string | CbFills
  | CbCreateOrder "8 word" "64 word" "32 word"
  | CbCancelOrder "8 word" "64 word" "32 word"
  | CbCancelAllOrders

text \<open>The members of \<open>gateway::Request\<close>, each a \<open>core::limit::Request\<close>.\<close>

datatype request_kind =
  Req_PrivateToken | Req_Balances | Req_Positions | Req_OpenOrders | Req_StaleOrders | Req_Trades

text \<open>
  What a stream tells the controller that owns it: the structs \<open>PublicToken\<close>, \<open>SymbolsUpdate\<close>
  and \<open>PrivateToken\<close>.
\<close>

datatype notification =
    PublicToken (pt_uri: string) (pt_query: string) (pt_ping_frequency: int)
  | SymbolsUpdate "string list"
  | PrivateToken (vt_account: string) (vt_uri: string) (vt_query: string) (vt_ping_frequency: int)

datatype effect =
    Dispatch update
  | Notify notification
  | ConnStart | ConnStop | ConnClose | ConnResume
  | ConnSuspendFor int
  | ConnTouch int
  | SendText string
  | SendRequest rest_request string callback
  | DlBegin | DlBump | DlReset
  | DlCheck nat | DlCheckRelaxed nat | DlRetry nat
  | ReqIssue request_kind
  | ReqCommit request_kind
  | SubscribeQueuePush string
  | DepthQueuePush string
  | SequencerUpdate string "mbp_update list" "mbp_update list" "64 word" "64 word" "64 word"
  | SequencerSnapshot string "mbp_update list" "mbp_update list" "64 word"
  | SequencerApply string "64 word"
  | SequencerClear string
  | SequencersClear
  | CountDisconnect
  | DispatcherEnabled bool
  | Call string

record ctx =
  trace :: "effect list"

definition emit :: "effect \<Rightarrow> ('z ctx_scheme, exn, unit) stmt" where
  [exec_simps]: "emit a = modify (\<lambda>s. s\<lparr>trace := trace s @ [a]\<rparr>)"

text \<open>\<open>create_trace_and_dispatch(shared_.dispatcher, trace_info, update, ...)\<close>\<close>

definition dispatch :: "update \<Rightarrow> ('z ctx_scheme, exn, unit) stmt" where
  [exec_simps]: "dispatch u = emit (Dispatch u)"

text \<open>
  A call that asks an external object something: the call is an effect, and the answer, a
  parameter, is a function of all effects so far, this call included.
\<close>

definition ask :: "string \<Rightarrow> (effect list \<Rightarrow> 'b) \<Rightarrow> ('b \<Rightarrow> ('z ctx_scheme, exn, 'a) stmt) \<Rightarrow> ('z ctx_scheme, exn, 'a) stmt" where
  [exec_simps]: "ask name answer k = seqm (emit (Call name)) (reading (\<lambda>s. answer (trace s)) k)"

lemma keeps_emit:
  assumes "\<And>s. I s \<Longrightarrow> I (s\<lparr>trace := trace s @ [a]\<rparr>)"
  shows "keeps I (emit a)"
  unfolding emit_def using assms by (intro keeps_modify)

lemma ask_run:
  "ask name answer k s = k (answer (trace s @ [Call name])) (s\<lparr>trace := trace s @ [Call name]\<rparr>)"
  by (simp add: exec_simps)

lemma keeps_ask: "keeps I (emit (Call name)) \<Longrightarrow> (\<And>b. keeps I (k b)) \<Longrightarrow> keeps I (ask name answer k)"
  unfolding ask_def by (intro keeps_intros)

text \<open>A loop whose body only has effects, given by a function of the element.\<close>

lemma for_each_trace:
  assumes "\<And>x s. body x s = Normal () (s\<lparr>trace := trace s @ f x\<rparr>)"
  shows "for_each xs body s = Normal () (s\<lparr>trace := trace s @ concat (map f xs)\<rparr>)"
  by (induction xs arbitrary: s) (simp_all add: assms exec_simps)

subsection \<open>Connections and downloads\<close>

text \<open>
  What a connection answers may depend on everything done so far, so its answers are functions
  of the trace.
\<close>

record connection_env =
  conn_refresh :: "effect list \<Rightarrow> bool"
  conn_ready :: "effect list \<Rightarrow> bool"
  conn_interface :: "effect list \<Rightarrow> string"
  conn_authority :: "effect list \<Rightarrow> string"
  conn_path :: "effect list \<Rightarrow> string"
  conn_proxy :: "effect list \<Rightarrow> string"

text \<open>
  One call into \<open>core::Download2\<close>. The object may call the owner's \<open>download\<close> function with a
  state, look at the number it returns, and go on; it calls it finitely often. Which states it
  asks for is up to the object.
\<close>

datatype 'st dl_run = DlDone | DlCall 'st "int \<Rightarrow> 'st dl_run"

primrec run_download :: "('st \<Rightarrow> ('s, exn, int) stmt) \<Rightarrow> 'st dl_run \<Rightarrow> ('s, exn, unit) stmt" where
  "run_download download DlDone = skip"
| "run_download download (DlCall st k) = bindm (download st) (\<lambda>n. run_download download (k n))"

declare run_download.simps [exec_simps]

lemma keeps_run_download [keeps_intros]:
  assumes "\<And>st. keeps I (download st)"
  shows "keeps I (run_download download r)"
proof (induction r)
  case DlDone
  show ?case by (simp add: keeps_intros)
next
  case (DlCall st k)
  have "keeps I (run_download download (k n))" for n
    by (rule DlCall) simp
  with assms show ?case by (auto intro!: keeps_bindm)
qed

end
