(* ===== verification/Protocol_Types.thy ===== *)
theory Protocol_Types
  imports Roq_Types
begin

text \<open>
  The exchange's messages as the decoders deliver them. The C++ structs are generated by the
  build from the schemas under \<open>protocol/json/*.json\<close>; here are the enums with all their
  values and the records with the fields the gateway reads. Every generated enum has the two
  internal values \<open>UNDEFINED_INTERNAL\<close> (no text) and \<open>UNKNOWN_INTERNAL\<close> (a text the schema
  does not list). Codes are \<open>int32\<close> values, sequences are \<open>uint64\<close>, and a time is a count in
  the unit of its schema (the suffix of the field: ms or ns).
\<close>

subsection \<open>Enums\<close>

datatype json_side = JSide_UNDEFINED_INTERNAL | JSide_UNKNOWN_INTERNAL | JSide_BUY | JSide_SELL

datatype json_order_type =
  JOrderType_UNDEFINED_INTERNAL | JOrderType_UNKNOWN_INTERNAL | JOrderType_MARKET | JOrderType_LIMIT

datatype json_time_in_force =
    JTimeInForce_UNDEFINED_INTERNAL | JTimeInForce_UNKNOWN_INTERNAL
  | JTimeInForce_GTC | JTimeInForce_IOC | JTimeInForce_FOK | JTimeInForce_GTT

datatype json_margin_mode =
  JMarginMode_UNDEFINED_INTERNAL | JMarginMode_UNKNOWN_INTERNAL | JMarginMode_CROSS | JMarginMode_ISOLATED

datatype json_liquidity =
  JLiquidity_UNDEFINED_INTERNAL | JLiquidity_UNKNOWN_INTERNAL | JLiquidity_TAKER | JLiquidity_MAKER

datatype json_position_side =
    JPositionSide_UNDEFINED_INTERNAL | JPositionSide_UNKNOWN_INTERNAL
  | JPositionSide_BOTH | JPositionSide_LONG | JPositionSide_SHORT

datatype json_order_status =
    JOrderStatus_UNDEFINED_INTERNAL | JOrderStatus_UNKNOWN_INTERNAL
  | JOrderStatus_OPEN | JOrderStatus_MATCH | JOrderStatus_DONE

datatype json_order_update_type =
    JOrderUpdateType_UNDEFINED_INTERNAL | JOrderUpdateType_UNKNOWN_INTERNAL
  | JOrderUpdateType_OPEN | JOrderUpdateType_MATCH | JOrderUpdateType_UPDATE
  | JOrderUpdateType_FILLED | JOrderUpdateType_CANCELED

datatype json_contract_type =
  ContractType_UNDEFINED_INTERNAL | ContractType_UNKNOWN_INTERNAL | FFWCSX | FFICSX

datatype json_status =
  Status_UNDEFINED_INTERNAL | Status_UNKNOWN_INTERNAL | Status_OPEN | Status_BEING_SETTLED

datatype json_type =
    Type_UNDEFINED_INTERNAL | Type_UNKNOWN_INTERNAL
  | Type_WELCOME | Type_ERROR | Type_PONG | Type_ACK | Type_MESSAGE

datatype json_subject =
    Subject_UNDEFINED_INTERNAL | Subject_UNKNOWN_INTERNAL
  | Subject_TICKER_V2 | Subject_MATCH | Subject_EXECUTION | Subject_MARK_INDEX_PRICE
  | Subject_FUNDING_RATE | Subject_LEVEL2 | Subject_FUNDING_BEGIN | Subject_FUNDING_END
  | Subject_SNAPSHOT_24H | Subject_WALLET_BALANCE_CHANGE | Subject_ORDER_MARGIN_CHANGE
  | Subject_AVAILABLE_BALANCE_CHANGE | Subject_WITHDRAW_HOLD_CHANGE | Subject_POSITION_CHANGE
  | Subject_POSITION_SETTLEMENT | Subject_POSITION_ADJUST_RISK_LIMIT
  | Subject_SYMBOL_ORDER_CHANGE | Subject_ORDER_CHANGE

datatype json_ws_op =
    WSOp_UNDEFINED_INTERNAL | WSOp_UNKNOWN_INTERNAL | WSOp_PONG | WSOp_ADD_ORDER_ACK
  | WSOp_CANCEL_ORDER_ACK

subsection \<open>REST responses\<close>

record instance_server =
  is_ping_interval_ms :: int
  is_endpoint :: string

record token =
  tk_code :: int
  tk_instance_servers :: "instance_server list"
  tk_token :: string

record account_ack =
  aa_code :: int
  aa_msg :: string
  aa_available_balance :: f64
  aa_currency :: string

record position_item =
  pi_symbol :: string
  pi_margin_mode :: json_margin_mode
  pi_current_qty :: f64
  pi_current_timestamp_ms :: int

record positions_ack =
  pa_code :: int
  pa_msg :: string
  pa_data :: "position_item list"

record order_item =
  oi_id :: string
  oi_symbol :: string
  oi_type :: json_order_type
  oi_side :: json_side
  oi_price :: f64
  oi_size :: f64
  oi_stop_price :: f64
  oi_time_in_force :: json_time_in_force
  oi_visible_size :: f64
  oi_client_oid :: string
  oi_remark :: string
  oi_created_at_ms :: int
  oi_updated_at_ms :: int
  oi_margin_mode :: json_margin_mode
  oi_avg_deal_price :: f64
  oi_status :: json_order_status
  oi_filled_size :: f64
  oi_position_side :: json_position_side

record orders_ack =
  os_code :: int
  os_msg :: string
  os_items :: "order_item list"

record order_ack =
  oa_code :: int
  oa_msg :: string
  oa_data :: order_item

record fill_item =
  fl_symbol :: string
  fl_trade_id :: string
  fl_order_id :: string
  fl_side :: json_side
  fl_liquidity :: json_liquidity
  fl_price :: f64
  fl_size :: f64
  fl_margin_mode :: json_margin_mode
  fl_position_side :: json_position_side
  fl_trade_time_ns :: int

record fills_ack =
  fa_code :: int
  fa_msg :: string
  fa_data :: "fill_item list"

text \<open>\<open>AddOrderAck\<close> and \<open>CancelAllOrdersAck\<close>: the handlers read only the code and the text.\<close>

record simple_ack =
  sa_code :: int
  sa_msg :: string

record cancel_order_ack =
  xk_code :: int
  xk_msg :: string
  xk_cancelled_order_ids :: "string list"

record contract_item =
  ci_symbol :: string
  ci_root_symbol :: string
  ci_type :: json_contract_type
  ci_type_raw_text :: string
  ci_first_open_date_ms :: int
  ci_expire_date_ms :: int
  ci_settle_date_ms :: int
  ci_base_currency :: string
  ci_quote_currency :: string
  ci_settle_currency :: string
  ci_max_order_qty :: f64
  ci_lot_size :: f64
  ci_tick_size :: f64
  ci_multiplier :: f64
  ci_status :: json_status

record contracts_ack =
  ck_code :: int
  ck_msg :: string
  ck_data :: "contract_item list"

record book_level =
  bl_price :: f64
  bl_size :: f64

record order_book_ack =
  ob_code :: int
  ob_sequence :: "64 word"
  ob_symbol :: string
  ob_bids :: "book_level list"
  ob_asks :: "book_level list"
  ob_ts_ms :: int

subsection \<open>Websocket messages\<close>

record error_message =
  er_code :: int
  er_data :: string

record ticker_v2 =
  tv_symbol :: string
  tv_best_bid_size :: f64
  tv_best_bid_price :: f64
  tv_best_ask_price :: f64
  tv_best_ask_size :: f64
  tv_ts_ns :: int

record match_message =
  mt_symbol :: string
  mt_sequence :: "64 word"
  mt_side :: json_side
  mt_size :: f64
  mt_price :: f64
  mt_taker_order_id :: string
  mt_maker_order_id :: string
  mt_trade_id :: string
  mt_ts_ns :: int

record mark_index_price =
  mi_topic :: string
  mi_mark_price :: f64
  mi_index_price :: f64
  mi_timestamp_ms :: int

record funding_rate =
  fr_topic :: string
  fr_funding_rate :: f64
  fr_timestamp_ms :: int

record level2 =
  l2_topic :: string
  l2_sequence :: "64 word"
  l2_change :: string
  l2_timestamp_ms :: int

record funding_event =
  fe_symbol :: string
  fe_funding_time_ms :: int
  fe_funding_rate :: f64
  fe_timestamp_ms :: int

record snapshot24h =
  sn_high_price :: f64
  sn_low_price :: f64
  sn_symbol :: string
  sn_volume :: f64
  sn_ts_ns :: int

record wallet_balance_change =
  wb_hold_balance :: f64
  wb_version :: "32 word"
  wb_available_balance :: f64
  wb_currency :: string
  wb_timestamp_ms :: int

record position_change =
  pc_symbol :: string
  pc_margin_mode :: json_margin_mode
  pc_current_timestamp_ms :: int
  pc_current_qty :: f64
  pc_ts_ms :: int

record order_change =
  oc_margin_mode :: json_margin_mode
  oc_status :: json_order_status
  oc_type :: json_order_update_type
  oc_symbol :: string
  oc_side :: json_side
  oc_order_type :: json_order_type
  oc_liquidity :: json_liquidity
  oc_order_id :: string
  oc_client_oid :: string
  oc_trade_id :: string
  oc_price :: f64
  oc_size :: f64
  oc_filled_size :: f64
  oc_remain_size :: f64
  oc_match_size :: f64
  oc_match_price :: f64
  oc_position_side :: json_position_side
  oc_order_time_ns :: int
  oc_ts_ns :: int

subsection \<open>Messages of the websocket order API\<close>

record ws_message =
  wm_session_id :: string
  wm_ping_interval_ms :: int
  wm_code :: int
  wm_op :: json_ws_op

record ws_error =
  we_code :: int
  we_msg :: string
  we_id :: string
  we_op :: json_ws_op

record ws_order_ack =
  wa_id :: string
  wa_order_id :: string
  wa_client_oid :: string

end
