(* ===== verification/Json_Map.thy ===== *)
theory Json_Map
  imports Protocol_Types
begin

text \<open>
  \<open>protocol/json/map.cpp\<close>: the translation between the exchange's enums and Roq's, one function
  per direction. The switches cover every enumerator, so the trailing \<open>return {}\<close> of the source
  is not reached and the functions are total. The locale states what a pair of translations
  promises its users: a value the exchange supports survives being sent and read back, and every
  other value is sent as a fixed default.
\<close>

subsection \<open>Exchange to Roq\<close>

fun map_liquidity :: "json_liquidity \<Rightarrow> liquidity" where
  "map_liquidity JLiquidity_UNDEFINED_INTERNAL = Liquidity_UNDEFINED"
| "map_liquidity JLiquidity_UNKNOWN_INTERNAL = Liquidity_UNDEFINED"
| "map_liquidity JLiquidity_TAKER = Liquidity_TAKER"
| "map_liquidity JLiquidity_MAKER = Liquidity_MAKER"

fun map_margin_mode :: "json_margin_mode \<Rightarrow> margin_mode" where
  "map_margin_mode JMarginMode_UNDEFINED_INTERNAL = MarginMode_UNDEFINED"
| "map_margin_mode JMarginMode_UNKNOWN_INTERNAL = MarginMode_UNDEFINED"
| "map_margin_mode JMarginMode_CROSS = MarginMode_CROSS"
| "map_margin_mode JMarginMode_ISOLATED = MarginMode_ISOLATED"

fun map_order_status :: "json_order_status \<Rightarrow> order_status" where
  "map_order_status JOrderStatus_UNDEFINED_INTERNAL = OrderStatus_UNDEFINED"
| "map_order_status JOrderStatus_UNKNOWN_INTERNAL = OrderStatus_UNDEFINED"
| "map_order_status JOrderStatus_OPEN = OrderStatus_WORKING"
| "map_order_status JOrderStatus_MATCH = OrderStatus_WORKING"
| "map_order_status JOrderStatus_DONE = OrderStatus_COMPLETED"

fun map_order_type :: "json_order_type \<Rightarrow> order_type" where
  "map_order_type JOrderType_UNDEFINED_INTERNAL = OrderType_UNDEFINED"
| "map_order_type JOrderType_UNKNOWN_INTERNAL = OrderType_UNDEFINED"
| "map_order_type JOrderType_MARKET = OrderType_MARKET"
| "map_order_type JOrderType_LIMIT = OrderType_LIMIT"

fun map_position_effect :: "json_position_side \<Rightarrow> json_side \<Rightarrow> position_effect" where
  "map_position_effect JPositionSide_UNDEFINED_INTERNAL sd = PositionEffect_UNDEFINED"
| "map_position_effect JPositionSide_UNKNOWN_INTERNAL sd = PositionEffect_UNDEFINED"
| "map_position_effect JPositionSide_BOTH sd = PositionEffect_UNDEFINED"
| "map_position_effect JPositionSide_LONG sd = (case sd of
     JSide_UNDEFINED_INTERNAL \<Rightarrow> PositionEffect_UNDEFINED
   | JSide_UNKNOWN_INTERNAL \<Rightarrow> PositionEffect_UNDEFINED
   | JSide_BUY \<Rightarrow> PositionEffect_OPEN
   | JSide_SELL \<Rightarrow> PositionEffect_CLOSE)"
| "map_position_effect JPositionSide_SHORT sd = (case sd of
     JSide_UNDEFINED_INTERNAL \<Rightarrow> PositionEffect_UNDEFINED
   | JSide_UNKNOWN_INTERNAL \<Rightarrow> PositionEffect_UNDEFINED
   | JSide_BUY \<Rightarrow> PositionEffect_CLOSE
   | JSide_SELL \<Rightarrow> PositionEffect_OPEN)"

fun map_side :: "json_side \<Rightarrow> side" where
  "map_side JSide_UNDEFINED_INTERNAL = Side_UNDEFINED"
| "map_side JSide_UNKNOWN_INTERNAL = Side_UNDEFINED"
| "map_side JSide_BUY = Side_BUY"
| "map_side JSide_SELL = Side_SELL"

fun map_time_in_force :: "json_time_in_force \<Rightarrow> time_in_force" where
  "map_time_in_force JTimeInForce_UNDEFINED_INTERNAL = TimeInForce_UNDEFINED"
| "map_time_in_force JTimeInForce_UNKNOWN_INTERNAL = TimeInForce_UNDEFINED"
| "map_time_in_force JTimeInForce_GTC = TimeInForce_GTC"
| "map_time_in_force JTimeInForce_IOC = TimeInForce_IOC"
| "map_time_in_force JTimeInForce_FOK = TimeInForce_FOK"
| "map_time_in_force JTimeInForce_GTT = TimeInForce_UNDEFINED"

subsection \<open>Roq to exchange\<close>

fun to_json_margin_mode :: "margin_mode \<Rightarrow> json_margin_mode" where
  "to_json_margin_mode MarginMode_UNDEFINED = JMarginMode_ISOLATED"
| "to_json_margin_mode MarginMode_ISOLATED = JMarginMode_ISOLATED"
| "to_json_margin_mode MarginMode_CROSS = JMarginMode_CROSS"
| "to_json_margin_mode MarginMode_PORTFOLIO = JMarginMode_ISOLATED"

fun to_json_order_type :: "order_type \<Rightarrow> json_order_type" where
  "to_json_order_type OrderType_UNDEFINED = JOrderType_UNDEFINED_INTERNAL"
| "to_json_order_type OrderType_MARKET = JOrderType_MARKET"
| "to_json_order_type OrderType_LIMIT = JOrderType_LIMIT"

fun to_json_side :: "side \<Rightarrow> json_side" where
  "to_json_side Side_UNDEFINED = JSide_UNDEFINED_INTERNAL"
| "to_json_side Side_BUY = JSide_BUY"
| "to_json_side Side_SELL = JSide_SELL"

fun to_json_time_in_force :: "time_in_force \<Rightarrow> json_time_in_force" where
  "to_json_time_in_force TimeInForce_UNDEFINED = JTimeInForce_UNDEFINED_INTERNAL"
| "to_json_time_in_force TimeInForce_GFD = JTimeInForce_UNDEFINED_INTERNAL"
| "to_json_time_in_force TimeInForce_GTC = JTimeInForce_GTC"
| "to_json_time_in_force TimeInForce_OPG = JTimeInForce_UNDEFINED_INTERNAL"
| "to_json_time_in_force TimeInForce_IOC = JTimeInForce_IOC"
| "to_json_time_in_force TimeInForce_FOK = JTimeInForce_FOK"
| "to_json_time_in_force TimeInForce_GTX = JTimeInForce_UNDEFINED_INTERNAL"
| "to_json_time_in_force TimeInForce_GTD = JTimeInForce_UNDEFINED_INTERNAL"
| "to_json_time_in_force TimeInForce_AT_THE_CLOSE = JTimeInForce_UNDEFINED_INTERNAL"
| "to_json_time_in_force TimeInForce_GOOD_THROUGH_CROSSING = JTimeInForce_UNDEFINED_INTERNAL"
| "to_json_time_in_force TimeInForce_AT_CROSSING = JTimeInForce_UNDEFINED_INTERNAL"
| "to_json_time_in_force TimeInForce_GOOD_FOR_TIME = JTimeInForce_UNDEFINED_INTERNAL"
| "to_json_time_in_force TimeInForce_GFA = JTimeInForce_UNDEFINED_INTERNAL"
| "to_json_time_in_force TimeInForce_GFM = JTimeInForce_UNDEFINED_INTERNAL"

subsection \<open>The contract of a pair of translations\<close>

locale enum_codec =
  fixes enc :: "'r \<Rightarrow> 'j"
    and dec :: "'j \<Rightarrow> 'r"
    and supported :: "'r \<Rightarrow> bool"
    and fallback :: 'r
  assumes roundtrip: "supported x \<Longrightarrow> dec (enc x) = x"
    and unsupported: "\<not> supported x \<Longrightarrow> enc x = enc fallback"
    and fallback_supported: "supported fallback"
begin

lemma normalises: "dec (enc x) = (if supported x then x else fallback)"
  using roundtrip [of x] roundtrip [OF fallback_supported] unsupported [of x] by simp

lemma normalises_idem: "dec (enc (dec (enc x))) = dec (enc x)"
  using fallback_supported by (simp add: normalises)

lemma enc_inject: "supported x \<Longrightarrow> supported y \<Longrightarrow> enc x = enc y \<longleftrightarrow> x = y"
  by (metis roundtrip)

lemma enc_range: "enc ` UNIV = enc ` {x. supported x}"
  using unsupported fallback_supported by (auto simp: image_iff)

end

interpretation side_codec: enum_codec to_json_side map_side "\<lambda>_. True" Side_UNDEFINED
proof
  fix x :: side
  show "map_side (to_json_side x) = x" by (cases x) simp_all
qed simp_all

interpretation order_type_codec: enum_codec to_json_order_type map_order_type "\<lambda>_. True" OrderType_UNDEFINED
proof
  fix x :: order_type
  show "map_order_type (to_json_order_type x) = x" by (cases x) simp_all
qed simp_all

definition margin_mode_supported :: "margin_mode \<Rightarrow> bool" where
  "margin_mode_supported m \<longleftrightarrow> m \<in> {MarginMode_ISOLATED, MarginMode_CROSS}"

interpretation margin_mode_codec:
  enum_codec to_json_margin_mode map_margin_mode margin_mode_supported MarginMode_ISOLATED
proof
  fix x :: margin_mode
  show "margin_mode_supported x \<Longrightarrow> map_margin_mode (to_json_margin_mode x) = x"
    and "\<not> margin_mode_supported x \<Longrightarrow> to_json_margin_mode x = to_json_margin_mode MarginMode_ISOLATED"
    by (cases x; simp add: margin_mode_supported_def)+
qed (simp add: margin_mode_supported_def)

definition time_in_force_supported :: "time_in_force \<Rightarrow> bool" where
  "time_in_force_supported t \<longleftrightarrow>
     t \<in> {TimeInForce_UNDEFINED, TimeInForce_GTC, TimeInForce_IOC, TimeInForce_FOK}"

interpretation time_in_force_codec:
  enum_codec to_json_time_in_force map_time_in_force time_in_force_supported TimeInForce_UNDEFINED
proof
  fix x :: time_in_force
  show "time_in_force_supported x \<Longrightarrow> map_time_in_force (to_json_time_in_force x) = x"
    and "\<not> time_in_force_supported x \<Longrightarrow>
      to_json_time_in_force x = to_json_time_in_force TimeInForce_UNDEFINED"
    by (cases x; simp add: time_in_force_supported_def)+
qed (simp add: time_in_force_supported_def)

subsection \<open>Properties\<close>

text \<open>
  What the gateway sends it reads back: sides and order types survive the round trip through
  the exchange's vocabulary unchanged; a margin mode comes back as itself when the exchange has
  it and as ISOLATED otherwise; a time in force comes back as itself exactly for UNDEFINED, GTC,
  IOC and FOK, and as UNDEFINED otherwise. Translating twice changes nothing more.
\<close>

theorem order_vocabulary_roundtrip:
  "map_side (to_json_side sd) = sd
   \<and> map_order_type (to_json_order_type ot) = ot
   \<and> map_margin_mode (to_json_margin_mode mm)
       = (if mm = MarginMode_CROSS then MarginMode_CROSS else MarginMode_ISOLATED)
   \<and> (map_time_in_force (to_json_time_in_force tif) = tif \<longleftrightarrow> time_in_force_supported tif)
   \<and> map_time_in_force (to_json_time_in_force (map_time_in_force (to_json_time_in_force tif)))
       = map_time_in_force (to_json_time_in_force tif)"
proof -
  have "map_margin_mode (to_json_margin_mode mm)
      = (if mm = MarginMode_CROSS then MarginMode_CROSS else MarginMode_ISOLATED)"
    by (cases mm) (simp_all)
  moreover have "map_time_in_force (to_json_time_in_force tif) = tif \<longleftrightarrow> time_in_force_supported tif"
    using time_in_force_codec.fallback_supported by (auto simp: time_in_force_codec.normalises split: if_splits)
  ultimately show ?thesis
    by (simp add: side_codec.roundtrip order_type_codec.roundtrip time_in_force_codec.normalises_idem)
qed

text \<open>
  Hedge-mode position effects are consistent: for a known side, LONG and SHORT give opposite
  effects, buying opens a long and closes a short, and without a position side (one-way mode)
  no effect is claimed.
\<close>

definition opposite_effect :: "position_effect \<Rightarrow> position_effect" where
  "opposite_effect e = (case e of PositionEffect_UNDEFINED \<Rightarrow> PositionEffect_UNDEFINED
     | PositionEffect_OPEN \<Rightarrow> PositionEffect_CLOSE | PositionEffect_CLOSE \<Rightarrow> PositionEffect_OPEN)"

theorem position_effect_consistent:
  "map_position_effect JPositionSide_SHORT sd = opposite_effect (map_position_effect JPositionSide_LONG sd)
   \<and> (map_position_effect ps sd \<noteq> PositionEffect_UNDEFINED
        \<longleftrightarrow> ps \<in> {JPositionSide_LONG, JPositionSide_SHORT} \<and> map_side sd \<noteq> Side_UNDEFINED)
   \<and> (map_position_effect ps sd = PositionEffect_OPEN
        \<longleftrightarrow> (ps, map_side sd) \<in> {(JPositionSide_LONG, Side_BUY), (JPositionSide_SHORT, Side_SELL)})"
  by (cases ps; cases sd; simp add: opposite_effect_def)

end
