(* ===== verification/Json_Utils.thy ===== *)
theory Json_Utils
  imports Json_Map
begin

text \<open>
  \<open>protocol/json/utils.hpp\<close>, \<open>utils.cpp\<close> and \<open>tools/splitter.cpp\<close>: reading times out of JSON
  values, taking the symbol out of a topic, classifying exchange error codes, and splitting the
  \<open>price,side,size\<close> text of an order book change. The number parsers of the Roq library
  (\<open>utils::charconv::from_chars\<close>) are parameters and may throw.
\<close>

subsection \<open>Times\<close>

text \<open>\<open>core::json::Value\<close>, the variant the JSON parser hands out; objects and arrays stay opaque.\<close>

datatype json_value =
    JNull | JBool bool | JInt int | JDouble f64 | JString string | JObject | JArray

text \<open>
  \<open>static_cast<int64_t>\<close> of a double truncates towards zero; outside the range of \<open>int64_t\<close>
  (and for NaN) the language leaves the result undefined, which is \<open>None\<close> here.
\<close>

definition trunc_rat :: "rat \<Rightarrow> int" where
  "trunc_rat x = (if 0 \<le> x then \<lfloor>x\<rfloor> else - \<lfloor>- x\<rfloor>)"

definition int64_of_double :: "f64 \<Rightarrow> int option" where
  "int64_of_double d = (if is_finite d \<and> - (2 ^ 63) \<le> trunc_rat (value64 d) \<and> trunc_rat (value64 d) < 2 ^ 63
     then Some (trunc_rat (value64 d)) else None)"

text \<open>
  The specialisations of \<open>update\<close> for milliseconds, microseconds and nanoseconds. They differ
  in the unit of \<open>from_chars\<close>, the parameter; the result counts in that unit. \<open>None\<close> is the
  undefined behaviour of the cast.
\<close>

definition update_milliseconds :: "(string \<Rightarrow> exn + int) \<Rightarrow> json_value \<Rightarrow> (exn + int) option" where
  "update_milliseconds from_chars v = (case v of
     JNull \<Rightarrow> Some (Inr 0)
   | JBool b \<Rightarrow> Some (Inl (StdException ''bad_cast''))
   | JInt i \<Rightarrow> Some (Inr i)
   | JDouble d \<Rightarrow> map_option Inr (int64_of_double d)
   | JString s \<Rightarrow> Some (from_chars s)
   | JObject \<Rightarrow> Some (Inl (StdException ''bad_cast''))
   | JArray \<Rightarrow> Some (Inl (StdException ''bad_cast'')))"

definition update_microseconds :: "(string \<Rightarrow> exn + int) \<Rightarrow> json_value \<Rightarrow> (exn + int) option" where
  "update_microseconds from_chars v = (case v of
     JNull \<Rightarrow> Some (Inr 0)
   | JBool b \<Rightarrow> Some (Inl (StdException ''bad_cast''))
   | JInt i \<Rightarrow> Some (Inr i)
   | JDouble d \<Rightarrow> map_option Inr (int64_of_double d)
   | JString s \<Rightarrow> Some (from_chars s)
   | JObject \<Rightarrow> Some (Inl (StdException ''bad_cast''))
   | JArray \<Rightarrow> Some (Inl (StdException ''bad_cast'')))"

definition update_nanoseconds :: "(string \<Rightarrow> exn + int) \<Rightarrow> json_value \<Rightarrow> (exn + int) option" where
  "update_nanoseconds from_chars v = (case v of
     JNull \<Rightarrow> Some (Inr 0)
   | JBool b \<Rightarrow> Some (Inl (StdException ''bad_cast''))
   | JInt i \<Rightarrow> Some (Inr i)
   | JDouble d \<Rightarrow> map_option Inr (int64_of_double d)
   | JString s \<Rightarrow> Some (from_chars s)
   | JObject \<Rightarrow> Some (Inl (StdException ''bad_cast''))
   | JArray \<Rightarrow> Some (Inl (StdException ''bad_cast'')))"

subsection \<open>Topics, codes, changes\<close>

definition strip_symbol_from_topic :: "string \<Rightarrow> string" where
  "strip_symbol_from_topic topic = (case after_last CHR '':'' topic of None \<Rightarrow> topic | Some s \<Rightarrow> s)"

definition guess_error :: "int \<Rightarrow> error" where
  "guess_error code = Error_UNKNOWN"

definition is_auth_error :: "int \<Rightarrow> bool" where
  "is_auth_error code \<longleftrightarrow> code \<in> {400001, 400002, 400003, 400004, 400005, 400006, 400007}"

definition to_side :: "string \<Rightarrow> side" where
  "to_side text = (if text = ''buy'' then Side_BUY else if text = ''sell'' then Side_SELL else Side_UNDEFINED)"

definition split_change :: "(string \<Rightarrow> exn + f64) \<Rightarrow> string \<Rightarrow> exn + (side \<times> f64 \<times> f64)" where
  "split_change from_chars change = (case split_first CHR '','' change of
     None \<Rightarrow> Inr (Side_UNDEFINED, Fin 0, Fin 0)
   | Some (p, rest) \<Rightarrow> (case split_first CHR '','' rest of
       None \<Rightarrow> Inr (Side_UNDEFINED, Fin 0, Fin 0)
     | Some (sd, q) \<Rightarrow> (case from_chars p of
         Inl e \<Rightarrow> Inl e
       | Inr price \<Rightarrow> (case from_chars q of
           Inl e \<Rightarrow> Inl e
         | Inr quantity \<Rightarrow> Inr (to_side sd, price, quantity)))))"

subsection \<open>Lemmas\<close>

lemma strip_symbol_topic: "CHR '':'' \<notin> set symb \<Longrightarrow> strip_symbol_from_topic (p @ CHR '':'' # symb) = symb"
  by (simp add: strip_symbol_from_topic_def)

lemma strip_symbol_no_colon: "CHR '':'' \<notin> set topic \<Longrightarrow> strip_symbol_from_topic topic = topic"
  by (simp add: strip_symbol_from_topic_def)

lemma split_change_fields:
  assumes "CHR '','' \<notin> set p" and "CHR '','' \<notin> set sd"
    and "from_chars p = Inr price" and "from_chars q = Inr quantity"
  shows "split_change from_chars (p @ CHR '','' # sd @ CHR '','' # q) = Inr (to_side sd, price, quantity)"
  using assms by (simp add: split_change_def)

lemma count_list_split: "count_list (p @ c # q) c = count_list p c + 1 + count_list q c"
  by simp

lemma split_change_malformed:
  assumes "count_list change CHR '','' < 2"
  shows "split_change from_chars change = Inr (Side_UNDEFINED, Fin 0, Fin 0)"
proof (cases "split_first CHR '','' change")
  case None
  then show ?thesis by (simp add: split_change_def)
next
  case (Some a)
  obtain p r where a: "a = (p, r)" by (cases a)
  with Some have "change = p @ CHR '','' # r" by (simp add: split_first_SomeD)
  with assms have "count_list r CHR '','' = 0" by simp
  then have "CHR '','' \<notin> set r" by (simp add: count_list_0_iff)
  with Some a show ?thesis
    by (simp add: split_change_def)
qed

subsection \<open>Properties\<close>

text \<open>
  A subscription topic \<open>channel:symbol\<close> yields exactly the symbol, whatever the channel is,
  colons included; a topic with no colon is its own symbol; stripping twice changes nothing.
\<close>

theorem topic_symbol:
  "(CHR '':'' \<notin> set symb \<longrightarrow> strip_symbol_from_topic (p @ '':'' @ symb) = symb)
   \<and> (CHR '':'' \<notin> set topic \<longrightarrow> strip_symbol_from_topic topic = topic)
   \<and> strip_symbol_from_topic (strip_symbol_from_topic topic) = strip_symbol_from_topic topic"
proof -
  have "CHR '':'' \<notin> set (strip_symbol_from_topic topic)"
  proof (cases "CHR '':'' \<in> set topic")
    case True
    then show ?thesis
      by (auto simp: strip_symbol_from_topic_def after_last_def dest: set_takeWhileD)
  next
    case False
    then show ?thesis by (simp add: strip_symbol_no_colon)
  qed
  then show ?thesis
    by (auto simp: strip_symbol_topic strip_symbol_no_colon)
qed

theorem topic_symbol_witness:
  "strip_symbol_from_topic (''/contractMarket/level2'' @ '':'' @ ''XBTUSDTM'') = ''XBTUSDTM''"
  using topic_symbol [of "''XBTUSDTM''" "''/contractMarket/level2''"] by simp

text \<open>
  C40. An order book change \<open>price,side,size\<close> is split into its three fields; a text with
  fewer than two commas gives the undefined side and zeros without parsing any number; and a
  number the parser rejects is never silently replaced: the exception is passed on.
\<close>

theorem split_change_correct:
  "(CHR '','' \<notin> set p \<longrightarrow> CHR '','' \<notin> set sd \<longrightarrow>
      split_change from_chars (p @ '','' @ sd @ '','' @ q)
        = (case from_chars p of Inl e \<Rightarrow> Inl e
           | Inr price \<Rightarrow> (case from_chars q of Inl e \<Rightarrow> Inl e
             | Inr quantity \<Rightarrow> Inr (to_side sd, price, quantity))))
   \<and> (count_list change CHR '','' < 2 \<longrightarrow>
      split_change from_chars change = Inr (Side_UNDEFINED, Fin 0, Fin 0))"
proof (intro conjI impI)
  assume "CHR '','' \<notin> set p" and "CHR '','' \<notin> set sd"
  then show "split_change from_chars (p @ '','' @ sd @ '','' @ q)
        = (case from_chars p of Inl e \<Rightarrow> Inl e
           | Inr price \<Rightarrow> (case from_chars q of Inl e \<Rightarrow> Inl e
             | Inr quantity \<Rightarrow> Inr (to_side sd, price, quantity)))"
    by (simp add: split_change_def)
qed (rule split_change_malformed)

theorem split_change_correct_witness:
  "split_change (\<lambda>s. if s = ''7'' then Inr (Fin 7) else Inr (Fin 2)) (''7'' @ '','' @ ''sell'' @ '','' @ ''2'')
     = Inr (Side_SELL, Fin 7, Fin 2)"
  using split_change_correct [of "''7''" "''sell''" "\<lambda>s. if s = ''7'' then Inr (Fin 7) else Inr (Fin 2)" "''2''" "''7''"]
  by (simp add: to_side_def)

end
