(* ===== verification/Parser.thy ===== *)
theory Parser
  imports Json_Utils
begin

text \<open>
  \<open>protocol/json/parser.cpp\<close> and \<open>ws_parser.cpp\<close>: routing a websocket text to the handler of
  its message type. The generated decoders are parameters (a decoder may throw); the handler, a
  C++ interface with one overload per message struct, is a function on the sum of the structs.
\<close>

subsection \<open>The public and private channels\<close>

datatype ws_event =
    Ev_Welcome
  | Ev_Error error_message
  | Ev_Pong
  | Ev_Ack string
  | Ev_TickerV2 ticker_v2
  | Ev_Match match_message
  | Ev_Execution
  | Ev_MarkIndexPrice mark_index_price
  | Ev_FundingRate funding_rate
  | Ev_Level2 level2
  | Ev_FundingBegin funding_event
  | Ev_FundingEnd funding_event
  | Ev_Snapshot24h snapshot24h
  | Ev_WalletBalanceChange wallet_balance_change
  | Ev_OrderMarginChange
  | Ev_AvailableBalanceChange
  | Ev_WithdrawHoldChange
  | Ev_PositionChange position_change
  | Ev_PositionSettlement
  | Ev_PositionAdjustRiskLimit
  | Ev_SymbolOrderChange order_change
  | Ev_OrderChange order_change

text \<open>
  The decoders: \<open>dec_message\<close> reads the type and subject, each other one the fields of its
  struct. Structs whose fields no handler reads decode to unit.
\<close>

record decoders =
  dec_message :: "string \<Rightarrow> exn + (json_type \<times> json_subject)"
  dec_welcome :: "string \<Rightarrow> exn + unit"
  dec_error :: "string \<Rightarrow> exn + error_message"
  dec_pong :: "string \<Rightarrow> exn + unit"
  dec_ack :: "string \<Rightarrow> exn + string"
  dec_ticker_v2 :: "string \<Rightarrow> exn + ticker_v2"
  dec_match :: "string \<Rightarrow> exn + match_message"
  dec_execution :: "string \<Rightarrow> exn + unit"
  dec_mark_index_price :: "string \<Rightarrow> exn + mark_index_price"
  dec_funding_rate :: "string \<Rightarrow> exn + funding_rate"
  dec_level2 :: "string \<Rightarrow> exn + level2"
  dec_funding_begin :: "string \<Rightarrow> exn + funding_event"
  dec_funding_end :: "string \<Rightarrow> exn + funding_event"
  dec_snapshot24h :: "string \<Rightarrow> exn + snapshot24h"
  dec_wallet_balance_change :: "string \<Rightarrow> exn + wallet_balance_change"
  dec_order_margin_change :: "string \<Rightarrow> exn + unit"
  dec_available_balance_change :: "string \<Rightarrow> exn + unit"
  dec_withdraw_hold_change :: "string \<Rightarrow> exn + unit"
  dec_position_change :: "string \<Rightarrow> exn + position_change"
  dec_position_settlement :: "string \<Rightarrow> exn + unit"
  dec_position_adjust_risk_limit :: "string \<Rightarrow> exn + unit"
  dec_symbol_order_change :: "string \<Rightarrow> exn + order_change"
  dec_order_change :: "string \<Rightarrow> exn + order_change"

text \<open>\<open>dispatch_helper<T>\<close>: decode the whole message, then call the handler's overload.\<close>

definition dispatch_helper ::
    "('m \<Rightarrow> ('s, exn, unit) stmt) \<Rightarrow> (exn + 'a) \<Rightarrow> ('a \<Rightarrow> 'm) \<Rightarrow> ('s, exn, unit) stmt" where
  [exec_simps]: "dispatch_helper handler obj inject = bindm (lift_sum obj) (\<lambda>a. handler (inject a))"

text \<open>The inner switch, on the subject of a \<open>message\<close>; \<open>None\<close> is the fall-through to the fatal log.\<close>

definition dispatch_subject ::
    "decoders \<Rightarrow> (ws_event \<Rightarrow> ('s, exn, unit) stmt) \<Rightarrow> string \<Rightarrow> bool \<Rightarrow> json_subject \<Rightarrow> ('s, exn, bool option) stmt" where
  "dispatch_subject D handler message allow_unknown_event_types subject = (case subject of
     Subject_UNDEFINED_INTERNAL \<Rightarrow> ret None
   | Subject_UNKNOWN_INTERNAL \<Rightarrow> if allow_unknown_event_types then ret (Some False) else ret None
   | Subject_TICKER_V2 \<Rightarrow> seqm (dispatch_helper handler (dec_ticker_v2 D message) Ev_TickerV2) (ret (Some True))
   | Subject_MATCH \<Rightarrow> seqm (dispatch_helper handler (dec_match D message) Ev_Match) (ret (Some True))
   | Subject_EXECUTION \<Rightarrow> seqm (dispatch_helper handler (dec_execution D message) (\<lambda>_. Ev_Execution)) (ret (Some True))
   | Subject_MARK_INDEX_PRICE \<Rightarrow>
       seqm (dispatch_helper handler (dec_mark_index_price D message) Ev_MarkIndexPrice) (ret (Some True))
   | Subject_FUNDING_RATE \<Rightarrow> seqm (dispatch_helper handler (dec_funding_rate D message) Ev_FundingRate) (ret (Some True))
   | Subject_LEVEL2 \<Rightarrow> seqm (dispatch_helper handler (dec_level2 D message) Ev_Level2) (ret (Some True))
   | Subject_FUNDING_BEGIN \<Rightarrow>
       seqm (dispatch_helper handler (dec_funding_begin D message) Ev_FundingBegin) (ret (Some True))
   | Subject_FUNDING_END \<Rightarrow>
       seqm (dispatch_helper handler (dec_funding_end D message) Ev_FundingEnd) (ret (Some True))
   | Subject_SNAPSHOT_24H \<Rightarrow>
       seqm (dispatch_helper handler (dec_snapshot24h D message) Ev_Snapshot24h) (ret (Some True))
   | Subject_WALLET_BALANCE_CHANGE \<Rightarrow>
       seqm (dispatch_helper handler (dec_wallet_balance_change D message) Ev_WalletBalanceChange) (ret (Some True))
   | Subject_ORDER_MARGIN_CHANGE \<Rightarrow>
       seqm (dispatch_helper handler (dec_order_margin_change D message) (\<lambda>_. Ev_OrderMarginChange)) (ret (Some True))
   | Subject_AVAILABLE_BALANCE_CHANGE \<Rightarrow>
       seqm (dispatch_helper handler (dec_available_balance_change D message) (\<lambda>_. Ev_AvailableBalanceChange)) (ret (Some True))
   | Subject_WITHDRAW_HOLD_CHANGE \<Rightarrow>
       seqm (dispatch_helper handler (dec_withdraw_hold_change D message) (\<lambda>_. Ev_WithdrawHoldChange)) (ret (Some True))
   | Subject_POSITION_CHANGE \<Rightarrow>
       seqm (dispatch_helper handler (dec_position_change D message) Ev_PositionChange) (ret (Some True))
   | Subject_POSITION_SETTLEMENT \<Rightarrow>
       seqm (dispatch_helper handler (dec_position_settlement D message) (\<lambda>_. Ev_PositionSettlement)) (ret (Some True))
   | Subject_POSITION_ADJUST_RISK_LIMIT \<Rightarrow>
       seqm (dispatch_helper handler (dec_position_adjust_risk_limit D message) (\<lambda>_. Ev_PositionAdjustRiskLimit)) (ret (Some True))
   | Subject_SYMBOL_ORDER_CHANGE \<Rightarrow>
       seqm (dispatch_helper handler (dec_symbol_order_change D message) Ev_SymbolOrderChange) (ret (Some True))
   | Subject_ORDER_CHANGE \<Rightarrow>
       seqm (dispatch_helper handler (dec_order_change D message) Ev_OrderChange) (ret (Some True)))"

definition parser_dispatch ::
    "decoders \<Rightarrow> (ws_event \<Rightarrow> ('s, exn, unit) stmt) \<Rightarrow> string \<Rightarrow> bool \<Rightarrow> ('s, exn, bool) stmt" where
  "parser_dispatch D handler message allow_unknown_event_types =
     bindm (lift_sum (dec_message D message)) (\<lambda>(type, subject).
     bindm (case type of
         Type_UNDEFINED_INTERNAL \<Rightarrow> if allow_unknown_event_types then ret (Some False) else ret None
       | Type_UNKNOWN_INTERNAL \<Rightarrow> ret None
       | Type_WELCOME \<Rightarrow> seqm (dispatch_helper handler (dec_welcome D message) (\<lambda>_. Ev_Welcome)) (ret (Some True))
       | Type_ERROR \<Rightarrow> seqm (dispatch_helper handler (dec_error D message) Ev_Error) (ret (Some True))
       | Type_PONG \<Rightarrow> seqm (dispatch_helper handler (dec_pong D message) (\<lambda>_. Ev_Pong)) (ret (Some True))
       | Type_ACK \<Rightarrow> seqm (dispatch_helper handler (dec_ack D message) Ev_Ack) (ret (Some True))
       | Type_MESSAGE \<Rightarrow> dispatch_subject D handler message allow_unknown_event_types subject)
     (\<lambda>result. case result of Some handled \<Rightarrow> ret handled | None \<Rightarrow> fatal ''Unexpected: message''))"

subsection \<open>The websocket order API\<close>

datatype ws_api_event =
    Ws_Auth string
  | Ws_Welcome int
  | Ws_Error ws_error
  | Ws_Pong
  | Ws_AddOrderAck ws_order_ack
  | Ws_CancelOrderAck ws_order_ack

record ws_decoders =
  dec_ws_message :: "string \<Rightarrow> exn + ws_message"
  dec_ws_auth :: "string \<Rightarrow> exn + unit"
  dec_ws_welcome :: "string \<Rightarrow> exn + int"
  dec_ws_error :: "string \<Rightarrow> exn + ws_error"
  dec_ws_pong :: "string \<Rightarrow> exn + unit"
  dec_ws_add_order_ack :: "string \<Rightarrow> exn + ws_order_ack"
  dec_ws_cancel_order_ack :: "string \<Rightarrow> exn + ws_order_ack"

definition CODE_SUCCESS :: int where
  "CODE_SUCCESS = 200000"

definition ws_parser_dispatch ::
    "ws_decoders \<Rightarrow> (ws_api_event \<Rightarrow> ('s, exn, unit) stmt) \<Rightarrow> string \<Rightarrow> bool \<Rightarrow> ('s, exn, bool) stmt" where
  "ws_parser_dispatch D handler message allow_unknown_event_types =
     bindm (lift_sum (dec_ws_message D message)) (\<lambda>message_2.
     if wm_session_id message_2 = [] then
       (case wm_op message_2 of
          WSOp_UNDEFINED_INTERNAL \<Rightarrow> seqm (dispatch_helper handler (dec_ws_error D message) Ws_Error) (ret True)
        | WSOp_UNKNOWN_INTERNAL \<Rightarrow> fatal ''Unexpected: message''
        | WSOp_PONG \<Rightarrow> seqm (dispatch_helper handler (dec_ws_pong D message) (\<lambda>_. Ws_Pong)) (ret True)
        | WSOp_ADD_ORDER_ACK \<Rightarrow>
            if wm_code message_2 \<noteq> CODE_SUCCESS
            then seqm (dispatch_helper handler (dec_ws_error D message) Ws_Error) (ret True)
            else seqm (dispatch_helper handler (dec_ws_add_order_ack D message) Ws_AddOrderAck) (ret True)
        | WSOp_CANCEL_ORDER_ACK \<Rightarrow>
            if wm_code message_2 \<noteq> CODE_SUCCESS
            then seqm (dispatch_helper handler (dec_ws_error D message) Ws_Error) (ret True)
            else seqm (dispatch_helper handler (dec_ws_cancel_order_ack D message) Ws_CancelOrderAck) (ret True))
     else if wm_ping_interval_ms message_2 \<noteq> 0
       then seqm (dispatch_helper handler (dec_ws_welcome D message) Ws_Welcome) (ret True)
       else seqm (dispatch_helper handler (dec_ws_auth D message) (\<lambda>_. Ws_Auth message)) (ret True))"

subsection \<open>What an event is an event of\<close>

text \<open>The type and subject on the wire of each event; only a \<open>message\<close> has a subject.\<close>

fun event_kind :: "ws_event \<Rightarrow> json_type \<times> json_subject" where
  "event_kind Ev_Welcome = (Type_WELCOME, Subject_UNDEFINED_INTERNAL)"
| "event_kind (Ev_Error e) = (Type_ERROR, Subject_UNDEFINED_INTERNAL)"
| "event_kind Ev_Pong = (Type_PONG, Subject_UNDEFINED_INTERNAL)"
| "event_kind (Ev_Ack i) = (Type_ACK, Subject_UNDEFINED_INTERNAL)"
| "event_kind (Ev_TickerV2 m) = (Type_MESSAGE, Subject_TICKER_V2)"
| "event_kind (Ev_Match m) = (Type_MESSAGE, Subject_MATCH)"
| "event_kind Ev_Execution = (Type_MESSAGE, Subject_EXECUTION)"
| "event_kind (Ev_MarkIndexPrice m) = (Type_MESSAGE, Subject_MARK_INDEX_PRICE)"
| "event_kind (Ev_FundingRate m) = (Type_MESSAGE, Subject_FUNDING_RATE)"
| "event_kind (Ev_Level2 m) = (Type_MESSAGE, Subject_LEVEL2)"
| "event_kind (Ev_FundingBegin m) = (Type_MESSAGE, Subject_FUNDING_BEGIN)"
| "event_kind (Ev_FundingEnd m) = (Type_MESSAGE, Subject_FUNDING_END)"
| "event_kind (Ev_Snapshot24h m) = (Type_MESSAGE, Subject_SNAPSHOT_24H)"
| "event_kind (Ev_WalletBalanceChange m) = (Type_MESSAGE, Subject_WALLET_BALANCE_CHANGE)"
| "event_kind Ev_OrderMarginChange = (Type_MESSAGE, Subject_ORDER_MARGIN_CHANGE)"
| "event_kind Ev_AvailableBalanceChange = (Type_MESSAGE, Subject_AVAILABLE_BALANCE_CHANGE)"
| "event_kind Ev_WithdrawHoldChange = (Type_MESSAGE, Subject_WITHDRAW_HOLD_CHANGE)"
| "event_kind (Ev_PositionChange m) = (Type_MESSAGE, Subject_POSITION_CHANGE)"
| "event_kind Ev_PositionSettlement = (Type_MESSAGE, Subject_POSITION_SETTLEMENT)"
| "event_kind Ev_PositionAdjustRiskLimit = (Type_MESSAGE, Subject_POSITION_ADJUST_RISK_LIMIT)"
| "event_kind (Ev_SymbolOrderChange m) = (Type_MESSAGE, Subject_SYMBOL_ORDER_CHANGE)"
| "event_kind (Ev_OrderChange m) = (Type_MESSAGE, Subject_ORDER_CHANGE)"

definition wire_kind :: "json_type \<Rightarrow> json_subject \<Rightarrow> json_type \<times> json_subject" where
  "wire_kind t sb = (t, if t = Type_MESSAGE then sb else Subject_UNDEFINED_INTERNAL)"

definition ignorable :: "json_type \<Rightarrow> json_subject \<Rightarrow> bool" where
  "ignorable t sb \<longleftrightarrow> t = Type_UNDEFINED_INTERNAL \<or> (t = Type_MESSAGE \<and> sb = Subject_UNKNOWN_INTERNAL)"

definition routable :: "json_type \<Rightarrow> json_subject \<Rightarrow> bool" where
  "routable t sb \<longleftrightarrow> t \<in> {Type_WELCOME, Type_ERROR, Type_PONG, Type_ACK}
     \<or> (t = Type_MESSAGE \<and> sb \<notin> {Subject_UNDEFINED_INTERNAL, Subject_UNKNOWN_INTERNAL})"

text \<open>
  The one lemma about the two switches: the outcome is the decoder's exception, the handler's
  outcome on an event of the right kind followed by true, or no handler runs.
\<close>

lemma parser_dispatch_cases:
  assumes "dec_message D m = Inr (t, sb)"
  shows "(\<not> routable t sb \<and> allow \<and> ignorable t sb \<and> parser_dispatch D h m allow s = Normal False s)
     \<or> (\<not> routable t sb \<and> \<not> (allow \<and> ignorable t sb)
          \<and> parser_dispatch D h m allow s = Fatal ''Unexpected: message'' s)
     \<or> (routable t sb \<and> (\<exists>e. parser_dispatch D h m allow s = Thrown e s))
     \<or> (routable t sb \<and> (\<exists>ev. event_kind ev = wire_kind t sb
          \<and> parser_dispatch D h m allow s = seqm (h ev) (ret True) s))"
proof -
  have helper: "(\<exists>e. X = Thrown e s) \<or> (\<exists>ev. event_kind ev = wk \<and> X = seqm (h ev) (ret True) s)"
    if "X = bindm (seqm (dispatch_helper h obj inj) (ret (Some True)))
        (\<lambda>result. case result of Some handled \<Rightarrow> ret handled | None \<Rightarrow> fatal ''Unexpected: message'') s"
      and "\<And>a. event_kind (inj a) = wk"
    for X wk and obj :: "exn + 'x" and inj
  proof (cases obj)
    case (Inl e)
    with that(1) show ?thesis by (simp add: exec_simps)
  next
    case (Inr a)
    with that(1) have "X = seqm (h (inj a)) (ret True) s"
      by (cases "h (inj a) s") (simp_all add: exec_simps)
    with that(2) show ?thesis by blast
  qed
  have run: "parser_dispatch D h m allow s = bindm (case t of
         Type_UNDEFINED_INTERNAL \<Rightarrow> if allow then ret (Some False) else ret None
       | Type_UNKNOWN_INTERNAL \<Rightarrow> ret None
       | Type_WELCOME \<Rightarrow> seqm (dispatch_helper h (dec_welcome D m) (\<lambda>_. Ev_Welcome)) (ret (Some True))
       | Type_ERROR \<Rightarrow> seqm (dispatch_helper h (dec_error D m) Ev_Error) (ret (Some True))
       | Type_PONG \<Rightarrow> seqm (dispatch_helper h (dec_pong D m) (\<lambda>_. Ev_Pong)) (ret (Some True))
       | Type_ACK \<Rightarrow> seqm (dispatch_helper h (dec_ack D m) Ev_Ack) (ret (Some True))
       | Type_MESSAGE \<Rightarrow> dispatch_subject D h m allow sb)
     (\<lambda>result. case result of Some handled \<Rightarrow> ret handled | None \<Rightarrow> fatal ''Unexpected: message'') s"
    by (simp add: parser_dispatch_def assms exec_simps)
  show ?thesis
  proof (cases "routable t sb")
    case False
    then show ?thesis
      by (cases t; cases sb) (auto simp: run dispatch_subject_def routable_def ignorable_def exec_simps)
  next
    case True
    have "(\<exists>e. parser_dispatch D h m allow s = Thrown e s)
        \<or> (\<exists>ev. event_kind ev = wire_kind t sb \<and> parser_dispatch D h m allow s = seqm (h ev) (ret True) s)"
    proof (cases "t = Type_MESSAGE")
      case False
      with True show ?thesis
        by (cases t) (auto simp: routable_def wire_kind_def run intro!: helper [OF refl])
    next
      case t: True
      have r: "parser_dispatch D h m allow s = bindm (dispatch_subject D h m allow sb)
          (\<lambda>result. case result of Some handled \<Rightarrow> ret handled | None \<Rightarrow> fatal ''Unexpected: message'') s"
        by (simp add: run t)
      from True t have "sb \<noteq> Subject_UNDEFINED_INTERNAL" and "sb \<noteq> Subject_UNKNOWN_INTERNAL"
        by (auto simp: routable_def)
      then show ?thesis unfolding r
        by (cases sb; simp add: dispatch_subject_def; intro helper [OF refl]; simp add: wire_kind_def t)
    qed
    with True show ?thesis by blast
  qed
qed

lemma keeps_parser_dispatch:
  assumes "\<And>ev. keeps I (handler ev)"
  shows "keeps I (parser_dispatch D handler message allow)"
proof (rule keepsI)
  fix s assume "I s"
  show "I (final_state (parser_dispatch D handler message allow s))"
  proof (cases "dec_message D message")
    case (Inl e)
    with \<open>I s\<close> show ?thesis by (simp add: parser_dispatch_def exec_simps)
  next
    case (Inr a)
    obtain t sb where "a = (t, sb)" by (cases a)
    with Inr have "dec_message D message = Inr (t, sb)" by simp
    from parser_dispatch_cases [OF this, of allow handler s] \<open>I s\<close>
      keepsD [OF keeps_seqm [OF assms keeps_ret], of s] show ?thesis
      by auto
  qed
qed

text \<open>
  What a text carries, for the handlers to do with it what they do: the events that a handler which
  only records them gets. A text that parses for the recorder parses for every handler alike.
\<close>

definition recorded :: "(('m \<Rightarrow> ('m list, exn, unit) stmt) \<Rightarrow> ('m list, exn, bool) stmt) \<Rightarrow> 'm list option" where
  "recorded parse = (case parse (\<lambda>ev. modify (\<lambda>log. log @ [ev])) [] of
     Normal handled evs \<Rightarrow> Some evs | Thrown e evs \<Rightarrow> None | Fatal msg evs \<Rightarrow> None)"

definition text_events :: "decoders \<Rightarrow> string \<Rightarrow> bool \<Rightarrow> ws_event list option" where
  "text_events D m allow = recorded (\<lambda>h. parser_dispatch D h m allow)"

definition ws_text_events :: "ws_decoders \<Rightarrow> string \<Rightarrow> ws_api_event list option" where
  "ws_text_events D m = recorded (\<lambda>h. ws_parser_dispatch D h m False)"

lemma text_events_any:
  assumes "text_events D m allow = Some evs"
  shows "parser_dispatch D h m allow s = (case evs of [] \<Rightarrow> Normal False s | ev # _ \<Rightarrow> seqm (h ev) (ret True) s)"
proof (cases "dec_message D m")
  case (Inl e)
  with assms show ?thesis by (simp add: text_events_def recorded_def parser_dispatch_def exec_simps)
next
  case (Inr a)
  obtain t sb where a: "a = (t, sb)" by (cases a)
  show ?thesis
  proof (cases "t = Type_MESSAGE")
    case True
    with assms Inr a show ?thesis
      by (cases sb; cases allow; auto simp: text_events_def recorded_def parser_dispatch_def dispatch_subject_def exec_simps
          split: sum.splits; simp add: exec_simps split: outcome.split)
  next
    case False
    with assms Inr a show ?thesis
      by (cases t; cases allow; auto simp: text_events_def recorded_def parser_dispatch_def exec_simps
          split: sum.splits; simp add: exec_simps split: outcome.split)
  qed
qed

lemma ws_text_events_any:
  assumes "ws_text_events D m = Some evs"
  shows "ws_parser_dispatch D h m allow s = (case evs of [] \<Rightarrow> Normal False s | ev # _ \<Rightarrow> seqm (h ev) (ret True) s)"
proof (cases "dec_ws_message D m")
  case (Inl e)
  with assms show ?thesis by (simp add: ws_text_events_def recorded_def ws_parser_dispatch_def exec_simps)
next
  case (Inr w)
  with assms show ?thesis
    by (cases "wm_session_id w = []"; cases "wm_op w"; cases "wm_code w = CODE_SUCCESS"; cases "wm_ping_interval_ms w = 0")
      (auto simp: ws_text_events_def recorded_def ws_parser_dispatch_def exec_simps split: sum.splits)
qed

subsection \<open>Properties\<close>

text \<open>
  C24. Every websocket text is routed by its type and subject: when the parser reports the text as
  handled, a handler ran to its end on an event of exactly that type and subject; it reports a
  text as not handled only if unknown events are allowed and the type is missing or the subject
  unknown, and then no handler ran and nothing changed; and with handlers that do not abort, the
  process is aborted exactly for the texts that have no handler and may not be ignored.
\<close>

theorem parser_routes_by_kind:
  assumes "dec_message D m = Inr (t, sb)"
  shows "(parser_dispatch D h m allow s = Normal True s' \<longrightarrow>
           (\<exists>ev. event_kind ev = wire_kind t sb \<and> h ev s = Normal () s'))
     \<and> (parser_dispatch D h m allow s = Normal False s' \<longleftrightarrow> allow \<and> ignorable t sb \<and> s' = s)
     \<and> ((\<forall>ev. \<not> is_fatal (h ev s)) \<longrightarrow>
           (is_fatal (parser_dispatch D h m allow s) \<longleftrightarrow> \<not> routable t sb \<and> \<not> (allow \<and> ignorable t sb)))"
proof -
  have excl: "\<not> ignorable t sb" if "routable t sb"
    using that by (auto simp: ignorable_def routable_def)
  show ?thesis
    using parser_dispatch_cases [OF assms, of allow h s]
  proof (elim disjE conjE exE)
    fix ev
    assume r: "routable t sb" and k: "event_kind ev = wire_kind t sb"
      and eq: "parser_dispatch D h m allow s = seqm (h ev) (ret True) s"
    show ?thesis
    proof (cases "h ev s")
      case (Normal u s1)
      with r k eq excl show ?thesis by (auto simp: exec_simps)
    next
      case (Thrown e s1)
      with r eq excl show ?thesis by (auto simp: exec_simps)
    next
      case (Fatal msg s1)
      then have "\<not> (\<forall>ev. \<not> is_fatal (h ev s))" by (metis is_fatal.simps(3))
      with Fatal r eq excl show ?thesis by (auto simp: exec_simps)
    qed
  qed (auto dest: excl)
qed

definition no_decoders :: decoders where
  "no_decoders =
     \<lparr>dec_message = (\<lambda>m. if m = ''ack'' then Inr (Type_ACK, Subject_UNDEFINED_INTERNAL) else Inl (StdException ''decoder'')),
      dec_welcome = (\<lambda>_. Inr ()), dec_error = (\<lambda>_. Inl (StdException ''decoder'')), dec_pong = (\<lambda>_. Inr ()),
      dec_ack = (\<lambda>_. Inr ''7''), dec_ticker_v2 = (\<lambda>_. Inl (StdException ''decoder'')),
      dec_match = (\<lambda>_. Inl (StdException ''decoder'')), dec_execution = (\<lambda>_. Inr ()),
      dec_mark_index_price = (\<lambda>_. Inl (StdException ''decoder'')),
      dec_funding_rate = (\<lambda>_. Inl (StdException ''decoder'')), dec_level2 = (\<lambda>_. Inl (StdException ''decoder'')),
      dec_funding_begin = (\<lambda>_. Inl (StdException ''decoder'')),
      dec_funding_end = (\<lambda>_. Inl (StdException ''decoder'')),
      dec_snapshot24h = (\<lambda>_. Inl (StdException ''decoder'')),
      dec_wallet_balance_change = (\<lambda>_. Inl (StdException ''decoder'')),
      dec_order_margin_change = (\<lambda>_. Inr ()), dec_available_balance_change = (\<lambda>_. Inr ()),
      dec_withdraw_hold_change = (\<lambda>_. Inr ()), dec_position_change = (\<lambda>_. Inl (StdException ''decoder'')),
      dec_position_settlement = (\<lambda>_. Inr ()), dec_position_adjust_risk_limit = (\<lambda>_. Inr ()),
      dec_symbol_order_change = (\<lambda>_. Inl (StdException ''decoder'')),
      dec_order_change = (\<lambda>_. Inl (StdException ''decoder''))\<rparr>"

theorem parser_routes_by_kind_witness:
  "\<exists>ev. event_kind ev = (Type_ACK, Subject_UNDEFINED_INTERNAL)
     \<and> modify (\<lambda>log. log @ [ev]) [] = (Normal () [Ev_Ack ''7''] :: (unit, exn, ws_event list) outcome)"
proof -
  have dec: "dec_message no_decoders ''ack'' = Inr (Type_ACK, Subject_UNDEFINED_INTERNAL)"
    by (simp add: no_decoders_def)
  have "parser_dispatch no_decoders (\<lambda>ev. modify (\<lambda>log. log @ [ev])) ''ack'' False [] = Normal True [Ev_Ack ''7'']"
    by (simp add: parser_dispatch_def dec exec_simps) (simp add: no_decoders_def exec_simps)
  with parser_routes_by_kind [OF dec, of "\<lambda>ev. modify (\<lambda>log. log @ [ev])" False "[]" "[Ev_Ack ''7'']"]
  show ?thesis by (simp add: wire_kind_def)
qed

text \<open>
  C25. The order API never takes a rejection for an acknowledgement: an add or cancel
  acknowledgement reaches its handler only with the success code, an unsuccessful one reaches
  the error handler, a text with a session id is a welcome or an authentication challenge (which
  is passed on verbatim), and the flag for unknown event types has no influence.
\<close>

theorem ws_parser_acknowledges_only_success:
  assumes "dec_ws_message D m = Inr w"
    and "ws_parser_dispatch D h m allow s = Normal b s'"
  shows "b \<and> (\<exists>ev. h ev s = Normal () s' \<and> (case ev of
       Ws_AddOrderAck a \<Rightarrow> wm_session_id w = [] \<and> wm_op w = WSOp_ADD_ORDER_ACK \<and> wm_code w = CODE_SUCCESS
     | Ws_CancelOrderAck a \<Rightarrow> wm_session_id w = [] \<and> wm_op w = WSOp_CANCEL_ORDER_ACK \<and> wm_code w = CODE_SUCCESS
     | Ws_Error e \<Rightarrow> wm_session_id w = [] \<and> (wm_op w = WSOp_UNDEFINED_INTERNAL
         \<or> wm_op w \<in> {WSOp_ADD_ORDER_ACK, WSOp_CANCEL_ORDER_ACK} \<and> wm_code w \<noteq> CODE_SUCCESS)
     | Ws_Pong \<Rightarrow> wm_session_id w = [] \<and> wm_op w = WSOp_PONG
     | Ws_Welcome p \<Rightarrow> wm_session_id w \<noteq> [] \<and> wm_ping_interval_ms w \<noteq> 0
     | Ws_Auth m' \<Rightarrow> wm_session_id w \<noteq> [] \<and> wm_ping_interval_ms w = 0 \<and> m' = m))
     \<and> ws_parser_dispatch D h m (\<not> allow) s = Normal b s'"
proof -
  have helper: "b \<and> (\<exists>a. h (inj a) s = Normal () s')"
    if "seqm (dispatch_helper h obj inj) (ret True) s = Normal b s'"
    for obj :: "exn + 'x" and inj :: "'x \<Rightarrow> ws_api_event"
    using that by (cases obj) (auto simp: exec_simps split: outcome.splits)
  have flag: "ws_parser_dispatch D h m (\<not> allow) s = ws_parser_dispatch D h m allow s"
    by (simp add: ws_parser_dispatch_def)
  have run: "ws_parser_dispatch D h m allow s = Normal b s'" by (fact assms(2))
  have not_fatal: "fatal msg s \<noteq> Normal b s'" for msg
    by (simp add: fatal_def)
  note [dest!] = helper
  show ?thesis
  proof (cases "wm_session_id w = []")
    case True
    with run assms(1) not_fatal show ?thesis
      by (cases "wm_op w") (force simp: flag ws_parser_dispatch_def split: if_splits)+
  next
    case False
    with run assms(1) show ?thesis
      by (force simp: flag ws_parser_dispatch_def split: if_splits)
  qed
qed

definition no_ws_decoders :: ws_decoders where
  "no_ws_decoders =
     \<lparr>dec_ws_message = (\<lambda>m. Inr \<lparr>wm_session_id = [], wm_ping_interval_ms = 0,
        wm_code = (if m = ''ok'' then 200000 else 330008), wm_op = WSOp_ADD_ORDER_ACK\<rparr>),
      dec_ws_auth = (\<lambda>_. Inr ()), dec_ws_welcome = (\<lambda>_. Inr 18000),
      dec_ws_error = (\<lambda>_. Inr \<lparr>we_code = 330008, we_msg = ''too high'', we_id = ''1'', we_op = WSOp_ADD_ORDER_ACK\<rparr>),
      dec_ws_pong = (\<lambda>_. Inr ()),
      dec_ws_add_order_ack = (\<lambda>_. Inr \<lparr>wa_id = ''1'', wa_order_id = ''x'', wa_client_oid = ''1''\<rparr>),
      dec_ws_cancel_order_ack = (\<lambda>_. Inr \<lparr>wa_id = ''1'', wa_order_id = ''x'', wa_client_oid = ''1''\<rparr>)\<rparr>"

theorem ws_parser_acknowledges_only_success_witness:
  "ws_parser_dispatch no_ws_decoders (\<lambda>ev. modify (\<lambda>log. log @ [ev])) ''rejected'' True []
     = Normal True [Ws_Error \<lparr>we_code = 330008, we_msg = ''too high'', we_id = ''1'', we_op = WSOp_ADD_ORDER_ACK\<rparr>]"
proof -
  let ?h = "\<lambda>ev. modify (\<lambda>log. log @ [ev])"
  let ?e = "Ws_Error \<lparr>we_code = 330008, we_msg = ''too high'', we_id = ''1'', we_op = WSOp_ADD_ORDER_ACK\<rparr>"
  have dec: "dec_ws_message no_ws_decoders ''rejected'' = Inr \<lparr>wm_session_id = [], wm_ping_interval_ms = 0,
      wm_code = 330008, wm_op = WSOp_ADD_ORDER_ACK\<rparr>"
    by (simp add: no_ws_decoders_def)
  have "ws_parser_dispatch no_ws_decoders ?h ''rejected'' False [] = Normal True [?e]"
    by (simp add: ws_parser_dispatch_def dec CODE_SUCCESS_def) (simp add: no_ws_decoders_def exec_simps)
  from ws_parser_acknowledges_only_success [OF dec this] show ?thesis by simp
qed

end
