(* ===== verification/Config_Api.thy ===== *)
theory Config_Api
  imports Roq_Types
begin

text \<open>
  What the gateway is configured with: the settings the modelled code reads
  (\<open>flags/settings.hpp\<close> and the server settings it extends), the paths of \<open>gateway/api.cpp\<close>,
  and \<open>gateway/config.cpp\<close>: loading the accounts of the configuration file, the credential
  look-ups, and handing the configuration to the server. The file reader is external: a loaded
  file is the list of calls it makes. Symbols, users and rate limits are only passed on, so
  their types are parameters.
\<close>

subsection \<open>Settings\<close>

record settings =
  set_app_name :: string
  set_exchange :: string
  set_ws_api :: bool
  set_ws_uri :: string
  set_margin_mode :: string
  set_trades_lookback :: int
  set_allow_unknown_event_types :: bool
  set_check_stale_order_freq :: int
  set_enable_rate_limit :: bool
  set_mbp_checksum :: bool
  set_retry_logon :: bool
  set_allow_price_inversion :: bool
  set_crash_on_expired_token :: bool
  set_simulate_expired_token :: int
  set_mbp_request_max_retries :: nat
  set_ws_request_timeout :: int
  set_ws_max_subscriptions_per_stream :: nat
  set_ws_ping_freq :: int
  set_mbp_request_delay :: int
  set_request_limit :: nat
  set_request_limit_interval :: int
  set_rest_uri :: string
  set_rest_proxy :: string
  set_rest_request_timeout :: int
  set_rest_ping_freq :: int
  set_rest_ping_path :: string
  set_net_connection_timeout :: int
  set_net_disconnect_on_idle_timeout :: int
  set_net_tls_validate_certificate :: bool
  set_decode_buffer_size :: nat
  set_encode_buffer_size :: nat

subsection \<open>Paths\<close>

record api =
  api_bullet_public :: string
  api_contracts_active :: string
  api_level2_snapshot :: string
  api_bullet_private :: string
  api_get_account_list :: string
  api_get_position_list :: string
  api_get_order_list :: string
  api_get_order_by_order_id :: string
  api_get_order_by_client_order_id :: string
  api_get_recent_fills :: string
  api_add_order :: string
  api_cancel_order :: string
  api_cancel_all_orders :: string
  api_ticker :: string
  api_execution :: string
  api_instrument :: string
  api_snapshot :: string
  api_announcement :: string
  api_level2 :: string

definition API_create :: api where
  "API_create =
     \<lparr>api_bullet_public = ''/api/v1/bullet-public'',
      api_contracts_active = ''/api/v1/contracts/active'',
      api_level2_snapshot = ''/api/v1/level2/snapshot'',
      api_bullet_private = ''/api/v1/bullet-private'',
      api_get_account_list = ''/api/v1/account-overview'',
      api_get_position_list = ''/api/v1/positions'',
      api_get_order_list = ''/api/v1/orders'',
      api_get_order_by_order_id = ''/api/v1/orders/'',
      api_get_order_by_client_order_id = ''/api/v1/orders/byClientOid'',
      api_get_recent_fills = ''/api/v1/recentFills'',
      api_add_order = ''/api/v1/orders'',
      api_cancel_order = ''/api/v1/orders'',
      api_cancel_all_orders = ''/api/v3/orders'',
      api_ticker = ''/contractMarket/tickerV2'',
      api_execution = ''/contractMarket/execution'',
      api_instrument = ''/contract/instrument'',
      api_snapshot = ''/contractMarket/snapshot'',
      api_announcement = ''/contract/announcement'',
      api_level2 = ''/contractMarket/level2''\<rparr>"

subsection \<open>The configuration\<close>

record account_config =
  ac_name :: string
  ac_master :: bool
  ac_login :: string
  ac_password :: string
  ac_secret :: string

record gateway_settings =
  gs_supports :: "support_type set"
  gs_mbp_allow_remove_non_existing :: bool
  gs_mbp_allow_price_inversion :: bool
  gs_mbp_checksum :: bool

definition CONFIG_SUPPORTS :: "support_type set" where
  "CONFIG_SUPPORTS = {Support_REFERENCE_DATA, Support_MARKET_STATUS, Support_TOP_OF_BOOK,
     Support_MARKET_BY_PRICE, Support_TRADE_SUMMARY, Support_STATISTICS, Support_CREATE_ORDER,
     Support_CANCEL_ORDER, Support_ORDER_ACK, Support_FUNDS}"

definition create_gateway_settings :: "settings \<Rightarrow> gateway_settings" where
  "create_gateway_settings s =
     \<lparr>gs_supports = CONFIG_SUPPORTS,
      gs_mbp_allow_remove_non_existing = True,
      gs_mbp_allow_price_inversion = set_allow_price_inversion s,
      gs_mbp_checksum = set_mbp_checksum s\<rparr>"

text \<open>
  The maps of accounts and rate limits are association lists in iteration order; \<open>emplace\<close>
  leaves an existing entry alone. (The containers of the Roq library do not document an order;
  nothing below depends on it.)
\<close>

record ('sy, 'us, 'rl) config =
  cfg_exchange :: string
  cfg_gateway_settings :: gateway_settings
  cfg_users :: "'us list"
  cfg_symbols :: 'sy
  cfg_accounts :: "(string \<times> account_config) list"
  cfg_master_account :: string
  cfg_rate_limits :: "(string \<times> 'rl) list"

definition emplace :: "'k \<Rightarrow> 'v \<Rightarrow> ('k \<times> 'v) list \<Rightarrow> ('k \<times> 'v) list" where
  "emplace k v m = (if map_of m k = None then m @ [(k, v)] else m)"

datatype ('sy, 'us, 'rl) config_entry =
    Entry_Symbols 'sy
  | Entry_Account account_config
  | Entry_User 'us
  | Entry_RateLimit string 'rl
  | Entry_RequestTemplate
  | Entry_Other string

definition config_handle ::
    "('sy, 'us, 'rl) config_entry \<Rightarrow> (('sy, 'us, 'rl) config, exn, unit) stmt" where
  "config_handle e = (case e of
     Entry_Symbols sy \<Rightarrow> modify (\<lambda>c. c\<lparr>cfg_symbols := sy\<rparr>)
   | Entry_Account account \<Rightarrow> block
       [whenm (ac_master account) (modify (\<lambda>c. c\<lparr>cfg_master_account := ac_name account\<rparr>)),
        modify (\<lambda>c. c\<lparr>cfg_accounts := emplace (ac_name account) account (cfg_accounts c)\<rparr>)]
   | Entry_User user \<Rightarrow> modify (\<lambda>c. c\<lparr>cfg_users := cfg_users c @ [user]\<rparr>)
   | Entry_RateLimit name rl \<Rightarrow> modify (\<lambda>c. c\<lparr>cfg_rate_limits := emplace name rl (cfg_rate_limits c)\<rparr>)
   | Entry_RequestTemplate \<Rightarrow> fatal ''Unexpected: request templates not supported''
   | Entry_Other key \<Rightarrow> skip)"

text \<open>The constructor: \<open>server::config::Reader::parse_file\<close> makes the calls \<open>entries\<close>.\<close>

definition Config_create ::
    "settings \<Rightarrow> 'sy \<Rightarrow> ('sy, 'us, 'rl) config_entry list \<Rightarrow> (unit, exn, ('sy, 'us, 'rl) config) outcome" where
  "Config_create s no_symbols entries = for_each entries config_handle
     \<lparr>cfg_exchange = set_exchange s, cfg_gateway_settings = create_gateway_settings s, cfg_users = [],
      cfg_symbols = no_symbols, cfg_accounts = [], cfg_master_account = [], cfg_rate_limits = []\<rparr>"

definition get_master_account :: "('sy, 'us, 'rl) config \<Rightarrow> string" where
  "get_master_account c = cfg_master_account c"

text \<open>\<open>None\<close> is the fatal log of an account that is not configured.\<close>

definition get_api_key :: "('sy, 'us, 'rl) config \<Rightarrow> string \<Rightarrow> string option" where
  "get_api_key c account = map_option ac_login (map_of (cfg_accounts c) account)"

definition get_passphrase :: "('sy, 'us, 'rl) config \<Rightarrow> string \<Rightarrow> string option" where
  "get_passphrase c account = map_option ac_password (map_of (cfg_accounts c) account)"

definition get_secret :: "('sy, 'us, 'rl) config \<Rightarrow> string \<Rightarrow> string option" where
  "get_secret c account = map_option ac_secret (map_of (cfg_accounts c) account)"

datatype ('sy, 'us, 'rl) config_item =
    Item_Exchange string
  | Item_Symbols 'sy
  | Item_Account account_config
  | Item_User 'us
  | Item_GatewaySettings gateway_settings
  | Item_RateLimit 'rl

definition config_dispatch :: "('sy, 'us, 'rl) config \<Rightarrow> ('sy, 'us, 'rl) config_item list" where
  "config_dispatch c =
     [Item_Exchange (cfg_exchange c), Item_Symbols (cfg_symbols c)]
     @ map (\<lambda>(n, a). Item_Account a) (cfg_accounts c)
     @ map Item_User (cfg_users c)
     @ [Item_GatewaySettings (cfg_gateway_settings c)]
     @ map (\<lambda>(n, r). Item_RateLimit r) (cfg_rate_limits c)"

subsection \<open>Loading\<close>

fun entry_accounts :: "('sy, 'us, 'rl) config_entry list \<Rightarrow> account_config list" where
  "entry_accounts [] = []"
| "entry_accounts (Entry_Account a # es) = a # entry_accounts es"
| "entry_accounts (_ # es) = entry_accounts es"

lemma map_of_emplace: "map_of (emplace k v m) n = (if map_of m n = None \<and> n = k then Some v else map_of m n)"
  by (auto simp: emplace_def map_add_def split: option.splits)

lemma distinct_emplace: "distinct (map fst m) \<Longrightarrow> distinct (map fst (emplace k v m))"
  by (auto simp: emplace_def map_of_eq_None_iff)

lemma config_handle_accounts:
  "config_handle e c = Normal () c' \<Longrightarrow>
     cfg_accounts c' = fold (\<lambda>a. emplace (ac_name a) a) (entry_accounts [e]) (cfg_accounts c)"
  by (cases e) (auto simp: config_handle_def exec_simps split: if_splits)

lemma entry_accounts_Cons: "entry_accounts (e # es) = entry_accounts [e] @ entry_accounts es"
  by (cases e) auto

lemma load_accounts:
  "for_each es config_handle c = Normal () c' \<Longrightarrow>
     cfg_accounts c' = fold (\<lambda>a. emplace (ac_name a) a) (entry_accounts es) (cfg_accounts c)"
proof (induction es arbitrary: c)
  case Nil
  then show ?case by (simp add: exec_simps)
next
  case (Cons e es)
  from Cons.prems obtain c1 where "config_handle e c = Normal () c1"
    and "for_each es config_handle c1 = Normal () c'"
    by (auto elim: seqm_NormalE)
  with Cons.IH show ?case
    by (simp add: entry_accounts_Cons [of e es] config_handle_accounts)
qed

lemma map_of_fold_emplace:
  "map_of (fold (\<lambda>a. emplace (ac_name a) a) as m) n =
     (case map_of m n of Some a \<Rightarrow> Some a | None \<Rightarrow> find (\<lambda>a. ac_name a = n) as)"
  by (induction as arbitrary: m) (auto simp: map_of_emplace split: option.splits)

lemma distinct_fold_emplace:
  "distinct (map fst m) \<Longrightarrow> distinct (map fst (fold (\<lambda>a. emplace (ac_name a) a) as m))"
  by (induction as arbitrary: m) (auto simp: distinct_emplace)

lemma keyed_fold_emplace:
  "(\<forall>(k, a)\<in>set m. k = ac_name a) \<Longrightarrow> (\<forall>(k, a)\<in>set (fold (\<lambda>a. emplace (ac_name a) a) as m). k = ac_name a)"
proof (induction as arbitrary: m)
  case (Cons a as)
  have "\<forall>(k, b)\<in>set (emplace (ac_name a) a m). k = ac_name b"
    using Cons.prems by (auto simp: emplace_def)
  then show ?case by (simp add: Cons.IH)
qed simp

lemma config_load_lookup:
  assumes "Config_create s sy entries = Normal () c"
  shows "map_of (cfg_accounts c) n = find (\<lambda>a. ac_name a = n) (entry_accounts entries)"
  using load_accounts [OF assms [unfolded Config_create_def]] by (simp add: map_of_fold_emplace)

subsection \<open>Properties\<close>

text \<open>
  A configuration that loads gives every account the credentials of the first entry of
  that name (later duplicates never replace a secret); the three look-ups agree on which
  accounts exist, an unknown account being the only failure; and the configured accounts are
  handed to the server once each.
\<close>

theorem config_credentials:
  assumes "Config_create s sy entries = Normal () c"
  shows "get_api_key c n = map_option ac_login (find (\<lambda>a. ac_name a = n) (entry_accounts entries))
     \<and> get_passphrase c n = map_option ac_password (find (\<lambda>a. ac_name a = n) (entry_accounts entries))
     \<and> get_secret c n = map_option ac_secret (find (\<lambda>a. ac_name a = n) (entry_accounts entries))
     \<and> (get_secret c n = None \<longleftrightarrow> n \<notin> ac_name ` set (entry_accounts entries))
     \<and> length (filter (\<lambda>i. \<exists>a. i = Item_Account a \<and> ac_name a = n) (config_dispatch c))
         = (if n \<in> ac_name ` set (entry_accounts entries) then 1 else 0)"
proof -
  note look = config_load_lookup [OF assms, of n]
  have accs: "cfg_accounts c = fold (\<lambda>a. emplace (ac_name a) a) (entry_accounts entries) []"
    using load_accounts [OF assms [unfolded Config_create_def]] by simp
  have none: "find (\<lambda>a. ac_name a = n) as = None \<longleftrightarrow> n \<notin> ac_name ` set as" for as
    by (auto simp: find_None_iff)
  have dist: "distinct (map fst (cfg_accounts c))"
    unfolding accs by (rule distinct_fold_emplace) simp
  have keyed: "\<forall>(k, a)\<in>set (cfg_accounts c). k = ac_name a"
    unfolding accs by (rule keyed_fold_emplace) simp
  have occ: "length (filter (\<lambda>(k, a). ac_name a = n) m) = (if map_of m n = None then 0 else 1)"
    if "distinct (map fst m)" and "\<forall>(k, a)\<in>set m. k = ac_name a" for m
    using that by (induction m) (auto simp: map_of_eq_None_iff)
  have "filter (\<lambda>i. \<exists>a. i = Item_Account a \<and> ac_name a = n) (config_dispatch c)
      = map (\<lambda>(k, a). Item_Account a) (filter (\<lambda>(k, a). ac_name a = n) (cfg_accounts c))"
    by (auto simp: config_dispatch_def filter_map o_def split_def)
  with occ [OF dist keyed] have "length (filter (\<lambda>i. \<exists>a. i = Item_Account a \<and> ac_name a = n) (config_dispatch c))
      = (if map_of (cfg_accounts c) n = None then 0 else 1)"
    by simp
  with look none [of "entry_accounts entries"] show ?thesis
    by (auto simp: get_api_key_def get_passphrase_def get_secret_def split: if_splits)
qed

definition sample_settings :: settings where
  "sample_settings = \<lparr>set_app_name = ''kucoin-futures'', set_exchange = ''kucoin-futures'', set_ws_api = False, set_ws_uri = ''wss'', set_margin_mode = [],
     set_trades_lookback = 0, set_allow_unknown_event_types = False, set_check_stale_order_freq = ns_of_s 5,
     set_enable_rate_limit = True, set_mbp_checksum = False, set_retry_logon = False,
     set_allow_price_inversion = False, set_crash_on_expired_token = False, set_simulate_expired_token = 0,
     set_mbp_request_max_retries = 0, set_ws_request_timeout = ns_of_s 15, set_ws_max_subscriptions_per_stream = 16,
     set_ws_ping_freq = ns_of_s 10, set_mbp_request_delay = 0, set_request_limit = 30, set_request_limit_interval = ns_of_s 3,
     set_rest_uri = ''https'', set_rest_proxy = [], set_rest_request_timeout = ns_of_s 10, set_rest_ping_freq = ns_of_s 10,
     set_rest_ping_path = ''/'', set_net_connection_timeout = ns_of_s 5, set_net_disconnect_on_idle_timeout = ns_of_s 30,
     set_net_tls_validate_certificate = True, set_decode_buffer_size = 1048576, set_encode_buffer_size = 1048576\<rparr>"

definition sample_entries :: "(unit, unit, unit) config_entry list" where
  "sample_entries =
     [Entry_Account \<lparr>ac_name = ''A1'', ac_master = True, ac_login = ''k1'', ac_password = ''p1'', ac_secret = ''s1''\<rparr>,
      Entry_User (),
      Entry_Account \<lparr>ac_name = ''A1'', ac_master = False, ac_login = ''k2'', ac_password = ''p2'', ac_secret = ''s2''\<rparr>]"

theorem config_credentials_witness:
  "\<exists>c. Config_create sample_settings () sample_entries = Normal () c \<and> get_secret c ''A1'' = Some ''s1''
     \<and> get_secret c ''A2'' = None"
proof -
  obtain c where c: "Config_create sample_settings () sample_entries = Normal () c"
    by (simp add: Config_create_def sample_entries_def config_handle_def exec_simps)
  with config_credentials [OF c, of "''A1''"] config_credentials [OF c, of "''A2''"] show ?thesis
    by (auto simp: sample_entries_def)
qed

end
