(* ===== verification/Streams.thy ===== *)
theory Streams
  imports Config_Api
begin

text \<open>
  What the streams of the gateway have in common: the status they report to the server, the
  classification of REST responses (\<open>process_response\<close>, of which \<open>rest.cpp\<close> and
  \<open>order_entry_rest.cpp\<close> each have a copy), the keep-alive message, and the callbacks they
  hand to an order book sequencer. The interface \<open>stream\<close> is the contract between a stream and
  the server: what was last reported is what \<open>ready()\<close> answers from.
\<close>

subsection \<open>Stream status\<close>

definition make_stream_status ::
    "connection_env \<Rightarrow> 16 word \<Rightarrow> string \<Rightarrow> support_type set \<Rightarrow> protocol \<Rightarrow> connection_status \<Rightarrow> string
       \<Rightarrow> effect list \<Rightarrow> stream_status" where
  "make_stream_status C stream_id account supports proto status reason tr =
     \<lparr>ss_stream_id = stream_id, ss_account = account, ss_supports = supports, ss_protocol = proto,
      ss_connection_status = status, ss_reason = reason, ss_interface = conn_interface C tr,
      ss_authority = conn_authority C tr, ss_path = conn_path C tr, ss_proxy = conn_proxy C tr\<rparr>"

lemma make_stream_status_status [simp]:
  "ss_connection_status (make_stream_status C i a ts p st r tr) = st"
  "ss_stream_id (make_stream_status C i a ts p st r tr) = i"
  by (simp_all add: make_stream_status_def)

text \<open>The status the server was last told.\<close>

fun status_of_effect :: "effect \<Rightarrow> connection_status option" where
  "status_of_effect (Dispatch (U_StreamStatus ss)) = Some (ss_connection_status ss)"
| "status_of_effect _ = None"

definition published :: "effect list \<Rightarrow> connection_status" where
  "published tr = fold (\<lambda>a st. case status_of_effect a of None \<Rightarrow> st | Some st' \<Rightarrow> st') tr ConnectionStatus_UNDEFINED"

lemma published_Nil [simp]: "published [] = ConnectionStatus_UNDEFINED"
  by (simp add: published_def)

lemma published_snoc [simp]:
  "published (tr @ [a]) = (case status_of_effect a of None \<Rightarrow> published tr | Some st \<Rightarrow> st)"
  unfolding published_def by simp

lemma published_append:
  "published (tr @ tr') = fold (\<lambda>a st. case status_of_effect a of None \<Rightarrow> st | Some st' \<Rightarrow> st') tr' (published tr)"
  by (simp add: published_def)

definition agrees :: "('z ctx_scheme \<Rightarrow> connection_status) \<Rightarrow> 'z ctx_scheme \<Rightarrow> bool" where
  "agrees status s \<longleftrightarrow> published (trace s) = status s"

text \<open>A sequence of events, each handled to its end, whichever way it ends.\<close>

definition run_events :: "('e \<Rightarrow> ('s, exn, unit) stmt) \<Rightarrow> 'e list \<Rightarrow> 's \<Rightarrow> 's" where
  "run_events handle es s = fold (\<lambda>e s. final_state (handle e s)) es s"

lemma run_events_simps [simp]:
  "run_events h [] s = s"
  "run_events h (e # es) s = run_events h es (final_state (h e s))"
  by (simp_all add: run_events_def)

lemma run_events_snoc: "run_events h (es @ [e]) s = final_state (h e (run_events h es s))"
  by (simp add: run_events_def)

lemma run_events_keeps:
  assumes "\<And>e. keeps I (h e)" and "I s"
  shows "I (run_events h es s)"
  using assms(2)
proof (induction es arbitrary: s)
  case (Cons e es)
  from assms(1) Cons.prems have "I (final_state (h e s))" by (rule keepsD)
  then show ?case by (simp add: Cons.IH)
qed simp

locale stream =
  fixes status :: "'z ctx_scheme \<Rightarrow> connection_status"
    and ready :: "'z ctx_scheme \<Rightarrow> bool"
    and report :: "trace_info \<Rightarrow> connection_status \<Rightarrow> string \<Rightarrow> ('z ctx_scheme, exn, unit) stmt"
  assumes ready_iff: "ready s \<longleftrightarrow> status s = ConnectionStatus_READY"
    and status_trace: "status (s\<lparr>trace := tr\<rparr>) = status s"
    and report_status: "status (final_state (report ti st reason s)) = st"
    and report_returns: "returns (report ti st reason s)"
    and report_trace: "\<exists>ss. trace (final_state (report ti st reason s)) = trace s @ [Dispatch (U_StreamStatus ss)]
      \<and> ss_connection_status ss = st"
begin

lemma keeps_report: "keeps (agrees status) (report ti st reason)"
proof (rule keepsI)
  fix s
  obtain ss where "trace (final_state (report ti st reason s)) = trace s @ [Dispatch (U_StreamStatus ss)]"
    and "ss_connection_status ss = st"
    using report_trace by blast
  then show "agrees status (final_state (report ti st reason s))"
    by (simp add: agrees_def report_status)
qed

lemma keeps_other_effect: "status_of_effect a = None \<Longrightarrow> keeps (agrees status) (emit a)"
  by (rule keeps_emit) (simp add: agrees_def status_trace)

lemma keeps_update:
  "(\<And>s. trace (f s) = trace s) \<Longrightarrow> (\<And>s. status (f s) = status s) \<Longrightarrow> keeps (agrees status) (modify f)"
  by (rule keeps_modify) (simp add: agrees_def)

lemma ready_iff_published: "agrees status s \<Longrightarrow> ready s \<longleftrightarrow> published (trace s) = ConnectionStatus_READY"
  by (simp add: agrees_def ready_iff)

lemma ready_after_events:
  assumes "\<And>e. keeps (agrees status) (h e)" and "agrees status s"
  shows "ready (run_events h es s) \<longleftrightarrow> published (trace (run_events h es s)) = ConnectionStatus_READY"
  using run_events_keeps [of "agrees status" h s es] assms by (simp add: ready_iff_published)

end

subsection \<open>Requests shared between the streams of an account\<close>

text \<open>
  \<open>gateway/request.hpp\<close>: the drop copy asks, the REST order entry sends. The request slots are
  \<open>core::limit::Request\<close> objects, external, so asking and committing are effects; the orders to
  query are the state the two streams share, keyed by user and order id.
\<close>

record request_ctx = ctx +
  details_stale_orders :: "(8 word \<times> 64 word) list"

definition Request_ready :: "(request_kind \<Rightarrow> bool) \<Rightarrow> bool" where
  "Request_ready ready \<longleftrightarrow> ready Req_PrivateToken \<and> ready Req_Balances \<and> ready Req_Positions
     \<and> ready Req_OpenOrders \<and> ready Req_StaleOrders \<and> ready Req_Trades"

text \<open>Whether the slots may be asked at all is for the shared rate limiter, external, to say.\<close>

definition Request_can_request :: "(trace_info \<Rightarrow> bool) \<Rightarrow> trace_info \<Rightarrow> bool" where
  "Request_can_request rate_limiter ti = rate_limiter ti"

text \<open>\<open>insert\<close> of the set of keys; the list keeps the order of insertion.\<close>

definition insert_key :: "'k \<Rightarrow> 'k list \<Rightarrow> 'k list" where
  "insert_key k ks = (if k \<in> set ks then ks else ks @ [k])"

lemma set_insert_key [simp]: "set (insert_key k ks) = insert k (set ks)"
  by (auto simp: insert_key_def)

lemma distinct_insert_key [simp]: "distinct (insert_key k ks) = distinct ks"
  by (auto simp: insert_key_def)

lemma length_insert_key: "length (insert_key k ks) = length ks + (if k \<in> set ks then 0 else 1)"
  by (simp add: insert_key_def)

subsection \<open>REST responses\<close>

text \<open>
  \<open>web::rest::Response\<close>: what \<open>result()\<close> returns (the text of the status, its category and the
  body) or throws, and whether \<open>expect(OK)\<close> throws.
\<close>

record rest_response =
  rr_result :: "exn + (string \<times> http_category \<times> string)"
  rr_expect_ok :: "exn + unit"

type_synonym 's error_handler = "origin \<Rightarrow> request_status \<Rightarrow> error \<Rightarrow> string \<Rightarrow> ('s, exn, unit) stmt"

definition response_switch ::
    "rest_response \<Rightarrow> 's error_handler \<Rightarrow> (string \<Rightarrow> ('s, exn, unit) stmt) \<Rightarrow> ('s, exn, unit) stmt" where
  "response_switch response error_handler success_handler =
     bindm (lift_sum (rr_result response)) (\<lambda>(status, category, body). case category of
         Category_UNKNOWN \<Rightarrow> lift_sum (rr_expect_ok response)
       | INFORMATIONAL_RESPONSE \<Rightarrow> lift_sum (rr_expect_ok response)
       | SUCCESS \<Rightarrow> success_handler body
       | REDIRECTION \<Rightarrow> fatal ''Unexpected: URL is being redirected''
       | CLIENT_ERROR \<Rightarrow> success_handler body
       | SERVER_ERROR \<Rightarrow> error_handler Origin_EXCHANGE RequestStatus_REJECTED Error_UNKNOWN status)"

text \<open>
  Of \<open>order_entry_rest.cpp\<close>. The origin, status and error that the library gives its own order
  management exceptions are the parameter \<open>oms_fields\<close>.
\<close>

definition process_response ::
    "(oms_exception \<Rightarrow> origin \<times> request_status \<times> error) \<Rightarrow> rest_response \<Rightarrow> 's error_handler
       \<Rightarrow> (string \<Rightarrow> ('s, exn, unit) stmt) \<Rightarrow> ('s, exn, unit) stmt" where
  "process_response oms_fields response error_handler success_handler =
     try_catch (response_switch response error_handler success_handler)
       (\<lambda>e. case e of
          OmsException k msg \<Rightarrow> (case oms_fields k of (orig, status, err) \<Rightarrow> error_handler orig status err msg)
        | NetworkError status err msg \<Rightarrow> error_handler Origin_GATEWAY status err msg
        | BadState \<Rightarrow> error_handler Origin_EXCHANGE RequestStatus_ERROR Error_UNKNOWN (what e)
        | RuntimeError msg \<Rightarrow> error_handler Origin_EXCHANGE RequestStatus_ERROR Error_UNKNOWN (what e)
        | StdException msg \<Rightarrow> error_handler Origin_EXCHANGE RequestStatus_ERROR Error_UNKNOWN (what e))"

text \<open>Of \<open>rest.cpp\<close>, which has no case for order management exceptions.\<close>

definition rest_process_response ::
    "rest_response \<Rightarrow> 's error_handler \<Rightarrow> (string \<Rightarrow> ('s, exn, unit) stmt) \<Rightarrow> ('s, exn, unit) stmt" where
  "rest_process_response response error_handler success_handler =
     try_catch (response_switch response error_handler success_handler)
       (\<lambda>e. case e of
          NetworkError status err msg \<Rightarrow> error_handler Origin_GATEWAY status err msg
        | OmsException k msg \<Rightarrow> error_handler Origin_EXCHANGE RequestStatus_ERROR Error_UNKNOWN (what e)
        | BadState \<Rightarrow> error_handler Origin_EXCHANGE RequestStatus_ERROR Error_UNKNOWN (what e)
        | RuntimeError msg \<Rightarrow> error_handler Origin_EXCHANGE RequestStatus_ERROR Error_UNKNOWN (what e)
        | StdException msg \<Rightarrow> error_handler Origin_EXCHANGE RequestStatus_ERROR Error_UNKNOWN (what e))"

text \<open>What a response carries, if it reaches the success handler and can be decoded.\<close>

definition decoded :: "rest_response \<Rightarrow> (string \<Rightarrow> exn + 'a) \<Rightarrow> 'a option" where
  "decoded response decode = (case rr_result response of
     Inl e \<Rightarrow> None
   | Inr (status, category, body) \<Rightarrow>
       if category = SUCCESS \<or> category = CLIENT_ERROR
       then (case decode body of Inl e \<Rightarrow> None | Inr a \<Rightarrow> Some a) else None)"

text \<open>A response that says something: not an informational or unknown status.\<close>

definition conclusive :: "rest_response \<Rightarrow> bool" where
  "conclusive response \<longleftrightarrow> (case rr_result response of Inl e \<Rightarrow> True
   | Inr (status, category, body) \<Rightarrow> category \<noteq> Category_UNKNOWN \<and> category \<noteq> INFORMATIONAL_RESPONSE)"

lemma response_switch_success:
  "rr_result response = Inr (status, category, body) \<Longrightarrow> category = SUCCESS \<or> category = CLIENT_ERROR \<Longrightarrow>
     response_switch response error_handler success_handler = success_handler body"
  by (auto simp: response_switch_def)

lemma keeps_response_switch [keeps_intros]:
  "(\<And>a b c d. keeps I (error_handler a b c d)) \<Longrightarrow> (\<And>body. keeps I (success_handler body)) \<Longrightarrow>
     keeps I (response_switch response error_handler success_handler)"
  unfolding response_switch_def
  by (intro keeps_intros) (auto split: http_category.splits intro!: keeps_intros)

lemma keeps_process_response [keeps_intros]:
  "(\<And>a b c d. keeps I (error_handler a b c d)) \<Longrightarrow> (\<And>body. keeps I (success_handler body)) \<Longrightarrow>
     keeps I (process_response oms_fields response error_handler success_handler)"
  unfolding process_response_def
  by (intro keeps_intros) (auto split: exn.splits prod.splits)

lemma keeps_rest_process_response [keeps_intros]:
  "(\<And>a b c d. keeps I (error_handler a b c d)) \<Longrightarrow> (\<And>body. keeps I (success_handler body)) \<Longrightarrow>
     keeps I (rest_process_response response error_handler success_handler)"
  unfolding rest_process_response_def
  by (intro keeps_intros) (auto split: exn.splits)

subsection \<open>Downloads\<close>

text \<open>
  The contract of a \<open>download\<close> function with \<open>core::Download2\<close>: the number it returns is the
  number of requests and subscriptions it sent, the responses there are to wait for.
\<close>

fun awaits :: "effect \<Rightarrow> bool" where
  "awaits (SendText m) = True"
| "awaits (SendRequest r i c) = True"
| "awaits (ReqIssue k) = True"
| "awaits _ = False"

text \<open>The numbers that the calls of a run return.\<close>

primrec run_numbers :: "('st \<Rightarrow> ('s, exn, int) stmt) \<Rightarrow> 'st dl_run \<Rightarrow> 's \<Rightarrow> int list" where
  "run_numbers download DlDone s = []"
| "run_numbers download (DlCall st k) s = (case download st s of
     Normal n t \<Rightarrow> n # run_numbers download (k n) t | Thrown e t \<Rightarrow> [] | Fatal msg t \<Rightarrow> [])"

locale downloader =
  fixes download :: "'st \<Rightarrow> ('z ctx_scheme, exn, int) stmt"
  assumes counts: "download st s = Normal n t \<Longrightarrow>
    \<exists>as. trace t = trace s @ as \<and> n = int (length (filter awaits as))"
begin

lemma nothing_sent:
  "download st s = Normal 0 t \<Longrightarrow> \<exists>as. trace t = trace s @ as \<and> (\<forall>a\<in>set as. \<not> awaits a)"
  using counts [of st s 0 t] by (auto simp: filter_empty_conv)

lemma never_negative: "download st s = Normal n t \<Longrightarrow> 0 \<le> n"
  using counts by fastforce

text \<open>Over a whole run the numbers returned add up to what was sent.\<close>

lemma run_counts:
  assumes "run_download download r s = Normal () t"
  shows "\<exists>as. trace t = trace s @ as \<and> sum_list (run_numbers download r s) = int (length (filter awaits as))"
  using assms
proof (induction r arbitrary: s)
  case DlDone
  then show ?case by (simp add: exec_simps)
next
  case (DlCall st k)
  then obtain n u where n: "download st s = Normal n u" and k: "run_download download (k n) u = Normal () t"
    by (cases "download st s") (auto simp: exec_simps)
  from counts [OF n] obtain as where as: "trace u = trace s @ as" "n = int (length (filter awaits as))"
    by blast
  from DlCall.IH [OF _ k] obtain bs
    where "trace t = trace u @ bs" "sum_list (run_numbers download (k n) u) = int (length (filter awaits bs))"
    by auto
  with as n show ?case by auto
qed

end

subsection \<open>Keep-alive\<close>

definition ping_message :: "int \<Rightarrow> string" where
  \<open>ping_message now = ''{'' @ ''"id":'' @ fmt_int now @ '','' @ ''"type":"ping"'' @ ''}''\<close>

subsection \<open>Order book sequencers\<close>

text \<open>
  \<open>market::mbp::Sequencer\<close> is external. One call into it makes some calls of the three closures
  it is given, in some order, and may end by throwing \<open>BadState\<close>.
\<close>

datatype sequencer_call =
    PublishUpdate "mbp_update list" "mbp_update list"
  | PublishSnapshot "mbp_update list" "mbp_update list" "64 word"
  | RequestSnapshot nat

record sequencer_answer =
  sq_calls :: "sequencer_call list"
  sq_bad_state :: bool

definition run_sequencer ::
    "(sequencer_call \<Rightarrow> ('s, exn, unit) stmt) \<Rightarrow> sequencer_answer \<Rightarrow> ('s, exn, unit) stmt" where
  "run_sequencer closures answer =
     seqm (for_each (sq_calls answer) closures) (if sq_bad_state answer then throw BadState else skip)"

definition request_snapshot :: "settings \<Rightarrow> string \<Rightarrow> nat \<Rightarrow> ('z ctx_scheme, exn, unit) stmt" where
  "request_snapshot s symb retries =
     (if set_mbp_request_max_retries s \<noteq> 0 \<and> set_mbp_request_max_retries s < retries
      then fatal ''Unexpected: retries'' else emit (DepthQueuePush symb))"

text \<open>The \<open>try\<close> block around a call into a sequencer.\<close>

definition with_resubscribe ::
    "string \<Rightarrow> ('z ctx_scheme, exn, unit) stmt \<Rightarrow> ('z ctx_scheme, exn, unit) stmt" where
  "with_resubscribe symb m = try_catch m
     (\<lambda>e. if e = BadState then block [emit (SequencerClear symb), emit (DepthQueuePush symb)] else throw e)"

text \<open>
  What a sequencer's calls amount to: the books they publish, and the snapshots they ask for,
  against the same read off a trace.
\<close>

fun books_of_call :: "sequencer_call \<Rightarrow> (mbp_update list \<times> mbp_update list \<times> update_type) list" where
  "books_of_call (PublishUpdate bids asks) = [(bids, asks, UpdateType_INCREMENTAL)]"
| "books_of_call (PublishSnapshot bids asks sequence) = [(bids, asks, UpdateType_SNAPSHOT)]"
| "books_of_call (RequestSnapshot retries) = []"

fun books_of_effect :: "string \<Rightarrow> effect \<Rightarrow> (mbp_update list \<times> mbp_update list \<times> update_type) list" where
  "books_of_effect symb (Dispatch (U_MarketByPrice u)) =
     (if mb_symbol u = symb then [(mb_bids u, mb_asks u, mb_update_type u)] else [])"
| "books_of_effect symb _ = []"

fun is_snapshot_request :: "sequencer_call \<Rightarrow> bool" where
  "is_snapshot_request (RequestSnapshot retries) = True"
| "is_snapshot_request _ = False"

definition within_retries :: "settings \<Rightarrow> sequencer_call list \<Rightarrow> bool" where
  "within_retries s calls \<longleftrightarrow> (\<forall>retries. RequestSnapshot retries \<in> set calls \<longrightarrow>
     set_mbp_request_max_retries s = 0 \<or> retries \<le> set_mbp_request_max_retries s)"

text \<open>The effects of one call: it publishes its book, or it queues a snapshot request.\<close>

definition carries_out :: "string \<Rightarrow> sequencer_call list \<Rightarrow> effect list \<Rightarrow> bool" where
  "carries_out symb calls as \<longleftrightarrow> concat (map (books_of_effect symb) as) = concat (map books_of_call calls)
     \<and> filter (\<lambda>a. a = DepthQueuePush symb) as = map (\<lambda>c. DepthQueuePush symb) (filter is_snapshot_request calls)"

lemma carries_out_append:
  "carries_out symb cs as \<Longrightarrow> carries_out symb ds bs \<Longrightarrow> carries_out symb (cs @ ds) (as @ bs)"
  by (simp add: carries_out_def)

text \<open>
  The lemma behind every call into a sequencer: closures that do what they are named for give a
  trace that carries out the sequencer's calls, and a \<open>BadState\<close> is turned into a cleared
  sequencer and a request for a new snapshot.
\<close>

lemma run_sequencer_calls:
  assumes "\<And>c s. c \<in> set calls \<Longrightarrow> \<exists>as. closures c s = Normal () (s\<lparr>trace := trace s @ as\<rparr>) \<and> carries_out symb [c] as"
  shows "\<exists>as. for_each calls closures s = Normal () (s\<lparr>trace := trace s @ as\<rparr>) \<and> carries_out symb calls as"
  using assms
proof (induction calls arbitrary: s)
  case Nil
  then show ?case by (intro exI [of _ "[]"]) (simp add: exec_simps carries_out_def)
next
  case (Cons c cs)
  from Cons.prems [of c] obtain as where c: "closures c s = Normal () (s\<lparr>trace := trace s @ as\<rparr>)" "carries_out symb [c] as"
    by auto
  from Cons.IH [of "s\<lparr>trace := trace s @ as\<rparr>"] Cons.prems obtain bs
    where "for_each cs closures (s\<lparr>trace := trace s @ as\<rparr>) = Normal () (s\<lparr>trace := trace s @ as @ bs\<rparr>)"
      and "carries_out symb cs bs"
    by auto
  with c show ?case
    by (intro exI [of _ "as @ bs"]) (auto simp: exec_simps dest: carries_out_append)
qed

lemma with_resubscribe_sequencer:
  assumes "\<And>c s. c \<in> set (sq_calls answer) \<Longrightarrow>
    \<exists>as. closures c s = Normal () (s\<lparr>trace := trace s @ as\<rparr>) \<and> carries_out symb [c] as"
  shows "\<exists>as. with_resubscribe symb (run_sequencer closures answer) s = Normal () (s\<lparr>trace := trace s @ as @
        (if sq_bad_state answer then [SequencerClear symb, DepthQueuePush symb] else [])\<rparr>)
      \<and> carries_out symb (sq_calls answer) as"
  using run_sequencer_calls [of "sq_calls answer" closures symb s] assms
  by (auto simp: with_resubscribe_def run_sequencer_def exec_simps)

lemma keeps_run_sequencer [keeps_intros]:
  "(\<And>c. keeps I (closures c)) \<Longrightarrow> keeps I (run_sequencer closures answer)"
  unfolding run_sequencer_def by (intro keeps_intros)

lemma keeps_with_resubscribe:
  "keeps I m \<Longrightarrow> keeps I (emit (SequencerClear symb)) \<Longrightarrow> keeps I (emit (DepthQueuePush symb)) \<Longrightarrow>
     keeps I (with_resubscribe symb m)"
  unfolding with_resubscribe_def by (intro keeps_intros) (auto intro!: keeps_intros)

lemma keeps_request_snapshot:
  "keeps I (emit (DepthQueuePush symb)) \<Longrightarrow> keeps I (request_snapshot s symb retries)"
  unfolding request_snapshot_def by (intro keeps_intros)

subsection \<open>Concrete parameters\<close>

definition sample_connection :: connection_env where
  "sample_connection = \<lparr>conn_refresh = (\<lambda>_. True), conn_ready = (\<lambda>_. True), conn_interface = (\<lambda>_. []),
     conn_authority = (\<lambda>_. ''api''), conn_path = (\<lambda>_. ''/''), conn_proxy = (\<lambda>_. [])\<rparr>"

definition ok_response :: "string \<Rightarrow> rest_response" where
  "ok_response body = \<lparr>rr_result = Inr (''200'', SUCCESS, body), rr_expect_ok = Inr ()\<rparr>"

definition sample_trace_info :: trace_info where
  "sample_trace_info = \<lparr>origin_create_time = 1, origin_create_time_utc = 1, source_receive_time = 1\<rparr>"

end
