(* ===== verification/Drop_Copy.thy ===== *)
theory Drop_Copy
  imports Parser Streams
begin

text \<open>
  \<open>gateway/drop_copy.cpp\<close>: the private websocket of an account. It subscribes and downloads
  balances, positions, orders and trades in the order \<open>core::Download2\<close> drives, publishes funds,
  positions, orders and trades, pings, and replaces an expired token. The download object, the
  request slots, the connection and the server's order management are external: their answers
  are the parameters \<open>drop_copy_env\<close>.
\<close>

subsection \<open>State\<close>

datatype dc_state =
    DC_UNDEFINED | SUBSCRIBE_BALANCES | GET_BALANCES | SUBSCRIBE_POSITIONS | GET_POSITIONS
  | SUBSCRIBE_ORDERS | GET_OPEN_ORDERS | GET_STALE_ORDERS | GET_TRADES | DC_DONE

definition dc_state_index :: "dc_state \<Rightarrow> nat" where
  "dc_state_index st = (case st of
     DC_UNDEFINED \<Rightarrow> 0 | SUBSCRIBE_BALANCES \<Rightarrow> 1 | GET_BALANCES \<Rightarrow> 2 | SUBSCRIBE_POSITIONS \<Rightarrow> 3
   | GET_POSITIONS \<Rightarrow> 4 | SUBSCRIBE_ORDERS \<Rightarrow> 5 | GET_OPEN_ORDERS \<Rightarrow> 6 | GET_STALE_ORDERS \<Rightarrow> 7
   | GET_TRADES \<Rightarrow> 8 | DC_DONE \<Rightarrow> 9)"

definition dc_state_name :: "dc_state \<Rightarrow> string" where
  "dc_state_name st = (case st of
     DC_UNDEFINED \<Rightarrow> ''UNDEFINED'' | SUBSCRIBE_BALANCES \<Rightarrow> ''SUBSCRIBE_BALANCES''
   | GET_BALANCES \<Rightarrow> ''GET_BALANCES'' | SUBSCRIBE_POSITIONS \<Rightarrow> ''SUBSCRIBE_POSITIONS''
   | GET_POSITIONS \<Rightarrow> ''GET_POSITIONS'' | SUBSCRIBE_ORDERS \<Rightarrow> ''SUBSCRIBE_ORDERS''
   | GET_OPEN_ORDERS \<Rightarrow> ''GET_OPEN_ORDERS'' | GET_STALE_ORDERS \<Rightarrow> ''GET_STALE_ORDERS''
   | GET_TRADES \<Rightarrow> ''GET_TRADES'' | DC_DONE \<Rightarrow> ''DONE'')"

text \<open>\<open>magic_enum::enum_cast\<close>: the enumerator of a name.\<close>

definition dc_state_of_name :: "string \<Rightarrow> dc_state option" where
  "dc_state_of_name n = find (\<lambda>st. dc_state_name st = n)
     [DC_UNDEFINED, SUBSCRIBE_BALANCES, GET_BALANCES, SUBSCRIBE_POSITIONS, GET_POSITIONS, SUBSCRIBE_ORDERS,
      GET_OPEN_ORDERS, GET_STALE_ORDERS, GET_TRADES, DC_DONE]"

record drop_copy = request_ctx +
  dc_query :: string
  dc_request_id :: "64 word"
  dc_welcome :: bool
  dc_ready :: bool
  dc_connection_status :: connection_status
  dc_logon_timeout :: int
  dc_next_ping :: int
  dc_next_simulated_disconnect :: int
  dc_next_check_stale_orders :: int

record drop_copy_env =
  dce_stream_id :: "16 word"
  dce_account_name :: string
  dce_settings :: settings
  dce_ping_frequency :: int
  dce_connection :: connection_env
  dce_decoders :: decoders
  dce_download_state :: "effect list \<Rightarrow> dc_state"
  dce_download :: "effect list \<Rightarrow> dc_state dl_run"
  dce_has_response :: "request_kind \<Rightarrow> effect list \<Rightarrow> bool"
  dce_stale_orders :: "effect list \<Rightarrow> oms_order list"
  dce_find_order :: "order_update \<Rightarrow> effect list \<Rightarrow> oms_order option"
  dce_is_zero :: "f64 \<Rightarrow> bool"

definition DC_SUPPORTS :: "support_type set" where
  "DC_SUPPORTS = {Support_FUNDS, Support_POSITION, Support_ORDER, Support_TRADE}"

definition REQUEST_ID :: "64 word" where
  "REQUEST_ID = 1000000"

type_synonym dc_stmt = "(drop_copy, exn, unit) stmt"

definition DropCopy_create :: "drop_copy_env \<Rightarrow> string \<Rightarrow> drop_copy" where
  "DropCopy_create E query =
     \<lparr>trace = [], details_stale_orders = [], dc_query = query, dc_request_id = ucast (dce_stream_id E) * REQUEST_ID,
      dc_welcome = False, dc_ready = False, dc_connection_status = ConnectionStatus_UNDEFINED, dc_logon_timeout = 0,
      dc_next_ping = 0, dc_next_simulated_disconnect = 0, dc_next_check_stale_orders = 0\<rparr>"

subsection \<open>Helpers\<close>

definition dc_is_ready :: "drop_copy \<Rightarrow> bool" where
  "dc_is_ready s \<longleftrightarrow> dc_connection_status s = ConnectionStatus_READY"

definition dc_report :: "drop_copy_env \<Rightarrow> trace_info \<Rightarrow> connection_status \<Rightarrow> string \<Rightarrow> dc_stmt" where
  "dc_report E ti status reason = block
     [modify (\<lambda>s. s\<lparr>dc_connection_status := status\<rparr>),
      reading id (\<lambda>s. dispatch (U_StreamStatus (make_stream_status (dce_connection E) (dce_stream_id E)
        (dce_account_name E) DC_SUPPORTS Protocol_WS (dc_connection_status s) reason (trace s))))]"

definition dc_request_private_token :: "drop_copy_env \<Rightarrow> trace_info \<Rightarrow> dc_stmt" where
  "dc_request_private_token E ti = reading dc_query (\<lambda>query.
     if query = [] then skip
     else block
       [modify (\<lambda>s. s\<lparr>dc_query := []\<rparr>),
        emit (ConnSuspendFor (ns_of_s 60)),
        emit (ReqIssue Req_PrivateToken)])"

text \<open>Only logs.\<close>

definition dc_check_response_private_token :: "drop_copy_env \<Rightarrow> dc_stmt" where
  "dc_check_response_private_token E = ask ''private_token.has_response''
     (dce_has_response E Req_PrivateToken) (\<lambda>has_response. if has_response then skip else skip)"

definition dc_subscribe :: "dc_state \<Rightarrow> string \<Rightarrow> dc_stmt" where
  \<open>dc_subscribe st topic = emit (SendText (''{'' @ ''"id":"'' @ dc_state_name st @ ''",'' @ ''"type":"subscribe",''
     @ ''"topic":"'' @ topic @ ''",'' @ ''"response":true,'' @ ''"privateChannel":true'' @ ''}''))\<close>

definition dc_send_ping :: "drop_copy_env \<Rightarrow> int \<Rightarrow> dc_stmt" where
  "dc_send_ping E now = block
     [assert_that (0 < dce_ping_frequency E),
      modify (\<lambda>s. s\<lparr>dc_next_ping := now + dce_ping_frequency E div 2\<rparr>),
      emit (SendText (ping_message now))]"

text \<open>
  \<open>check_stale_orders()\<close>: collect the keys of the orders the server calls stale; the answer is
  whether any of them is new.
\<close>

definition order_key :: "oms_order \<Rightarrow> 8 word \<times> 64 word" where
  "order_key order = (or_user_id order, or_order_id order)"

definition dc_collect_stale_orders :: "drop_copy_env \<Rightarrow> (drop_copy, exn, bool) stmt" where
  "dc_collect_stale_orders E = ask ''get_all_stale_orders'' (dce_stale_orders E) (\<lambda>orders.
     reading details_stale_orders (\<lambda>stale_orders.
     let (keys, counter) = fold (\<lambda>order (ks, n).
           if order_key order \<in> set ks then (ks, n) else (insert_key (order_key order) ks, Suc n))
           orders (stale_orders, 0)
     in seqm (modify (\<lambda>s. s\<lparr>details_stale_orders := keys\<rparr>)) (ret (counter \<noteq> 0))))"

definition dc_check_stale_orders :: "drop_copy_env \<Rightarrow> trace_info \<Rightarrow> dc_stmt" where
  "dc_check_stale_orders E ti = reading dc_next_check_stale_orders (\<lambda>next_check.
     whenm (next_check < origin_create_time ti) (seqm
       (modify (\<lambda>s. s\<lparr>dc_next_check_stale_orders :=
          origin_create_time ti + set_check_stale_order_freq (dce_settings E)\<rparr>))
       (bindm (dc_collect_stale_orders E) (\<lambda>found. whenm found (emit (ReqIssue Req_StaleOrders))))))"

subsection \<open>Download\<close>

definition dc_download :: "drop_copy_env \<Rightarrow> trace_info \<Rightarrow> dc_state \<Rightarrow> (drop_copy, exn, int) stmt" where
  "dc_download E ti st = (let publish_downloading = dc_report E ti ConnectionStatus_DOWNLOADING (dc_state_name st) in
     case st of
       DC_UNDEFINED \<Rightarrow> fatal ''assert''
     | SUBSCRIBE_BALANCES \<Rightarrow>
         seqm (block [publish_downloading, dc_subscribe st ''/contractAccount/wallet'']) (ret 1)
     | GET_BALANCES \<Rightarrow> seqm (block [publish_downloading, emit (ReqIssue Req_Balances)]) (ret 1)
     | SUBSCRIBE_POSITIONS \<Rightarrow>
         seqm (block [publish_downloading, dc_subscribe st ''/contract/positionAll'']) (ret 1)
     | GET_POSITIONS \<Rightarrow> seqm (block [publish_downloading, emit (ReqIssue Req_Positions)]) (ret 1)
     | SUBSCRIBE_ORDERS \<Rightarrow>
         seqm (block [publish_downloading, dc_subscribe st ''/contractMarket/tradeOrders'']) (ret 1)
     | GET_OPEN_ORDERS \<Rightarrow> seqm (block [publish_downloading, emit (ReqIssue Req_OpenOrders)]) (ret 1)
     | GET_STALE_ORDERS \<Rightarrow> reading details_stale_orders (\<lambda>keys.
         if keys = [] then ret 0
         else seqm (block [publish_downloading, emit (ReqIssue Req_StaleOrders)]) (ret 1))
     | GET_TRADES \<Rightarrow>
         if set_trades_lookback (dce_settings E) \<noteq> 0
         then seqm (block [publish_downloading, emit (ReqIssue Req_Trades)]) (ret 1)
         else ret 0
     | DC_DONE \<Rightarrow> seqm (block
         [dc_report E ti ConnectionStatus_READY [],
          reading dc_ready (\<lambda>ready. assert_that (\<not> ready)),
          modify (\<lambda>s. s\<lparr>dc_ready := True\<rparr>)]) (ret 0))"

text \<open>
  A call into the download object that passes it the event, so that it may call \<open>download\<close>.
  \<open>reset\<close> passes none; without one the closure cannot be called.
\<close>

definition dc_download_call :: "drop_copy_env \<Rightarrow> trace_info \<Rightarrow> effect \<Rightarrow> dc_stmt" where
  "dc_download_call E ti a = seqm (emit a)
     (reading trace (\<lambda>tr. run_download (dc_download E ti) (dce_download E tr)))"

definition dc_download_check :: "drop_copy_env \<Rightarrow> trace_info \<Rightarrow> dc_state \<Rightarrow> dc_stmt" where
  "dc_download_check E ti st = dc_download_call E ti (DlCheck (dc_state_index st))"

definition dc_check_request_queue :: "drop_copy_env \<Rightarrow> trace_info \<Rightarrow> dc_stmt" where
  "dc_check_request_queue E ti = ask ''download.state'' (dce_download_state E) (\<lambda>st. case st of
     DC_UNDEFINED \<Rightarrow> skip
   | SUBSCRIBE_BALANCES \<Rightarrow> skip
   | GET_BALANCES \<Rightarrow> ask ''balances.has_response'' (dce_has_response E Req_Balances) (\<lambda>b. whenm b (dc_download_check E ti st))
   | SUBSCRIBE_POSITIONS \<Rightarrow> skip
   | GET_POSITIONS \<Rightarrow> ask ''positions.has_response'' (dce_has_response E Req_Positions) (\<lambda>b. whenm b (dc_download_check E ti st))
   | SUBSCRIBE_ORDERS \<Rightarrow> skip
   | GET_OPEN_ORDERS \<Rightarrow> ask ''open_orders.has_response'' (dce_has_response E Req_OpenOrders) (\<lambda>b. whenm b
       (bindm (dc_collect_stale_orders E) (\<lambda>found. dc_download_check E ti st)))
   | GET_STALE_ORDERS \<Rightarrow> ask ''stale_orders.has_response'' (dce_has_response E Req_StaleOrders) (\<lambda>b. whenm b
       (reading details_stale_orders (\<lambda>keys. block
         [whenm (keys \<noteq> []) (fatal ''Unexpected''), dc_download_check E ti st])))
   | GET_TRADES \<Rightarrow> ask ''trades.has_response'' (dce_has_response E Req_Trades) (\<lambda>b. whenm b (dc_download_check E ti st))
   | DC_DONE \<Rightarrow> skip)"

subsection \<open>Messages\<close>

definition dc_wallet_balance_change :: "drop_copy_env \<Rightarrow> wallet_balance_change \<Rightarrow> funds_update" where
  "dc_wallet_balance_change E data =
     \<lparr>fu_stream_id = dce_stream_id E, fu_account = dce_account_name E, fu_currency = wb_currency data,
      fu_balance = wb_available_balance data, fu_hold = wb_hold_balance data, fu_update_type = UpdateType_INCREMENTAL,
      fu_exchange_time_utc = ns_of_ms (wb_timestamp_ms data), fu_exchange_sequence = wb_version data\<rparr>"

definition dc_position_change :: "drop_copy_env \<Rightarrow> position_change \<Rightarrow> position_update" where
  "dc_position_change E data =
     \<lparr>pu_stream_id = dce_stream_id E, pu_account = dce_account_name E, pu_exchange = set_exchange (dce_settings E),
      pu_symbol = pc_symbol data, pu_margin_mode = map_margin_mode (pc_margin_mode data),
      pu_long_quantity = std_max (pc_current_qty data) (Fin 0),
      pu_short_quantity = std_max (f64_neg (pc_current_qty data)) (Fin 0),
      pu_update_type = UpdateType_INCREMENTAL, pu_exchange_time_utc = ns_of_ms (pc_ts_ms data),
      pu_sending_time_utc = ns_of_ms (pc_current_timestamp_ms data)\<rparr>"

definition dc_is_match :: "order_change \<Rightarrow> bool" where
  "dc_is_match data \<longleftrightarrow> oc_type data = JOrderUpdateType_MATCH"

definition dc_order_status :: "drop_copy_env \<Rightarrow> order_change \<Rightarrow> order_status" where
  "dc_order_status E data =
     (if dc_is_match data \<and> dce_is_zero E (oc_remain_size data) then OrderStatus_COMPLETED
      else if oc_type data = JOrderUpdateType_CANCELED then OrderStatus_CANCELED
      else map_order_status (oc_status data))"

definition dc_remaining_quantity :: "drop_copy_env \<Rightarrow> order_change \<Rightarrow> f64" where
  "dc_remaining_quantity E data =
     (if dc_order_status E data = OrderStatus_CANCELED then Fin 0 else oc_remain_size data)"

definition dc_last_liquidity :: "order_change \<Rightarrow> liquidity" where
  "dc_last_liquidity data = (if dc_is_match data then map_liquidity (oc_liquidity data) else Liquidity_UNDEFINED)"

definition dc_order_update :: "drop_copy_env \<Rightarrow> order_change \<Rightarrow> order_update" where
  "dc_order_update E data =
     \<lparr>ou_account = dce_account_name E, ou_exchange = set_exchange (dce_settings E), ou_symbol = oc_symbol data,
      ou_side = map_side (oc_side data),
      ou_position_effect = map_position_effect (oc_position_side data) (oc_side data),
      ou_margin_mode = map_margin_mode (oc_margin_mode data), ou_max_show_quantity = NaN,
      ou_order_type = map_order_type (oc_order_type data), ou_time_in_force = TimeInForce_UNDEFINED,
      ou_create_time_utc = 0, ou_update_time_utc = oc_order_time_ns data,
      ou_external_order_id = oc_order_id data, ou_client_order_id = oc_client_oid data,
      ou_order_status = dc_order_status E data, ou_text = [], ou_quantity = oc_size data, ou_price = oc_price data,
      ou_stop_price = NaN, ou_remaining_quantity = dc_remaining_quantity E data,
      ou_traded_quantity = oc_filled_size data, ou_average_traded_price = NaN,
      ou_last_traded_quantity = oc_match_size data, ou_last_traded_price = oc_match_price data,
      ou_last_liquidity = dc_last_liquidity data, ou_sending_time_utc = oc_ts_ns data\<rparr>"

definition dc_trade_update :: "drop_copy_env \<Rightarrow> order_change \<Rightarrow> oms_order \<Rightarrow> trade_update" where
  "dc_trade_update E data order =
     \<lparr>tu_stream_id = dce_stream_id E, tu_account = or_account order, tu_order_id = or_order_id order,
      tu_exchange = or_exchange order, tu_symbol = or_symbol order, tu_side = or_side order,
      tu_position_effect = or_position_effect order, tu_margin_mode = or_margin_mode order,
      tu_create_time_utc = oc_ts_ns data, tu_update_time_utc = oc_ts_ns data,
      tu_external_order_id = or_external_order_id order, tu_client_order_id = or_client_order_id order,
      tu_fills = [\<lparr>fi_external_trade_id = oc_trade_id data, fi_quantity = oc_match_size data,
        fi_price = oc_match_price data, fi_liquidity = dc_last_liquidity data\<rparr>],
      tu_routing_id = or_routing_id order, tu_update_type = UpdateType_INCREMENTAL,
      tu_sending_time_utc = oc_ts_ns data, tu_strategy_id = or_strategy_id order\<rparr>"

text \<open>
  The server answers a dispatched order update by calling back with the order it belongs to,
  if it finds one.
\<close>

definition dc_order_change :: "drop_copy_env \<Rightarrow> order_change \<Rightarrow> dc_stmt" where
  "dc_order_change E data = (let order_update = dc_order_update E data in
     seqm (dispatch (U_Order order_update (dce_stream_id E)))
       (reading trace (\<lambda>tr. case dce_find_order E order_update tr of
          None \<Rightarrow> skip
        | Some order \<Rightarrow> if \<not> dc_is_match data then skip
            else dispatch (U_Trade (dc_trade_update E data order) (or_user_id order)))))"

definition dc_error :: "drop_copy_env \<Rightarrow> trace_info \<Rightarrow> error_message \<Rightarrow> dc_stmt" where
  "dc_error E ti error =
     (if er_code error = 401 \<and> er_data error = ''token is expired''
      then block [whenm (set_crash_on_expired_token (dce_settings E)) (fatal ''Abort''), dc_request_private_token E ti]
      else skip)"

definition dc_handle :: "drop_copy_env \<Rightarrow> trace_info \<Rightarrow> ws_event \<Rightarrow> dc_stmt" where
  "dc_handle E ti ev = (case ev of
     Ev_Welcome \<Rightarrow> block [modify (\<lambda>s. s\<lparr>dc_welcome := True\<rparr>), dc_download_call E ti DlBegin]
   | Ev_Error error \<Rightarrow> dc_error E ti error
   | Ev_Pong \<Rightarrow> skip
   | Ev_Ack i \<Rightarrow> (case dc_state_of_name i of
       Some st \<Rightarrow> dc_download_check E ti st
     | None \<Rightarrow> skip)
   | Ev_TickerV2 m \<Rightarrow> fatal ''Unexpected''
   | Ev_Match m \<Rightarrow> fatal ''Unexpected''
   | Ev_Execution \<Rightarrow> fatal ''Unexpected''
   | Ev_MarkIndexPrice m \<Rightarrow> fatal ''Unexpected''
   | Ev_FundingRate m \<Rightarrow> fatal ''Unexpected''
   | Ev_Level2 m \<Rightarrow> fatal ''Unexpected''
   | Ev_FundingBegin m \<Rightarrow> fatal ''Unexpected''
   | Ev_FundingEnd m \<Rightarrow> fatal ''Unexpected''
   | Ev_Snapshot24h m \<Rightarrow> fatal ''Unexpected''
   | Ev_WalletBalanceChange data \<Rightarrow> dispatch (U_Funds (dc_wallet_balance_change E data))
   | Ev_OrderMarginChange \<Rightarrow> skip
   | Ev_AvailableBalanceChange \<Rightarrow> skip
   | Ev_WithdrawHoldChange \<Rightarrow> skip
   | Ev_PositionChange data \<Rightarrow> dispatch (U_Position (dc_position_change E data))
   | Ev_PositionSettlement \<Rightarrow> skip
   | Ev_PositionAdjustRiskLimit \<Rightarrow> skip
   | Ev_SymbolOrderChange data \<Rightarrow> skip
   | Ev_OrderChange data \<Rightarrow> dc_order_change E data)"

text \<open>An exception that leaves the parser or a handler ends the process.\<close>

definition dc_parse :: "drop_copy_env \<Rightarrow> trace_info \<Rightarrow> string \<Rightarrow> dc_stmt" where
  "dc_parse E ti message = try_catch
     (bindm (parser_dispatch (dce_decoders E) (dc_handle E ti) message
        (set_allow_unknown_event_types (dce_settings E))) (\<lambda>handled. skip))
     (\<lambda>e. fatal ''terminate'')"

subsection \<open>Events\<close>

datatype drop_copy_event =
    DC_Start | DC_Stop | DC_Timer trace_info int | DC_PrivateToken string
  | DC_Connected trace_info | DC_Disconnected trace_info | DC_Ready trace_info | DC_Close
  | DC_Latency int | DC_Text trace_info string | DC_Binary

definition dc_timer :: "drop_copy_env \<Rightarrow> trace_info \<Rightarrow> int \<Rightarrow> dc_stmt" where
  "dc_timer E ti now = ask ''refresh'' (conn_refresh (dce_connection E)) (\<lambda>refresh. whenm refresh (block
     [ask ''ready'' (conn_ready (dce_connection E)) (\<lambda>connected.
        if connected then block
          [reading id (\<lambda>s. whenm (dc_welcome s \<and> dc_next_ping s < now) (dc_send_ping E now)),
           dc_check_request_queue E ti,
           reading id (\<lambda>s. whenm (dc_is_ready s) (dc_check_stale_orders E ti))]
        else reading id (\<lambda>s. whenm (dc_logon_timeout s \<noteq> 0 \<and> dc_logon_timeout s < now) (block
          [assert_that (\<not> dc_welcome s),
           emit ConnClose]))),
      dc_check_response_private_token E,
      reading id (\<lambda>s. whenm (dc_next_simulated_disconnect s \<noteq> 0 \<and> dc_next_simulated_disconnect s < now) (block
        [modify (\<lambda>s. s\<lparr>dc_next_simulated_disconnect := 0\<rparr>),
         dc_request_private_token E ti]))]))"

definition dc_private_token :: "drop_copy_env \<Rightarrow> string \<Rightarrow> dc_stmt" where
  "dc_private_token E query = reading dc_query (\<lambda>old.
     whenm (query \<noteq> [] \<and> old \<noteq> query) (block
       [modify (\<lambda>s. s\<lparr>dc_query := query\<rparr>), emit ConnResume]))"

definition dc_connected :: "drop_copy_env \<Rightarrow> trace_info \<Rightarrow> dc_stmt" where
  "dc_connected E ti = block
     [reading dc_logon_timeout (\<lambda>t. assert_that (t = 0)),
      modify (\<lambda>s. s\<lparr>dc_logon_timeout := origin_create_time ti + set_ws_request_timeout (dce_settings E)\<rparr>),
      whenm (set_simulate_expired_token (dce_settings E) \<noteq> 0)
        (modify (\<lambda>s. s\<lparr>dc_next_simulated_disconnect :=
           origin_create_time ti + set_simulate_expired_token (dce_settings E)\<rparr>))]"

definition dc_disconnected :: "drop_copy_env \<Rightarrow> trace_info \<Rightarrow> dc_stmt" where
  "dc_disconnected E ti = block
     [emit CountDisconnect,
      modify (\<lambda>s. s\<lparr>dc_ready := False\<rparr>),
      dc_report E ti ConnectionStatus_DISCONNECTED [],
      emit DlReset,
      modify (\<lambda>s. s\<lparr>dc_welcome := False\<rparr>),
      modify (\<lambda>s. s\<lparr>dc_logon_timeout := 0\<rparr>),
      modify (\<lambda>s. s\<lparr>dc_next_ping := 0\<rparr>)]"

definition drop_copy_step :: "drop_copy_env \<Rightarrow> drop_copy_event \<Rightarrow> dc_stmt" where
  "drop_copy_step E e = (case e of
     DC_Start \<Rightarrow> emit ConnStart
   | DC_Stop \<Rightarrow> emit ConnStop
   | DC_Timer ti now \<Rightarrow> dc_timer E ti now
   | DC_PrivateToken query \<Rightarrow> dc_private_token E query
   | DC_Connected ti \<Rightarrow> dc_connected E ti
   | DC_Disconnected ti \<Rightarrow> dc_disconnected E ti
   | DC_Ready ti \<Rightarrow> dc_report E ti ConnectionStatus_LOGIN_SENT []
   | DC_Close \<Rightarrow> skip
   | DC_Latency sample \<Rightarrow> dispatch (U_ExternalLatency (dce_stream_id E) (dce_account_name E) sample)
   | DC_Text ti payload \<Rightarrow> dc_parse E ti payload
   | DC_Binary \<Rightarrow> fatal ''Unexpected'')"

subsection \<open>Invariants through every handler\<close>

text \<open>
  One traversal of all handlers for any invariant: it is enough that the invariant survives the
  effects and the field updates that the tokens and the status do not depend on, the request for a
  token, the status reports below READY, the end of the download and a disconnect. The arrival of a
  token is an event of its own and is left to each invariant.
\<close>

fun plain_effect :: "effect \<Rightarrow> bool" where
  "plain_effect (Dispatch (U_StreamStatus ss)) = False"
| "plain_effect (ReqIssue Req_PrivateToken) = False"
| "plain_effect ConnResume = False"
| "plain_effect (ConnSuspendFor period) = False"
| "plain_effect (SendText m) = False"
| "plain_effect _ = True"

definition plain_update :: "(drop_copy \<Rightarrow> drop_copy) \<Rightarrow> bool" where
  "plain_update f \<longleftrightarrow> (\<forall>s. trace (f s) = trace s \<and> dc_query (f s) = dc_query s \<and> dc_ready (f s) = dc_ready s
     \<and> dc_connection_status (f s) = dc_connection_status s)"

definition dc_topics :: "string set" where
  "dc_topics = {''/contractAccount/wallet'', ''/contract/positionAll'', ''/contractMarket/tradeOrders''}"

definition dc_safe :: "drop_copy_env \<Rightarrow> (drop_copy \<Rightarrow> bool) \<Rightarrow> bool" where
  "dc_safe E I \<longleftrightarrow> (\<forall>a. plain_effect a \<longrightarrow> keeps I (emit a)) \<and> (\<forall>f. plain_update f \<longrightarrow> keeps I (modify f :: dc_stmt))
     \<and> (\<forall>ti. keeps I (dc_request_private_token E ti))
     \<and> (\<forall>ti st reason. st \<noteq> ConnectionStatus_READY \<longrightarrow> keeps I (dc_report E ti st reason))
     \<and> (\<forall>ti. keeps I (dc_download E ti DC_DONE)) \<and> (\<forall>ti. keeps I (dc_disconnected E ti))
     \<and> (\<forall>st. \<forall>topic\<in>dc_topics. keeps I (dc_subscribe st topic)) \<and> (\<forall>now. keeps I (dc_send_ping E now))"

lemma dc_safe_emit: "dc_safe E I \<Longrightarrow> plain_effect a \<Longrightarrow> keeps I (emit a)"
  and dc_safe_modify: "dc_safe E I \<Longrightarrow> plain_update f \<Longrightarrow> keeps I (modify f :: dc_stmt)"
  and dc_safe_request: "dc_safe E I \<Longrightarrow> keeps I (dc_request_private_token E ti)"
  and dc_safe_report: "dc_safe E I \<Longrightarrow> st \<noteq> ConnectionStatus_READY \<Longrightarrow> keeps I (dc_report E ti st reason)"
  and dc_safe_done: "dc_safe E I \<Longrightarrow> keeps I (dc_download E ti DC_DONE)"
  and dc_safe_disconnected: "dc_safe E I \<Longrightarrow> keeps I (dc_disconnected E ti)"
  and dc_safe_subscribe: "dc_safe E I \<Longrightarrow> topic \<in> dc_topics \<Longrightarrow> keeps I (dc_subscribe state topic)"
  and dc_safe_ping: "dc_safe E I \<Longrightarrow> keeps I (dc_send_ping E now)"
  by (auto simp: dc_safe_def)

text \<open>An invariant that does not look at what is sent.\<close>

lemma dc_safeI:
  assumes "\<And>a. plain_effect a \<or> (\<exists>m. a = SendText m) \<Longrightarrow> keeps I (emit a)"
    and "\<And>f. plain_update f \<Longrightarrow> keeps I (modify f :: dc_stmt)"
    and "\<And>ti. keeps I (dc_request_private_token E ti)"
    and "\<And>ti st reason. st \<noteq> ConnectionStatus_READY \<Longrightarrow> keeps I (dc_report E ti st reason)"
    and "\<And>ti. keeps I (dc_download E ti DC_DONE)" and "\<And>ti. keeps I (dc_disconnected E ti)"
  shows "dc_safe E I"
  using assms by (auto simp: dc_safe_def dc_subscribe_def dc_send_ping_def plain_update_def intro!: keeps_intros keeps_block)

lemma dc_safe_dispatch: "dc_safe E I \<Longrightarrow> plain_effect (Dispatch u) \<Longrightarrow> keeps I (dispatch u)"
  unfolding dispatch_def by (rule dc_safe_emit)

lemma dc_safe_ask: "dc_safe E I \<Longrightarrow> (\<And>b. keeps I (k b)) \<Longrightarrow> keeps I (ask name answer k)"
  by (rule keeps_ask [OF dc_safe_emit]) simp_all

lemmas dc_safe_rules = dc_safe_ask keeps_intros keeps_block dc_safe_emit dc_safe_dispatch dc_safe_modify dc_safe_request
  dc_safe_report dc_safe_done dc_safe_disconnected dc_safe_ping

lemma dc_safe_download:
  assumes safe: "dc_safe E I"
  shows "keeps I (dc_download E ti st)"
proof (cases "st = DC_DONE")
  case True
  with safe show ?thesis by (simp add: dc_safe_done)
next
  case False
  with safe show ?thesis
    by (cases st) (auto simp: dc_download_def Let_def dc_topics_def intro!: dc_safe_rules dc_safe_subscribe)
qed

lemma dc_safe_download_call:
  "dc_safe E I \<Longrightarrow> plain_effect a \<Longrightarrow> keeps I (dc_download_call E ti a)"
  unfolding dc_download_call_def
  by (intro keeps_intros dc_safe_emit dc_safe_download)

lemma dc_safe_collect: "dc_safe E I \<Longrightarrow> keeps I (dc_collect_stale_orders E)"
  unfolding dc_collect_stale_orders_def Let_def
  by (auto split: prod.splits intro!: dc_safe_rules simp: plain_update_def)

lemma dc_safe_check_stale_orders: "dc_safe E I \<Longrightarrow> keeps I (dc_check_stale_orders E ti)"
  unfolding dc_check_stale_orders_def
  by (auto intro!: dc_safe_rules dc_safe_collect simp: plain_update_def)

lemma dc_safe_check_request_queue: "dc_safe E I \<Longrightarrow> keeps I (dc_check_request_queue E ti)"
  unfolding dc_check_request_queue_def Let_def dc_download_check_def
  by (rule dc_safe_ask)
    (auto split: dc_state.splits intro!: dc_safe_rules dc_safe_collect dc_safe_download_call)

lemma dc_safe_timer: "dc_safe E I \<Longrightarrow> keeps I (dc_timer E ti now)"
  unfolding dc_timer_def dc_check_response_private_token_def
  by (auto intro!: dc_safe_rules dc_safe_check_request_queue dc_safe_check_stale_orders simp: plain_update_def)

lemma dc_safe_handle: "dc_safe E I \<Longrightarrow> keeps I (dc_handle E ti ev)"
  by (cases ev)
    (auto simp: dc_handle_def dc_error_def dc_order_change_def dc_download_check_def plain_update_def Let_def
      split: option.splits intro!: dc_safe_rules dc_safe_download_call)

lemma dc_safe_parse: "dc_safe E I \<Longrightarrow> keeps I (dc_parse E ti message)"
  unfolding dc_parse_def by (intro keeps_intros keeps_parser_dispatch dc_safe_handle)

lemma drop_copy_keeps:
  assumes safe: "dc_safe E I" and token: "\<And>q. e = DC_PrivateToken q \<Longrightarrow> keeps I (dc_private_token E q)"
  shows "keeps I (drop_copy_step E e)"
proof -
  have "keeps I (dc_connected E ti)" for ti
    using safe unfolding dc_connected_def by (auto intro!: dc_safe_rules simp: plain_update_def)
  with safe token show ?thesis
    by (cases e) (auto simp: drop_copy_step_def intro!: dc_safe_rules dc_safe_timer dc_safe_parse)
qed

subsection \<open>The status contract\<close>

lemma dc_report_run:
  "dc_report E ti st reason s = Normal () (s\<lparr>dc_connection_status := st, trace := trace s @
     [Dispatch (U_StreamStatus (make_stream_status (dce_connection E) (dce_stream_id E) (dce_account_name E)
       DC_SUPPORTS Protocol_WS st reason (trace s)))]\<rparr>)"
  by (simp add: dc_report_def exec_simps)

interpretation dc_stream: stream dc_connection_status dc_is_ready "dc_report E" for E
  by unfold_locales (auto simp: dc_is_ready_def dc_report_run)

lemma plain_effect_no_status: "plain_effect a \<Longrightarrow> status_of_effect a = None"
  by (cases a rule: plain_effect.cases) auto

lemma dc_request_private_token_run:
  "dc_request_private_token E ti s = Normal () (if dc_query s = [] then s else
     s\<lparr>dc_query := [], trace := trace s @ [ConnSuspendFor (ns_of_s 60), ReqIssue Req_PrivateToken]\<rparr>)"
  by (simp add: dc_request_private_token_def exec_simps)

lemma dc_private_token_run:
  "dc_private_token E q s = Normal () (if q \<noteq> [] \<and> dc_query s \<noteq> q then
     s\<lparr>dc_query := q, trace := trace s @ [ConnResume]\<rparr> else s)"
  by (simp add: dc_private_token_def exec_simps)

lemma dc_disconnected_run:
  "dc_disconnected E ti s = Normal () (s\<lparr>dc_ready := False, dc_connection_status := ConnectionStatus_DISCONNECTED,
     dc_welcome := False, dc_logon_timeout := 0, dc_next_ping := 0, trace := trace s @ [CountDisconnect,
       Dispatch (U_StreamStatus (make_stream_status (dce_connection E) (dce_stream_id E) (dce_account_name E)
         DC_SUPPORTS Protocol_WS ConnectionStatus_DISCONNECTED [] (trace s @ [CountDisconnect]))), DlReset]\<rparr>)"
  by (simp add: dc_disconnected_def dc_report_run exec_simps)

lemma dc_done_run:
  "final_state (dc_download E ti DC_DONE s) = s\<lparr>dc_ready := True, dc_connection_status := ConnectionStatus_READY,
     trace := trace s @ [Dispatch (U_StreamStatus (make_stream_status (dce_connection E) (dce_stream_id E)
       (dce_account_name E) DC_SUPPORTS Protocol_WS ConnectionStatus_READY [] (trace s)))]\<rparr>"
  by (cases s) (simp add: dc_download_def dc_report_run exec_simps)

lemma dc_safe_agrees: "dc_safe E (agrees dc_connection_status)"
proof (rule dc_safeI)
  show "keeps (agrees dc_connection_status) (emit a :: dc_stmt)" if "plain_effect a \<or> (\<exists>m. a = SendText m)" for a
    using that by (intro dc_stream.keeps_other_effect) (auto dest: plain_effect_no_status)
  show "keeps (agrees dc_connection_status) (modify f :: dc_stmt)" if "plain_update f" for f
    using that by (intro dc_stream.keeps_update) (simp_all add: plain_update_def)
  show "keeps (agrees dc_connection_status) (dc_request_private_token E ti)" for ti
    by (rule keepsI) (simp add: agrees_def published_append dc_request_private_token_run)
  show "keeps (agrees dc_connection_status) (dc_report E ti st reason)" for ti st reason
    by (rule dc_stream.keeps_report)
  show "keeps (agrees dc_connection_status) (dc_download E ti DC_DONE)" for ti
    by (rule keepsI) (simp add: agrees_def dc_done_run)
  show "keeps (agrees dc_connection_status) (dc_disconnected E ti)" for ti
    by (rule keepsI) (simp add: agrees_def published_append dc_disconnected_run)
qed

lemma dc_token_agrees: "keeps (agrees dc_connection_status) (dc_private_token E q)"
  by (rule keepsI) (simp add: agrees_def published_append dc_private_token_run)

lemmas dc_step_agrees = drop_copy_keeps [OF dc_safe_agrees dc_token_agrees]

lemma drop_copy_agrees: "agrees dc_connection_status (run_events (drop_copy_step E) es (DropCopy_create E q))"
  by (rule run_events_keeps [OF dc_step_agrees]) (simp add: agrees_def DropCopy_create_def)

text \<open>READY is reported only by the end of the download.\<close>

definition dc_ready_downloaded :: "drop_copy \<Rightarrow> bool" where
  "dc_ready_downloaded s \<longleftrightarrow> (dc_connection_status s = ConnectionStatus_READY \<longrightarrow> dc_ready s)"

lemma dc_safe_ready: "dc_safe E dc_ready_downloaded"
proof (rule dc_safeI)
  show "keeps dc_ready_downloaded (emit a)" for a
    by (rule keeps_emit) (simp add: dc_ready_downloaded_def)
  show "keeps dc_ready_downloaded (modify f :: dc_stmt)" if "plain_update f" for f
    using that by (intro keeps_modify) (simp add: plain_update_def dc_ready_downloaded_def)
  show "keeps dc_ready_downloaded (dc_request_private_token E ti)" for ti
    by (rule keepsI) (simp add: dc_ready_downloaded_def dc_request_private_token_run)
  show "keeps dc_ready_downloaded (dc_report E ti st reason)" if "st \<noteq> ConnectionStatus_READY" for ti st reason
    using that by (intro keepsI) (simp add: dc_ready_downloaded_def dc_report_run)
  show "keeps dc_ready_downloaded (dc_download E ti DC_DONE)" for ti
    by (rule keepsI) (simp add: dc_ready_downloaded_def dc_done_run)
  show "keeps dc_ready_downloaded (dc_disconnected E ti)" for ti
    by (rule keepsI) (simp add: dc_ready_downloaded_def dc_disconnected_run)
qed

lemma dc_token_ready: "keeps dc_ready_downloaded (dc_private_token E q)"
  by (rule keepsI) (simp add: dc_ready_downloaded_def dc_private_token_run)

lemmas dc_step_ready = drop_copy_keeps [OF dc_safe_ready dc_token_ready]

subsection \<open>Token requests\<close>

text \<open>At most one request for a new token is under way: none is made between a request and the resume.\<close>

fun single_flight :: "bool \<Rightarrow> effect list \<Rightarrow> bool" where
  "single_flight waiting [] = True"
| "single_flight waiting (ReqIssue Req_PrivateToken # tr) = (\<not> waiting \<and> single_flight True tr)"
| "single_flight waiting (ConnResume # tr) = single_flight False tr"
| "single_flight waiting (_ # tr) = single_flight waiting tr"

fun token_waiting :: "bool \<Rightarrow> effect list \<Rightarrow> bool" where
  "token_waiting waiting [] = waiting"
| "token_waiting waiting (ReqIssue Req_PrivateToken # tr) = token_waiting True tr"
| "token_waiting waiting (ConnResume # tr) = token_waiting False tr"
| "token_waiting waiting (_ # tr) = token_waiting waiting tr"

lemma single_flight_append:
  "single_flight w (tr @ tr') \<longleftrightarrow> single_flight w tr \<and> single_flight (token_waiting w tr) tr'"
  by (induction w tr rule: single_flight.induct) auto

lemma token_waiting_append: "token_waiting w (tr @ tr') = token_waiting (token_waiting w tr) tr'"
  by (induction w tr rule: token_waiting.induct) auto

definition dc_token_inv :: "drop_copy \<Rightarrow> bool" where
  "dc_token_inv s \<longleftrightarrow> single_flight False (trace s) \<and> (token_waiting False (trace s) \<longrightarrow> dc_query s = [])"

lemma dc_token_inv_neutral:
  assumes "dc_token_inv s" and "dc_query s' = dc_query s" and "trace s' = trace s @ as"
    and "list_all (\<lambda>a. a \<noteq> ReqIssue Req_PrivateToken \<and> a \<noteq> ConnResume) as"
  shows "dc_token_inv s'"
proof -
  have "single_flight w as \<and> token_waiting w as = w" for w
    using assms(4)
  proof (induction as)
    case (Cons a as)
    then show ?case by (cases "(w, a # as)" rule: single_flight.cases) auto
  qed simp
  with assms(1-3) show ?thesis
    by (simp add: dc_token_inv_def single_flight_append token_waiting_append)
qed

lemma dc_safe_token_inv: "dc_safe E dc_token_inv"
proof (rule dc_safeI)
  show "keeps dc_token_inv (emit a :: dc_stmt)" if "plain_effect a \<or> (\<exists>m. a = SendText m)" for a
    using that by (intro keeps_emit) (erule dc_token_inv_neutral [where as = "[a]"], auto)
  show "keeps dc_token_inv (modify f :: dc_stmt)" if "plain_update f" for f
    using that by (intro keeps_modify) (simp add: plain_update_def dc_token_inv_def)
  show "keeps dc_token_inv (dc_request_private_token E ti)" for ti
    by (rule keepsI) (auto simp: dc_token_inv_def dc_request_private_token_run single_flight_append token_waiting_append)
  show "keeps dc_token_inv (dc_report E ti st reason)" for ti st reason
    by (rule keepsI) (erule dc_token_inv_neutral, simp add: dc_report_run, simp add: dc_report_run, simp)
  show "keeps dc_token_inv (dc_download E ti DC_DONE)" for ti
    by (rule keepsI) (erule dc_token_inv_neutral, simp add: dc_done_run, simp add: dc_done_run, simp)
  show "keeps dc_token_inv (dc_disconnected E ti)" for ti
    by (rule keepsI) (erule dc_token_inv_neutral, simp add: dc_disconnected_run, simp add: dc_disconnected_run, simp)
qed

lemma dc_token_token_inv: "keeps dc_token_inv (dc_private_token E q)"
  by (rule keepsI) (simp add: dc_token_inv_def dc_private_token_run single_flight_append token_waiting_append)

lemmas dc_step_token_inv = drop_copy_keeps [OF dc_safe_token_inv dc_token_token_inv]

subsection \<open>Stale orders\<close>

lemma collect_fold:
  "fold (\<lambda>order (ks, n). if order_key order \<in> set ks then (ks, n) else (insert_key (order_key order) ks, Suc n))
     orders (ks, n) = (fold insert_key (map order_key orders) ks, n + card (order_key ` set orders - set ks))"
proof (induction orders arbitrary: ks n)
  case (Cons order orders)
  show ?case
  proof (cases "order_key order \<in> set ks")
    case True
    then have "insert_key (order_key order) ks = ks" by (simp add: insert_key_def)
    with True Cons show ?thesis by (simp add: insert_Diff_if)
  next
    case False
    then have "order_key ` set (order # orders) - set ks
        = insert (order_key order) (order_key ` set orders - insert (order_key order) (set ks))"
      by auto
    then have "card (order_key ` set (order # orders) - set ks)
        = Suc (card (order_key ` set orders - insert (order_key order) (set ks)))"
      by (simp only:) (subst card_insert_disjoint, simp_all)
    with False Cons show ?thesis by simp
  qed
qed simp

lemma set_fold_insert_key [simp]: "set (fold insert_key ks acc) = set acc \<union> set ks"
  by (induction ks arbitrary: acc) auto

lemma distinct_fold_insert_key [simp]: "distinct (fold insert_key ks acc) = distinct acc"
  by (induction ks arbitrary: acc) auto

lemma dc_collect_run:
  "dc_collect_stale_orders E s =
     (let orders = dce_stale_orders E (trace s @ [Call ''get_all_stale_orders'']) in
      Normal (\<not> order_key ` set orders \<subseteq> set (details_stale_orders s))
       (s\<lparr>trace := trace s @ [Call ''get_all_stale_orders''],
          details_stale_orders := fold insert_key (map order_key orders) (details_stale_orders s)\<rparr>))"
  by (auto simp: dc_collect_stale_orders_def collect_fold exec_simps card_eq_0_iff card_gt_0_iff Let_def)

subsection \<open>The download contract\<close>

interpretation dc_downloader: downloader "dc_download E ti" for E ti
proof
  fix st s n t
  assume "dc_download E ti st s = Normal n t"
  then show "\<exists>as. trace t = trace s @ as \<and> n = int (length (filter awaits as))"
    by (cases st) (auto simp: dc_download_def Let_def dc_report_run dc_subscribe_def exec_simps split: if_splits)
qed

subsection \<open>Fills\<close>

fun fills_of :: "effect \<Rightarrow> fill list" where
  "fills_of (Dispatch (U_Trade tu user_id)) = tu_fills tu"
| "fills_of _ = []"

definition published_fills :: "effect list \<Rightarrow> fill list" where
  "published_fills tr = concat (map fills_of tr)"

lemma published_fills_append: "published_fills (tr @ tr') = published_fills tr @ published_fills tr'"
  by (simp add: published_fills_def)

text \<open>The fill that a match message stands for.\<close>

definition match_fill :: "order_change \<Rightarrow> fill" where
  "match_fill data = \<lparr>fi_external_trade_id = oc_trade_id data, fi_quantity = oc_match_size data,
     fi_price = oc_match_price data, fi_liquidity = map_liquidity (oc_liquidity data)\<rparr>"

lemma dc_order_change_run:
  "dc_order_change E data s = Normal () (s\<lparr>trace := trace s @ Dispatch (U_Order (dc_order_update E data) (dce_stream_id E))
     # (case dce_find_order E (dc_order_update E data)
              (trace s @ [Dispatch (U_Order (dc_order_update E data) (dce_stream_id E))]) of
          Some order \<Rightarrow> if dc_is_match data then [Dispatch (U_Trade (dc_trade_update E data order) (or_user_id order))] else []
        | None \<Rightarrow> [])\<rparr>)"
  by (auto simp: dc_order_change_def exec_simps Let_def split: option.splits)

subsection \<open>Properties\<close>

text \<open>
  Whatever happens on the private websocket, in whatever order, at most one token request is
  under way per drop copy: from a request for a new token until the connection is resumed with a
  token that differs, no further request is made, however many expired-token errors arrive.
\<close>

theorem private_token_single_flight:
  "single_flight False (trace (run_events (drop_copy_step E) es (DropCopy_create E q)))"
proof -
  have "dc_token_inv (run_events (drop_copy_step E) es (DropCopy_create E q))"
    by (rule run_events_keeps [OF dc_step_token_inv])
      (simp add: dc_token_inv_def DropCopy_create_def)
  then show ?thesis by (simp add: dc_token_inv_def)
qed

text \<open>
  The drop copy says it is ready exactly if READY is the last status it told the server, and
  then its download ran to the end on this connection: it never says so after a disconnect until
  the download has reached its end again.
\<close>

theorem drop_copy_ready:
  "(dc_is_ready (run_events (drop_copy_step E) es (DropCopy_create E q))
      \<longleftrightarrow> published (trace (run_events (drop_copy_step E) es (DropCopy_create E q))) = ConnectionStatus_READY)
   \<and> (dc_is_ready (run_events (drop_copy_step E) es (DropCopy_create E q))
      \<longrightarrow> dc_ready (run_events (drop_copy_step E) es (DropCopy_create E q)))
   \<and> \<not> dc_is_ready (run_events (drop_copy_step E) (es @ [DC_Disconnected ti]) (DropCopy_create E q))"
proof -
  have "dc_ready_downloaded (run_events (drop_copy_step E) es (DropCopy_create E q))"
    by (rule run_events_keeps [OF dc_step_ready])
      (simp add: dc_ready_downloaded_def DropCopy_create_def)
  then show ?thesis
    using dc_stream.ready_iff_published [OF drop_copy_agrees]
    by (auto simp: dc_ready_downloaded_def dc_is_ready_def run_events_snoc drop_copy_step_def dc_disconnected_run)
qed

text \<open>
  Collecting the stale orders adds exactly the orders the server calls stale, by user and
  order id, never twice, forgets none, touches nothing else, and says whether any was new; the
  periodic check asks for a query exactly when one was, and at most once per configured period.
\<close>

theorem stale_orders_collected:
  "let called = trace s @ [Call ''get_all_stale_orders'']; stale = order_key ` set (dce_stale_orders E called) in
     (\<exists>keys. dc_collect_stale_orders E s =
        Normal (\<not> set keys \<subseteq> set (details_stale_orders s)) (s\<lparr>trace := called, details_stale_orders := keys\<rparr>)
      \<and> set keys = set (details_stale_orders s) \<union> stale
      \<and> distinct keys = distinct (details_stale_orders s))
   \<and> trace (final_state (dc_check_stale_orders E ti s)) =
       (if dc_next_check_stale_orders s < origin_create_time ti
        then called @ (if stale \<subseteq> set (details_stale_orders s) then [] else [ReqIssue Req_StaleOrders])
        else trace s)
   \<and> dc_next_check_stale_orders (final_state (dc_check_stale_orders E ti s)) =
       (if dc_next_check_stale_orders s < origin_create_time ti
        then origin_create_time ti + set_check_stale_order_freq (dce_settings E) else dc_next_check_stale_orders s)"
proof -
  let ?called = "trace s @ [Call ''get_all_stale_orders'']"
  let ?keys = "fold insert_key (map order_key (dce_stale_orders E ?called)) (details_stale_orders s)"
  have "dc_collect_stale_orders E s =
        Normal (\<not> set ?keys \<subseteq> set (details_stale_orders s)) (s\<lparr>trace := ?called, details_stale_orders := ?keys\<rparr>)"
    by (simp add: dc_collect_run Let_def)
  then have "\<exists>keys. dc_collect_stale_orders E s =
        Normal (\<not> set keys \<subseteq> set (details_stale_orders s)) (s\<lparr>trace := ?called, details_stale_orders := keys\<rparr>)
      \<and> set keys = set (details_stale_orders s) \<union> order_key ` set (dce_stale_orders E ?called)
      \<and> distinct keys = distinct (details_stale_orders s)"
    by (intro exI [of _ ?keys]) simp
  then show ?thesis
    unfolding Let_def by (intro conjI) (simp_all add: dc_collect_run Let_def dc_check_stale_orders_def exec_simps)
qed


definition sample_order_change :: order_change where
  "sample_order_change = \<lparr>oc_margin_mode = JMarginMode_ISOLATED, oc_status = JOrderStatus_MATCH,
     oc_type = JOrderUpdateType_MATCH, oc_symbol = ''XBTUSDTM'', oc_side = JSide_BUY, oc_order_type = JOrderType_LIMIT,
     oc_liquidity = JLiquidity_MAKER, oc_order_id = ''x1'', oc_client_oid = ''c1'', oc_trade_id = ''t1'',
     oc_price = Fin 100, oc_size = Fin 3, oc_filled_size = Fin 1, oc_remain_size = Fin 2, oc_match_size = Fin 1,
     oc_match_price = Fin 100, oc_position_side = JPositionSide_BOTH, oc_order_time_ns = 1, oc_ts_ns = 2\<rparr>"

definition sample_order_of_server :: oms_order where
  "sample_order_of_server = \<lparr>or_user_id = 1, or_order_id = 7, or_account = ''A1'', or_exchange = ''kucoin-futures'',
     or_symbol = ''XBTUSDTM'', or_side = Side_BUY, or_position_effect = PositionEffect_UNDEFINED,
     or_margin_mode = MarginMode_ISOLATED, or_external_order_id = ''x1'', or_client_order_id = ''c1'',
     or_routing_id = [], or_strategy_id = 0\<rparr>"

definition sample_drop_copy_env :: drop_copy_env where
  "sample_drop_copy_env = \<lparr>dce_stream_id = 3, dce_account_name = ''A1'', dce_settings = sample_settings,
     dce_ping_frequency = ns_of_s 18, dce_connection = sample_connection, dce_decoders = no_decoders,
     dce_download_state = (\<lambda>_. DC_UNDEFINED), dce_download = (\<lambda>_. DlDone), dce_has_response = (\<lambda>_ _. False),
     dce_stale_orders = (\<lambda>_. []), dce_find_order = (\<lambda>_ _. Some sample_order_of_server),
     dce_is_zero = (\<lambda>x. value64 x = 0)\<rparr>"


text \<open>A welcome after which the download object goes straight to its end.\<close>

definition welcome_env :: drop_copy_env where
  "welcome_env = sample_drop_copy_env
     \<lparr>dce_decoders := no_decoders\<lparr>dec_message := (\<lambda>m. Inr (Type_WELCOME, Subject_UNDEFINED_INTERNAL))\<rparr>,
      dce_download := (\<lambda>tr. DlCall DC_DONE (\<lambda>n. DlDone))\<rparr>"

theorem drop_copy_ready_witness:
  "dc_ready (run_events (drop_copy_step welcome_env) [DC_Text sample_trace_info ''welcome'']
     (DropCopy_create welcome_env ''?token=1''))"
proof -
  have "dc_is_ready (run_events (drop_copy_step welcome_env) [DC_Text sample_trace_info ''welcome'']
      (DropCopy_create welcome_env ''?token=1''))"
    by (simp add: drop_copy_step_def dc_parse_def parser_dispatch_def welcome_env_def sample_drop_copy_env_def
        no_decoders_def dc_handle_def dc_download_call_def dc_download_def dc_report_run DropCopy_create_def
        dc_is_ready_def exec_simps)
  with drop_copy_ready [of welcome_env "[DC_Text sample_trace_info ''welcome'']" "''?token=1''"]
  show ?thesis by blast
qed

end
