(* ===== verification/Market_Data.thy ===== *)
theory Market_Data
  imports Parser Streams
begin

text \<open>
  \<open>gateway/market_data.cpp\<close>: one public websocket, serving one slice of the symbols. After the
  exchange's welcome it subscribes six topics for every symbol of its slice through a rate
  limited queue, publishes top of book, trades, statistics and order book changes, and pings.
  The queue, the connection, the table of symbols and the order book sequencers are external:
  their answers are the parameters \<open>market_data_env\<close>. Only the metric of bytes received is left out.
\<close>

subsection \<open>State\<close>

record market_data = ctx +
  md_request_id :: "64 word"
  md_welcome :: bool
  md_connection_status :: connection_status
  md_logon_timeout :: int
  md_next_ping :: int

record market_data_env =
  mde_stream_id :: "16 word"
  mde_index :: nat
  mde_settings :: settings
  mde_api :: api
  mde_ping_frequency :: int
  mde_connection :: connection_env
  mde_decoders :: decoders
  mde_from_chars :: "string \<Rightarrow> exn + f64"
  mde_get_slice :: "nat \<Rightarrow> nat \<Rightarrow> effect list \<Rightarrow> string list"
  mde_queue_dispatch :: "effect list \<Rightarrow> string list"
  mde_sequencer :: "effect list \<Rightarrow> sequencer_answer"
  mde_last_sequence :: "string \<Rightarrow> effect list \<Rightarrow> 64 word"
  mde_safe_cast :: "int \<Rightarrow> int"

definition MD_SUPPORTS :: "support_type set" where
  "MD_SUPPORTS = {Support_MARKET_STATUS, Support_TOP_OF_BOOK, Support_MARKET_BY_PRICE, Support_TRADE_SUMMARY,
     Support_STATISTICS}"

definition MD_REQUEST_ID :: "64 word" where
  "MD_REQUEST_ID = 1000000"

type_synonym md_stmt = "(market_data, exn, unit) stmt"

text \<open>\<open>None\<close>: the fatal log of a stream without a ping frequency.\<close>

definition MarketData_create :: "market_data_env \<Rightarrow> market_data option" where
  "MarketData_create E = (if mde_ping_frequency E = 0 then None else Some
     \<lparr>trace = [], md_request_id = ucast (mde_stream_id E) * MD_REQUEST_ID, md_welcome = False,
      md_connection_status = ConnectionStatus_UNDEFINED, md_logon_timeout = 0, md_next_ping = 0\<rparr>)"

definition md_is_ready :: "market_data \<Rightarrow> bool" where
  "md_is_ready s \<longleftrightarrow> md_connection_status s = ConnectionStatus_READY"

definition md_report :: "market_data_env \<Rightarrow> trace_info \<Rightarrow> connection_status \<Rightarrow> string \<Rightarrow> md_stmt" where
  "md_report E ti status reason = block
     [modify (\<lambda>s. s\<lparr>md_connection_status := status\<rparr>),
      reading id (\<lambda>s. dispatch (U_StreamStatus (make_stream_status (mde_connection E) (mde_stream_id E)
        [] MD_SUPPORTS Protocol_WS (md_connection_status s) reason (trace s))))]"

subsection \<open>Subscriptions and pings\<close>

definition subscribe_message :: "64 word \<Rightarrow> string \<Rightarrow> string \<Rightarrow> string" where
  \<open>subscribe_message request_id topic item = ''{'' @ ''"id":"'' @ fmt_nat (unat request_id) @ ''",'' @
     ''"type":"subscribe",'' @ ''"topic":"'' @ topic @ '':'' @ item @ ''",'' @ ''"response":true'' @ ''}''\<close>

definition md_subscribe_topic :: "string \<Rightarrow> string list \<Rightarrow> md_stmt" where
  "md_subscribe_topic topic symbols = block
     [assert_that (symbols \<noteq> []),
      for_each symbols (\<lambda>item. seqm
        (modify (\<lambda>s. s\<lparr>md_request_id := md_request_id s + 1\<rparr>))
        (reading md_request_id (\<lambda>request_id. emit (SubscribeQueuePush (subscribe_message request_id topic item)))))]"

definition md_subscribe_symbols :: "market_data_env \<Rightarrow> string list \<Rightarrow> md_stmt" where
  "md_subscribe_symbols E symbols = (if symbols = [] then skip else block
     [md_subscribe_topic (api_ticker (mde_api E)) symbols,
      md_subscribe_topic (api_execution (mde_api E)) symbols,
      md_subscribe_topic (api_instrument (mde_api E)) symbols,
      md_subscribe_topic (api_snapshot (mde_api E)) symbols,
      md_subscribe_topic (api_announcement (mde_api E)) symbols,
      md_subscribe_topic (api_level2 (mde_api E)) symbols])"

definition md_subscribe :: "market_data_env \<Rightarrow> nat \<Rightarrow> md_stmt" where
  "md_subscribe E start_from = reading md_is_ready (\<lambda>ready. whenm ready
     (ask ''symbols.get_slice'' (mde_get_slice E (mde_index E) start_from) (md_subscribe_symbols E)))"

definition md_check_subscribe_queue :: "market_data_env \<Rightarrow> md_stmt" where
  "md_check_subscribe_queue E = ask ''subscribe_queue.dispatch'' (mde_queue_dispatch E)
     (\<lambda>messages. for_each messages (\<lambda>message. emit (SendText message)))"

definition md_send_ping :: "market_data_env \<Rightarrow> int \<Rightarrow> md_stmt" where
  "md_send_ping E now = block
     [assert_that (0 < mde_ping_frequency E),
      modify (\<lambda>s. s\<lparr>md_next_ping := now + mde_ping_frequency E div 2\<rparr>),
      emit (SendText (ping_message now))]"

definition md_check_ping :: "market_data_env \<Rightarrow> int \<Rightarrow> md_stmt" where
  "md_check_ping E now = reading md_next_ping (\<lambda>next_ping. whenm (next_ping < now) (md_send_ping E now))"

subsection \<open>Messages\<close>

definition md_top_of_book :: "market_data_env \<Rightarrow> ticker_v2 \<Rightarrow> top_of_book" where
  "md_top_of_book E data =
     \<lparr>tob_stream_id = mde_stream_id E, tob_exchange = set_exchange (mde_settings E), tob_symbol = tv_symbol data,
      tob_bid_price = tv_best_bid_price data, tob_bid_quantity = tv_best_bid_size data,
      tob_ask_price = tv_best_ask_price data, tob_ask_quantity = tv_best_ask_size data,
      tob_update_type = UpdateType_SNAPSHOT, tob_exchange_time_utc = tv_ts_ns data\<rparr>"

definition md_trade_summary :: "market_data_env \<Rightarrow> match_message \<Rightarrow> trade_summary" where
  "md_trade_summary E data =
     \<lparr>ts_stream_id = mde_stream_id E, ts_exchange = set_exchange (mde_settings E), ts_symbol = mt_symbol data,
      ts_trades = [\<lparr>tr_side = map_side (mt_side data), tr_price = mt_price data, tr_quantity = mt_size data,
        tr_trade_id = mt_trade_id data, tr_taker_order_id = mt_taker_order_id data,
        tr_maker_order_id = mt_maker_order_id data\<rparr>],
      ts_exchange_time_utc = mt_ts_ns data, ts_exchange_sequence = mt_sequence data\<rparr>"

definition md_statistics :: "market_data_env \<Rightarrow> string \<Rightarrow> statistics list \<Rightarrow> int \<Rightarrow> statistics_update" where
  "md_statistics E symb stats t =
     \<lparr>su_stream_id = mde_stream_id E, su_exchange = set_exchange (mde_settings E), su_symbol = symb,
      su_statistics = stats, su_update_type = UpdateType_INCREMENTAL, su_exchange_time_utc = t\<rparr>"

definition stat :: "statistics_type \<Rightarrow> f64 \<Rightarrow> statistics" where
  "stat t v = \<lparr>st_type = t, st_value = v, st_begin_time_utc = 0\<rparr>"

definition md_mark_index_price :: "market_data_env \<Rightarrow> mark_index_price \<Rightarrow> statistics_update" where
  "md_mark_index_price E m = md_statistics E (strip_symbol_from_topic (mi_topic m))
     [stat SETTLEMENT_PRICE (mi_mark_price m), stat INDEX_VALUE (mi_index_price m)] (ns_of_ms (mi_timestamp_ms m))"

definition md_funding_rate :: "market_data_env \<Rightarrow> funding_rate \<Rightarrow> statistics_update" where
  "md_funding_rate E m = md_statistics E (strip_symbol_from_topic (fr_topic m))
     [stat FUNDING_RATE (fr_funding_rate m)] (ns_of_ms (fr_timestamp_ms m))"

definition md_funding_begin :: "market_data_env \<Rightarrow> funding_event \<Rightarrow> statistics_update" where
  "md_funding_begin E data = md_statistics E (fe_symbol data)
     [\<lparr>st_type = FUNDING_RATE_PREDICTION, st_value = fe_funding_rate data,
       st_begin_time_utc = mde_safe_cast E (fe_funding_time_ms data)\<rparr>] (ns_of_ms (fe_timestamp_ms data))"

definition md_snapshot_24h :: "market_data_env \<Rightarrow> snapshot24h \<Rightarrow> statistics_update" where
  "md_snapshot_24h E data = md_statistics E (sn_symbol data)
     [stat HIGHEST_TRADED_PRICE (sn_high_price data), stat LOWEST_TRADED_PRICE (sn_low_price data),
      stat TRADE_VOLUME (sn_volume data)] (sn_ts_ns data)"

definition md_create_update ::
    "market_data_env \<Rightarrow> level2 \<Rightarrow> mbp_update list \<Rightarrow> mbp_update list \<Rightarrow> update_type \<Rightarrow> 64 word \<Rightarrow> market_by_price_update" where
  "md_create_update E m bids asks update_type exchange_sequence =
     \<lparr>mb_stream_id = mde_stream_id E, mb_exchange = set_exchange (mde_settings E),
      mb_symbol = strip_symbol_from_topic (l2_topic m), mb_bids = bids, mb_asks = asks, mb_update_type = update_type,
      mb_exchange_time_utc = ns_of_ms (l2_timestamp_ms m), mb_exchange_sequence = exchange_sequence,
      mb_sending_time_utc = 0\<rparr>"

text \<open>The three closures a change is sequenced with.\<close>

definition md_sequencer_call :: "market_data_env \<Rightarrow> level2 \<Rightarrow> sequencer_call \<Rightarrow> md_stmt" where
  "md_sequencer_call E m c = (let symb = strip_symbol_from_topic (l2_topic m) in case c of
     PublishUpdate bids asks \<Rightarrow>
       dispatch (U_MarketByPrice (md_create_update E m bids asks UpdateType_INCREMENTAL (l2_sequence m)))
   | PublishSnapshot bids asks sequence \<Rightarrow>
       ask ''sequencer.last_sequence'' (mde_last_sequence E symb) (\<lambda>last_sequence. block
         [dispatch (U_MarketByPrice (md_create_update E m bids asks UpdateType_SNAPSHOT last_sequence)),
          emit (SequencerApply symb sequence)])
   | RequestSnapshot retries \<Rightarrow> request_snapshot (mde_settings E) symb retries)"

definition md_level2 :: "market_data_env \<Rightarrow> level2 \<Rightarrow> md_stmt" where
  "md_level2 E m = (let symb = strip_symbol_from_topic (l2_topic m);
       first_sequence = l2_sequence m; last_sequence = l2_sequence m; previous_sequence = l2_sequence m - 1
     in bindm (lift_sum (split_change (mde_from_chars E) (l2_change m))) (\<lambda>(sd, price, quantity).
       let mbp_update = \<lparr>mbp_price = price, mbp_quantity = quantity\<rparr>;
           bids = if sd = Side_BUY then [mbp_update] else [];
           asks = if sd = Side_SELL then [mbp_update] else []
       in with_resubscribe symb (seqm
            (emit (SequencerUpdate symb bids asks first_sequence last_sequence previous_sequence))
            (reading trace (\<lambda>tr. run_sequencer (md_sequencer_call E m) (mde_sequencer E tr))))))"

definition md_error :: "market_data_env \<Rightarrow> error_message \<Rightarrow> md_stmt" where
  "md_error E error = (if er_code error = 401 \<and> er_data error = ''token is expired''
     then whenm (set_crash_on_expired_token (mde_settings E)) (fatal ''Abort'') else skip)"

definition md_welcome_message :: "market_data_env \<Rightarrow> trace_info \<Rightarrow> md_stmt" where
  "md_welcome_message E ti = block
     [emit (ConnTouch (source_receive_time ti)),
      modify (\<lambda>s. s\<lparr>md_welcome := True\<rparr>),
      md_report E ti ConnectionStatus_READY [],
      md_subscribe E 0]"

definition md_handle :: "market_data_env \<Rightarrow> trace_info \<Rightarrow> ws_event \<Rightarrow> md_stmt" where
  "md_handle E ti ev = (let touch = emit (ConnTouch (source_receive_time ti)) in case ev of
     Ev_Welcome \<Rightarrow> md_welcome_message E ti
   | Ev_Error error \<Rightarrow> md_error E error
   | Ev_Pong \<Rightarrow> skip
   | Ev_Ack i \<Rightarrow> skip
   | Ev_TickerV2 data \<Rightarrow> block [touch, dispatch (U_TopOfBook (md_top_of_book E data))]
   | Ev_Match data \<Rightarrow> block [touch, dispatch (U_TradeSummary (md_trade_summary E data))]
   | Ev_Execution \<Rightarrow> fatal ''Unexpected: execution''
   | Ev_MarkIndexPrice m \<Rightarrow> block [touch, dispatch (U_Statistics (md_mark_index_price E m))]
   | Ev_FundingRate m \<Rightarrow> block [touch, dispatch (U_Statistics (md_funding_rate E m))]
   | Ev_Level2 m \<Rightarrow> block [touch, md_level2 E m]
   | Ev_FundingBegin data \<Rightarrow> block [touch, dispatch (U_Statistics (md_funding_begin E data))]
   | Ev_FundingEnd data \<Rightarrow> touch
   | Ev_Snapshot24h data \<Rightarrow> block [touch, dispatch (U_Statistics (md_snapshot_24h E data))]
   | Ev_WalletBalanceChange data \<Rightarrow> fatal ''Unexpected''
   | Ev_OrderMarginChange \<Rightarrow> fatal ''Unexpected''
   | Ev_AvailableBalanceChange \<Rightarrow> fatal ''Unexpected''
   | Ev_WithdrawHoldChange \<Rightarrow> fatal ''Unexpected''
   | Ev_PositionChange data \<Rightarrow> fatal ''Unexpected''
   | Ev_PositionSettlement \<Rightarrow> fatal ''Unexpected''
   | Ev_PositionAdjustRiskLimit \<Rightarrow> fatal ''Unexpected''
   | Ev_SymbolOrderChange data \<Rightarrow> fatal ''Unexpected''
   | Ev_OrderChange data \<Rightarrow> fatal ''Unexpected'')"

definition md_parse :: "market_data_env \<Rightarrow> trace_info \<Rightarrow> string \<Rightarrow> md_stmt" where
  "md_parse E ti message = try_catch
     (bindm (parser_dispatch (mde_decoders E) (md_handle E ti) message
        (set_allow_unknown_event_types (mde_settings E))) (\<lambda>handled. skip))
     (\<lambda>e. fatal ''terminate'')"

subsection \<open>Events\<close>

datatype market_data_event =
    MD_Start | MD_Stop | MD_Timer trace_info int | MD_Subscribe nat
  | MD_Connected trace_info | MD_Disconnected trace_info | MD_Ready | MD_Close
  | MD_Latency int | MD_Text trace_info string | MD_Binary

definition md_timer :: "market_data_env \<Rightarrow> int \<Rightarrow> md_stmt" where
  "md_timer E now = ask ''refresh'' (conn_refresh (mde_connection E)) (\<lambda>refresh. whenm refresh
     (ask ''ready'' (conn_ready (mde_connection E)) (\<lambda>connected.
        if connected then reading md_welcome (\<lambda>welcome. whenm welcome (block
          [md_check_ping E now,
           md_check_subscribe_queue E]))
        else reading id (\<lambda>s. whenm (md_logon_timeout s \<noteq> 0 \<and> md_logon_timeout s < now) (block
          [assert_that (\<not> md_welcome s),
           emit ConnClose])))))"

definition md_connected :: "market_data_env \<Rightarrow> trace_info \<Rightarrow> md_stmt" where
  "md_connected E ti = block
     [reading md_logon_timeout (\<lambda>t. assert_that (t = 0)),
      modify (\<lambda>s. s\<lparr>md_logon_timeout := origin_create_time ti + set_ws_request_timeout (mde_settings E)\<rparr>)]"

definition md_disconnected :: "market_data_env \<Rightarrow> trace_info \<Rightarrow> md_stmt" where
  "md_disconnected E ti = block
     [emit CountDisconnect,
      md_report E ti ConnectionStatus_DISCONNECTED [],
      modify (\<lambda>s. s\<lparr>md_welcome := False\<rparr>),
      modify (\<lambda>s. s\<lparr>md_logon_timeout := 0\<rparr>),
      modify (\<lambda>s. s\<lparr>md_next_ping := 0\<rparr>),
      emit SequencersClear]"

definition market_data_step :: "market_data_env \<Rightarrow> market_data_event \<Rightarrow> md_stmt" where
  "market_data_step E e = (case e of
     MD_Start \<Rightarrow> emit ConnStart
   | MD_Stop \<Rightarrow> emit ConnStop
   | MD_Timer ti now \<Rightarrow> md_timer E now
   | MD_Subscribe start_from \<Rightarrow> md_subscribe E start_from
   | MD_Connected ti \<Rightarrow> md_connected E ti
   | MD_Disconnected ti \<Rightarrow> md_disconnected E ti
   | MD_Ready \<Rightarrow> skip
   | MD_Close \<Rightarrow> skip
   | MD_Latency sample \<Rightarrow> dispatch (U_ExternalLatency (mde_stream_id E) [] sample)
   | MD_Text ti payload \<Rightarrow> md_parse E ti payload
   | MD_Binary \<Rightarrow> fatal ''Unexpected'')"

subsection \<open>Invariants through every handler\<close>

text \<open>What reaches the exchange, at once or through the queue.\<close>

fun outgoing :: "effect \<Rightarrow> bool" where
  "outgoing (SendText m) = True"
| "outgoing (SubscribeQueuePush m) = True"
| "outgoing _ = False"

definition md_plain_update :: "(market_data \<Rightarrow> market_data) \<Rightarrow> bool" where
  "md_plain_update f \<longleftrightarrow> (\<forall>s. trace (f s) = trace s \<and> md_welcome (f s) = md_welcome s
     \<and> md_next_ping (f s) = md_next_ping s \<and> md_connection_status (f s) = md_connection_status s)"

definition md_safe :: "market_data_env \<Rightarrow> (market_data \<Rightarrow> bool) \<Rightarrow> bool" where
  "md_safe E I \<longleftrightarrow> (\<forall>a. status_of_effect a = None \<longrightarrow> \<not> outgoing a \<longrightarrow> keeps I (emit a))
     \<and> (\<forall>f. md_plain_update f \<longrightarrow> keeps I (modify f :: md_stmt))
     \<and> (\<forall>now. keeps I (md_check_ping E now)) \<and> (\<forall>ti. keeps I (md_welcome_message E ti))
     \<and> (\<forall>n. keeps I (md_subscribe E n)) \<and> keeps I (md_check_subscribe_queue E)"

lemma md_safe_emit: "md_safe E I \<Longrightarrow> status_of_effect a = None \<Longrightarrow> \<not> outgoing a \<Longrightarrow> keeps I (emit a)"
  and md_safe_modify: "md_safe E I \<Longrightarrow> md_plain_update f \<Longrightarrow> keeps I (modify f :: md_stmt)"
  and md_safe_ping: "md_safe E I \<Longrightarrow> keeps I (md_check_ping E now)"
  and md_safe_welcome: "md_safe E I \<Longrightarrow> keeps I (md_welcome_message E ti)"
  and md_safe_subscribe: "md_safe E I \<Longrightarrow> keeps I (md_subscribe E n)"
  and md_safe_check_queue: "md_safe E I \<Longrightarrow> keeps I (md_check_subscribe_queue E)"
  by (auto simp: md_safe_def)

lemma md_safe_dispatch: "md_safe E I \<Longrightarrow> status_of_effect (Dispatch u) = None \<Longrightarrow> keeps I (dispatch u)"
  unfolding dispatch_def by (rule md_safe_emit) simp_all

lemma md_safe_ask: "md_safe E I \<Longrightarrow> (\<And>b. keeps I (k b)) \<Longrightarrow> keeps I (ask name answer k)"
  by (rule keeps_ask [OF md_safe_emit]) simp_all

lemmas md_safe_rules = md_safe_ask keeps_intros keeps_block md_safe_emit md_safe_dispatch md_safe_modify
  md_safe_ping md_safe_welcome md_safe_subscribe md_safe_check_queue

lemma keeps_md_subscribe:
  assumes emit: "\<And>a. status_of_effect a = None \<Longrightarrow> keeps I (emit a)"
    and modify: "\<And>f. md_plain_update f \<Longrightarrow> keeps I (modify f :: md_stmt)"
  shows "keeps I (md_subscribe E n)"
  unfolding md_subscribe_def md_subscribe_symbols_def md_subscribe_topic_def
  by (auto intro!: keeps_ask keeps_intros keeps_block emit modify simp: md_plain_update_def)

text \<open>An invariant that does not look at what is sent.\<close>

lemma md_safeI:
  assumes "\<And>a. status_of_effect a = None \<Longrightarrow> keeps I (emit a)" and "\<And>f. md_plain_update f \<Longrightarrow> keeps I (modify f :: md_stmt)"
    and "\<And>now. keeps I (md_check_ping E now)" and "\<And>ti. keeps I (md_welcome_message E ti)"
  shows "md_safe E I"
  using assms by (auto simp: md_safe_def md_check_subscribe_queue_def intro!: keeps_md_subscribe keeps_ask keeps_intros)

lemma md_safe_timer: "md_safe E I \<Longrightarrow> keeps I (md_timer E now)"
  unfolding md_timer_def by (auto intro!: md_safe_rules)

lemma md_safe_level2: "md_safe E I \<Longrightarrow> keeps I (md_level2 E m)"
  unfolding md_level2_def md_sequencer_call_def Let_def
  by (auto intro!: md_safe_rules keeps_with_resubscribe keeps_request_snapshot split: sequencer_call.splits prod.splits)

lemma md_safe_handle: "md_safe E I \<Longrightarrow> keeps I (md_handle E ti ev)"
  by (cases ev) (auto simp: md_handle_def md_error_def Let_def intro!: md_safe_rules md_safe_level2)

lemma md_safe_parse: "md_safe E I \<Longrightarrow> keeps I (md_parse E ti message)"
  unfolding md_parse_def by (intro keeps_intros keeps_parser_dispatch md_safe_handle)

lemma market_data_keeps:
  assumes safe: "md_safe E I" and lost: "\<And>ti. e = MD_Disconnected ti \<Longrightarrow> keeps I (md_disconnected E ti)"
  shows "keeps I (market_data_step E e)"
proof -
  have "keeps I (md_connected E ti)" for ti
    using safe unfolding md_connected_def by (auto intro!: md_safe_rules simp: md_plain_update_def)
  with safe lost show ?thesis
    by (cases e) (auto simp: market_data_step_def intro!: md_safe_rules md_safe_timer md_safe_parse)
qed

subsection \<open>The status contract\<close>

lemma md_report_run:
  "md_report E ti st reason s = Normal () (s\<lparr>md_connection_status := st, trace := trace s @
     [Dispatch (U_StreamStatus (make_stream_status (mde_connection E) (mde_stream_id E) []
       MD_SUPPORTS Protocol_WS st reason (trace s)))]\<rparr>)"
  by (simp add: md_report_def exec_simps)

interpretation md_stream: stream md_connection_status md_is_ready "md_report E" for E
  by unfold_locales (auto simp: md_is_ready_def md_report_run)

lemma md_disconnected_run:
  "md_disconnected E ti s = Normal () (s\<lparr>md_connection_status := ConnectionStatus_DISCONNECTED,
     md_welcome := False, md_logon_timeout := 0, md_next_ping := 0, trace := trace s @ [CountDisconnect,
       Dispatch (U_StreamStatus (make_stream_status (mde_connection E) (mde_stream_id E) []
         MD_SUPPORTS Protocol_WS ConnectionStatus_DISCONNECTED [] (trace s @ [CountDisconnect]))), SequencersClear]\<rparr>)"
  by (simp add: md_disconnected_def md_report_run exec_simps)

lemma md_check_ping_run:
  "md_check_ping E now s = (if now \<le> md_next_ping s then Normal () s
     else if mde_ping_frequency E \<le> 0 then Fatal ''assert'' s
     else Normal () (s\<lparr>md_next_ping := now + mde_ping_frequency E div 2, trace := trace s @ [SendText (ping_message now)]\<rparr>))"
  by (auto simp: md_check_ping_def md_send_ping_def exec_simps)

lemma md_welcome_message_run:
  "md_welcome_message E ti s = md_subscribe E 0 (s\<lparr>md_welcome := True, md_connection_status := ConnectionStatus_READY,
     trace := trace s @ [ConnTouch (source_receive_time ti),
       Dispatch (U_StreamStatus (make_stream_status (mde_connection E) (mde_stream_id E) []
         MD_SUPPORTS Protocol_WS ConnectionStatus_READY [] (trace s @ [ConnTouch (source_receive_time ti)])))]\<rparr>)"
  by (simp add: md_welcome_message_def md_report_run exec_simps split: outcome.splits)

definition md_consistent :: "market_data \<Rightarrow> bool" where
  "md_consistent s \<longleftrightarrow> published (trace s) = md_connection_status s
     \<and> (md_connection_status s = ConnectionStatus_READY \<longleftrightarrow> md_welcome s)"

lemma md_consistent_emit: "status_of_effect a = None \<Longrightarrow> keeps md_consistent (emit a)"
  by (rule keeps_emit) (simp add: md_consistent_def)

lemma md_consistent_modify: "md_plain_update f \<Longrightarrow> keeps md_consistent (modify f :: md_stmt)"
  by (rule keeps_modify) (simp add: md_consistent_def md_plain_update_def)

lemma md_safe_consistent: "md_safe E md_consistent"
proof (rule md_safeI)
  show "keeps md_consistent (md_check_ping E now)" for now
    by (rule keepsI) (simp add: md_consistent_def md_check_ping_run)
  show "keeps md_consistent (md_welcome_message E ti)" for ti
  proof (rule keepsI)
    fix s assume "md_consistent s"
    show "md_consistent (final_state (md_welcome_message E ti s))"
      unfolding md_welcome_message_run
      by (rule keepsD [OF keeps_md_subscribe [OF md_consistent_emit md_consistent_modify]])
        (simp_all add: md_consistent_def published_append)
  qed
qed (simp_all add: md_consistent_emit md_consistent_modify)

lemma market_data_consistent_kept: "keeps md_consistent (market_data_step E e)"
  by (rule market_data_keeps [OF md_safe_consistent])
    (rule keepsI, simp add: md_consistent_def md_disconnected_run published_append)

lemma market_data_consistent:
  assumes "MarketData_create E = Some s"
  shows "md_consistent (run_events (market_data_step E) es s)"
proof (rule run_events_keeps [OF market_data_consistent_kept])
  show "md_consistent s"
    using assms by (auto simp: MarketData_create_def md_consistent_def split: if_splits)
qed

subsection \<open>Subscriptions\<close>

definition topics :: "api \<Rightarrow> string list" where
  "topics A = [api_ticker A, api_execution A, api_instrument A, api_snapshot A, api_announcement A, api_level2 A]"

text \<open>What is queued for a list of topic and symbol pairs when the last used id is \<open>i\<close>.\<close>

fun numbered :: "64 word \<Rightarrow> (string \<times> string) list \<Rightarrow> effect list" where
  "numbered i [] = []"
| "numbered i ((topic, symb) # ps) = SubscribeQueuePush (subscribe_message (i + 1) topic symb) # numbered (i + 1) ps"

lemma numbered_append: "numbered i (ps @ qs) = numbered i ps @ numbered (i + of_nat (length ps)) qs"
  by (induction i ps rule: numbered.induct) (auto simp: algebra_simps)

lemma md_subscribe_topic_run:
  "symbols \<noteq> [] \<Longrightarrow> md_subscribe_topic topic symbols s = Normal ()
     (s\<lparr>md_request_id := md_request_id s + of_nat (length symbols),
        trace := trace s @ numbered (md_request_id s) (map (Pair topic) symbols)\<rparr>)"
proof -
  have "for_each symbols (\<lambda>item. seqm
        (modify (\<lambda>s. s\<lparr>md_request_id := md_request_id s + 1\<rparr>))
        (reading md_request_id (\<lambda>request_id. emit (SubscribeQueuePush (subscribe_message request_id topic item))))) s
     = Normal () (s\<lparr>md_request_id := md_request_id s + of_nat (length symbols),
        trace := trace s @ numbered (md_request_id s) (map (Pair topic) symbols)\<rparr>)"
    by (induction symbols arbitrary: s) (auto simp: exec_simps algebra_simps)
  then show "symbols \<noteq> [] \<Longrightarrow> ?thesis"
    by (simp add: md_subscribe_topic_def exec_simps)
qed

lemma product_Nil2: "List.product xs [] = []"
  by (induction xs) auto

lemma md_subscribe_symbols_run:
  "md_subscribe_symbols E symbols s = Normal ()
     (s\<lparr>md_request_id := md_request_id s + of_nat (6 * length symbols),
        trace := trace s @ numbered (md_request_id s) (List.product (topics (mde_api E)) symbols)\<rparr>)"
proof (cases "symbols = []")
  case True
  then show ?thesis by (simp add: md_subscribe_symbols_def product_Nil2 exec_simps)
next
  case False
  then show ?thesis
    by (simp add: md_subscribe_symbols_def md_subscribe_topic_run topics_def exec_simps numbered_append algebra_simps)
qed

lemma md_subscribe_returns: "returns (md_subscribe E n s)"
  by (simp add: md_subscribe_def md_subscribe_symbols_run exec_simps)

lemma md_check_subscribe_queue_run:
  "md_check_subscribe_queue E s = Normal () (s\<lparr>trace := trace s @ Call ''subscribe_queue.dispatch''
     # map SendText (mde_queue_dispatch E (trace s @ [Call ''subscribe_queue.dispatch'']))\<rparr>)"
proof -
  have "for_each ms (\<lambda>m. emit (SendText m)) s = Normal () (s\<lparr>trace := trace s @ map SendText ms\<rparr>)"
    for ms and s :: market_data
    by (induction ms arbitrary: s) (auto simp: seqm_def bindm_def emit_def modify_def skip_def)
  then show ?thesis
    by (simp add: md_check_subscribe_queue_def ask_def seqm_def bindm_def emit_def modify_def reading_def)
qed

subsection \<open>Properties\<close>

text \<open>
  C27. Subscribing: a stream that is ready queues, for every symbol of its slice, exactly one
  request for each of the six topics, topic by topic in the order of the slice, numbered with
  consecutive request ids after the last one used; a stream that is not ready queues nothing.
\<close>

theorem subscribes_every_topic_once:
  "md_subscribe E start_from s = (
     let called = trace s @ [Call ''symbols.get_slice''];
         symbols = mde_get_slice E (mde_index E) start_from called
     in if md_is_ready s
        then Normal () (s\<lparr>md_request_id := md_request_id s + of_nat (6 * length symbols),
          trace := called @ numbered (md_request_id s) (List.product (topics (mde_api E)) symbols)\<rparr>)
        else Normal () s)
   \<and> length (numbered i ps) = length ps
   \<and> (\<forall>n < length ps. numbered i ps ! n = SubscribeQueuePush
        (subscribe_message (i + of_nat n + 1) (fst (ps ! n)) (snd (ps ! n))))"
proof (intro conjI)
  show "length (numbered i ps) = length ps"
    by (induction i ps rule: numbered.induct) auto
  show "\<forall>n < length ps. numbered i ps ! n = SubscribeQueuePush
      (subscribe_message (i + of_nat n + 1) (fst (ps ! n)) (snd (ps ! n)))"
  proof (induction i ps rule: numbered.induct)
    case (2 i topic symb ps)
    show ?case
    proof (intro allI impI)
      fix n assume "n < length ((topic, symb) # ps)"
      with 2 show "numbered i ((topic, symb) # ps) ! n = SubscribeQueuePush
          (subscribe_message (i + of_nat n + 1) (fst (((topic, symb) # ps) ! n)) (snd (((topic, symb) # ps) ! n)))"
        by (cases n) (auto simp: algebra_simps)
    qed
  qed simp
qed (simp add: md_subscribe_def md_subscribe_symbols_run exec_simps Let_def)


definition sample_market_data_env :: market_data_env where
  "sample_market_data_env = \<lparr>mde_stream_id = 4, mde_index = 0, mde_settings = sample_settings, mde_api = API_create,
     mde_ping_frequency = ns_of_s 18, mde_connection = sample_connection,
     mde_decoders = no_decoders\<lparr>dec_message := (\<lambda>m. Inr (Type_WELCOME, Subject_UNDEFINED_INTERNAL))\<rparr>,
     mde_from_chars = (\<lambda>s. Inr (Fin (of_nat (decimal_value s)))), mde_get_slice = (\<lambda>i n tr. [''XBTUSDTM'']),
     mde_queue_dispatch = (\<lambda>tr. []), mde_sequencer = (\<lambda>tr. \<lparr>sq_calls = [RequestSnapshot 1], sq_bad_state = True\<rparr>),
     mde_last_sequence = (\<lambda>_ _. 0), mde_safe_cast = (\<lambda>t. t)\<rparr>"

definition sample_market_data :: market_data where
  "sample_market_data = \<lparr>trace = [], md_request_id = 4 * MD_REQUEST_ID, md_welcome = False,
      md_connection_status = ConnectionStatus_UNDEFINED, md_logon_timeout = 0, md_next_ping = 0\<rparr>"

lemma sample_market_data_create: "MarketData_create sample_market_data_env = Some sample_market_data"
  by (simp add: MarketData_create_def sample_market_data_env_def sample_market_data_def ns_of_s_def)


theorem subscribes_every_topic_once_witness:
  "numbered 7 [(''/contractMarket/level2'', ''XBTUSDTM'')] ! 0
     = SubscribeQueuePush (subscribe_message 8 ''/contractMarket/level2'' ''XBTUSDTM'')"
  using subscribes_every_topic_once [of _ _ _ 7 "[(''/contractMarket/level2'', ''XBTUSDTM'')]"] by simp

text \<open>
  C38. Keep-alive: on one connection two pings are more than half the ping period apart. After a
  ping at one time, and any events short of a disconnect, a timer up to half a period later
  leaves the ping state alone and sends nothing but what the subscription queue hands out.
\<close>

theorem pings_spaced:
  assumes "0 < mde_ping_frequency E"
    and "\<And>ti. MD_Disconnected ti \<notin> set es"
    and "s2 = run_events (market_data_step E) es (final_state (md_send_ping E t1 s))"
    and "t2 \<le> t1 + mde_ping_frequency E div 2"
  shows "md_next_ping (final_state (md_timer E t2 s2)) = md_next_ping s2
    \<and> (\<exists>messages. filter outgoing (trace (final_state (md_timer E t2 s2)))
          = filter outgoing (trace s2) @ map SendText messages
        \<and> (messages = [] \<or> (\<exists>tr. messages = mde_queue_dispatch E tr)))"
proof -
  let ?k = "t1 + mde_ping_frequency E div 2"
  let ?I = "\<lambda>s :: market_data. ?k \<le> md_next_ping s"
  have safe: "md_safe E ?I"
  proof (rule md_safeI)
    show "keeps ?I (emit a)" for a by (rule keeps_emit) simp
    show "keeps ?I (modify f :: md_stmt)" if "md_plain_update f" for f
      using that by (intro keeps_modify) (simp add: md_plain_update_def)
    show "keeps ?I (md_check_ping E now)" for now
      using assms(1) by (intro keepsI) (auto simp: md_check_ping_run)
    show "keeps ?I (md_welcome_message E ti)" for ti
    proof (rule keepsI)
      fix s :: market_data assume "?k \<le> md_next_ping s"
      then show "?k \<le> md_next_ping (final_state (md_welcome_message E ti s))"
        unfolding md_welcome_message_run
        by (intro keepsD [of ?I, OF keeps_md_subscribe])
          (auto intro!: keeps_emit keeps_modify simp: md_plain_update_def)
    qed
  qed
  have steps: "?I (run_events (market_data_step E) es s)" if "\<And>ti. MD_Disconnected ti \<notin> set es" and "?I s" for es s
    using that
  proof (induction es arbitrary: s)
    case (Cons e es)
    have "keeps ?I (market_data_step E e)"
      using Cons.prems(1) by (intro market_data_keeps [OF safe]) auto
    then have "?I (final_state (market_data_step E e s))"
      using Cons.prems(2) by (rule keepsD)
    with Cons show ?case by auto
  qed simp
  have "?I (final_state (md_send_ping E t1 s))"
    using assms(1) by (simp add: md_send_ping_def exec_simps)
  with steps assms(2,3) have "t2 \<le> md_next_ping s2" using assms(4) by fastforce
  have outs: "filter outgoing (map SendText ms) = map SendText ms" for ms by (induction ms) auto
  from \<open>t2 \<le> md_next_ping s2\<close> show ?thesis
    by (auto simp: md_timer_def md_check_ping_run md_check_subscribe_queue_run exec_simps outs split: if_splits)
qed

theorem pings_spaced_witness:
  "md_next_ping (final_state (md_timer sample_market_data_env (ns_of_s 9)
     (run_events (market_data_step sample_market_data_env) [MD_Text sample_trace_info ''welcome'']
       (final_state (md_send_ping sample_market_data_env 0 sample_market_data))))) = ns_of_s 9"
proof -
  have f: "0 < mde_ping_frequency sample_market_data_env" "ns_of_s 9 \<le> 0 + mde_ping_frequency sample_market_data_env div 2"
    by (simp_all add: sample_market_data_env_def ns_of_s_def)
  have "md_next_ping (run_events (market_data_step sample_market_data_env) [MD_Text sample_trace_info ''welcome'']
       (final_state (md_send_ping sample_market_data_env 0 sample_market_data))) = ns_of_s 9"
    by (simp add: market_data_step_def md_parse_def parser_dispatch_def md_handle_def md_welcome_message_run
        md_subscribe_def md_is_ready_def md_subscribe_symbols_run md_send_ping_def sample_market_data_env_def no_decoders_def
        sample_market_data_def ns_of_s_def exec_simps)
  with pings_spaced [OF f(1) _ refl f(2), of "[MD_Text sample_trace_info ''welcome'']"] show ?thesis by simp
qed

lemma md_sequencer_call_carries_out:
  assumes "within_retries (mde_settings E) [c]"
  shows "\<exists>as. md_sequencer_call E m c s = Normal () (s\<lparr>trace := trace s @ as\<rparr>)
      \<and> carries_out (strip_symbol_from_topic (l2_topic m)) [c] as"
  using assms
  by (cases c) (auto simp: md_sequencer_call_def Let_def request_snapshot_def exec_simps carries_out_def
      md_create_update_def within_retries_def)

text \<open>A change, from the split of its text to the end of what the sequencer does with it.\<close>

lemma md_level2_run:
  assumes "split_change (mde_from_chars E) (l2_change m) = Inr (sd, price, quantity)"
    and "symb = strip_symbol_from_topic (l2_topic m)"
    and "level = [\<lparr>mbp_price = price, mbp_quantity = quantity\<rparr>]"
    and "called = trace s @ [SequencerUpdate symb (if sd = Side_BUY then level else [])
      (if sd = Side_SELL then level else []) (l2_sequence m) (l2_sequence m) (l2_sequence m - 1)]"
    and "within_retries (mde_settings E) (sq_calls (mde_sequencer E called))"
  shows "\<exists>as. md_level2 E m s = Normal () (s\<lparr>trace := called @ as @
        (if sq_bad_state (mde_sequencer E called) then [SequencerClear symb, DepthQueuePush symb] else [])\<rparr>)
      \<and> carries_out symb (sq_calls (mde_sequencer E called)) as"
proof -
  have calls: "\<exists>as. md_sequencer_call E m c s = Normal () (s\<lparr>trace := trace s @ as\<rparr>) \<and> carries_out symb [c] as"
    if "c \<in> set (sq_calls (mde_sequencer E called))" for c s
    unfolding assms(2) using that assms(5)
    by (intro md_sequencer_call_carries_out) (auto simp: within_retries_def)
  have "md_level2 E m s = with_resubscribe symb (run_sequencer (md_sequencer_call E m) (mde_sequencer E called))
      (s\<lparr>trace := called\<rparr>)"
    using assms(1-4) by (simp add: md_level2_def Let_def with_resubscribe_def exec_simps)
  with with_resubscribe_sequencer [OF calls, where s = "s\<lparr>trace := called\<rparr>"] show ?thesis
    by auto
qed

text \<open>
  C6. Order book changes: a change that splits into side, price and size is handed to the
  symbol's sequencer as that one level on its side, with its sequence number following the
  previous one; everything the sequencer publishes in answer reaches the server for that symbol,
  in order and as the kind it is; every snapshot it asks for is queued; and a \<open>BadState\<close> clears
  the sequencer and queues a snapshot instead of leaving the handler.
\<close>

theorem level2_sequenced:
  assumes "split_change (mde_from_chars E) (l2_change m) = Inr (sd, price, quantity)"
    and "symb = strip_symbol_from_topic (l2_topic m)"
    and "level = [\<lparr>mbp_price = price, mbp_quantity = quantity\<rparr>]"
    and "called = trace s @ [SequencerUpdate symb (if sd = Side_BUY then level else [])
      (if sd = Side_SELL then level else []) (l2_sequence m) (l2_sequence m) (l2_sequence m - 1)]"
    and "within_retries (mde_settings E) (sq_calls (mde_sequencer E called))"
  shows "\<exists>as. md_level2 E m s = Normal () (s\<lparr>trace := called @ as @
        (if sq_bad_state (mde_sequencer E called) then [SequencerClear symb, DepthQueuePush symb] else [])\<rparr>)
      \<and> carries_out symb (sq_calls (mde_sequencer E called)) as"
  using assms by (rule md_level2_run)

definition sample_level2 :: level2 where
  "sample_level2 = \<lparr>l2_topic = ''/contractMarket/level2:XBTUSDTM'', l2_sequence = 18, l2_change = ''5000,sell,83'',
     l2_timestamp_ms = 1\<rparr>"

theorem level2_sequenced_witness:
  "\<exists>as. md_level2 sample_market_data_env sample_level2 sample_market_data = Normal () (sample_market_data\<lparr>trace :=
       [SequencerUpdate ''XBTUSDTM'' [] [\<lparr>mbp_price = Fin 5000, mbp_quantity = Fin 83\<rparr>] 18 18 17] @ as
        @ [SequencerClear ''XBTUSDTM'', DepthQueuePush ''XBTUSDTM'']\<rparr>)
      \<and> filter (\<lambda>a. a = DepthQueuePush ''XBTUSDTM'') as = [DepthQueuePush ''XBTUSDTM'']"
proof -
  let ?E = sample_market_data_env
  have chars: "split_change (mde_from_chars ?E) (l2_change sample_level2) = Inr (Side_SELL, Fin 5000, Fin 83)"
    by (simp add: split_change_def sample_market_data_env_def sample_level2_def split_first_def to_side_def
        decimal_value_def digit_value_def)
  have symb: "''XBTUSDTM'' = strip_symbol_from_topic (l2_topic sample_level2)"
    by (simp add: strip_symbol_from_topic_def after_last_def sample_level2_def)
  have "within_retries (mde_settings ?E) (sq_calls (mde_sequencer ?E tr))" for tr
    by (simp add: within_retries_def sample_market_data_env_def sample_settings_def)
  from level2_sequenced [OF chars symb refl refl this, of sample_market_data] show ?thesis
    by (auto simp: sample_level2_def sample_market_data_def sample_market_data_env_def carries_out_def)
qed

end
