(* ===== verification/Rest_Stream.thy ===== *)
theory Rest_Stream
  imports Protocol_Types Json_Utils Streams
begin

text \<open>
  \<open>gateway/rest.cpp\<close>: the public REST stream. It downloads the public token and the contracts,
  tells the controller the token and the new symbols, publishes reference data and market status,
  and fetches the order book snapshots that were queued. The download object, the queue, the
  sequencers, the server's symbol filter and the JSON decoders are external: their answers are the
  parameters \<open>rest_env\<close>. The table of known symbols is shared with the controller, which only ever
  adds to it: that is the event \<open>RE_Subscribed\<close>.
\<close>

subsection \<open>State\<close>

datatype re_state = RE_UNDEFINED | PUBLIC_TOKEN | CONTRACTS | RE_DONE

definition re_state_index :: "re_state \<Rightarrow> nat" where
  "re_state_index st = (case st of RE_UNDEFINED \<Rightarrow> 0 | PUBLIC_TOKEN \<Rightarrow> 1 | CONTRACTS \<Rightarrow> 2 | RE_DONE \<Rightarrow> 3)"

record rest = ctx +
  re_connection_status :: connection_status
  re_all_symbols :: "string set"

record rest_env =
  ree_stream_id :: "16 word"
  ree_settings :: settings
  ree_api :: api
  ree_connection :: connection_env
  ree_token :: "string \<Rightarrow> exn + token"
  ree_contracts :: "string \<Rightarrow> exn + contracts_ack"
  ree_order_book :: "string \<Rightarrow> exn + order_book_ack"
  ree_downloading :: "effect list \<Rightarrow> bool"
  ree_sequence :: "effect list \<Rightarrow> 32 word"
  ree_skip :: "32 word \<Rightarrow> re_state \<Rightarrow> effect list \<Rightarrow> bool"
  ree_download :: "effect list \<Rightarrow> re_state dl_run"
  ree_depth_dispatch :: "effect list \<Rightarrow> string list"
  ree_discard_symbol :: "string \<Rightarrow> effect list \<Rightarrow> bool"
  ree_sequencer :: "effect list \<Rightarrow> sequencer_answer"
  ree_last_sequence :: "string \<Rightarrow> effect list \<Rightarrow> 64 word"
  ree_safe_cast_date :: "int \<Rightarrow> int"
  ree_safe_cast_datetime :: "int \<Rightarrow> int"

definition RE_SUPPORTS :: "support_type set" where
  "RE_SUPPORTS = {Support_REFERENCE_DATA, Support_MARKET_STATUS}"

definition RE_SYSTEM_CODE_SUCCESS :: int where
  "RE_SYSTEM_CODE_SUCCESS = 200000"

type_synonym re_stmt = "(rest, exn, unit) stmt"

definition Rest_create :: rest where
  "Rest_create = \<lparr>trace = [], re_connection_status = ConnectionStatus_UNDEFINED, re_all_symbols = {}\<rparr>"

definition re_is_ready :: "rest \<Rightarrow> bool" where
  "re_is_ready s \<longleftrightarrow> re_connection_status s = ConnectionStatus_READY"

definition re_report :: "rest_env \<Rightarrow> trace_info \<Rightarrow> connection_status \<Rightarrow> string \<Rightarrow> re_stmt" where
  "re_report E ti status reason = block
     [modify (\<lambda>s. s\<lparr>re_connection_status := status\<rparr>),
      reading id (\<lambda>s. dispatch (U_StreamStatus (make_stream_status (ree_connection E) (ree_stream_id E)
        [] RE_SUPPORTS Protocol_HTTP (re_connection_status s) reason (trace s))))]"

subsection \<open>Requests\<close>

definition re_request :: "http_method \<Rightarrow> string \<Rightarrow> string \<Rightarrow> rest_request" where
  "re_request method path query = \<lparr>rq_method = method, rq_path = path, rq_query = query, rq_headers = [],
     rq_body = [], rq_json_content = False, rq_immediate = False\<rparr>"

definition get_public_token :: "rest_env \<Rightarrow> re_stmt" where
  "get_public_token E = ask ''download.sequence'' (ree_sequence E) (\<lambda>sequence.
     emit (SendRequest (re_request POST (api_bullet_public (ree_api E)) []) ''public_token'' (CbPublicToken sequence)))"

definition get_contracts :: "rest_env \<Rightarrow> re_stmt" where
  "get_contracts E = ask ''download.sequence'' (ree_sequence E) (\<lambda>sequence.
     emit (SendRequest (re_request GET (api_contracts_active (ree_api E)) []) ''contracts'' (CbContracts sequence)))"

definition get_order_book :: "rest_env \<Rightarrow> string \<Rightarrow> re_stmt" where
  "get_order_book E symb = emit (SendRequest
     (re_request GET (api_level2_snapshot (ree_api E)) (''?symbol='' @ symb)) ''order_book'' (CbOrderBook symb))"

definition re_download :: "rest_env \<Rightarrow> trace_info \<Rightarrow> re_state \<Rightarrow> (rest, exn, int) stmt" where
  "re_download E ti st = (case st of
     RE_UNDEFINED \<Rightarrow> fatal ''assert''
   | PUBLIC_TOKEN \<Rightarrow>
       seqm (block [re_report E ti ConnectionStatus_DOWNLOADING ''public-token'', get_public_token E]) (ret 1)
   | CONTRACTS \<Rightarrow>
       seqm (block [re_report E ti ConnectionStatus_DOWNLOADING ''contracts'', get_contracts E]) (ret 1)
   | RE_DONE \<Rightarrow> seqm (re_report E ti ConnectionStatus_READY []) (ret 0))"

text \<open>Calls into the download object; \<open>retry\<close> and \<open>reset\<close> pass no event, so they do not call back.\<close>

definition re_download_call :: "rest_env \<Rightarrow> trace_info \<Rightarrow> effect \<Rightarrow> re_stmt" where
  "re_download_call E ti a = seqm (emit a)
     (reading trace (\<lambda>tr. run_download (re_download E ti) (ree_download E tr)))"

definition re_retry :: "re_state \<Rightarrow> rest error_handler" where
  "re_retry st = (\<lambda>orig status err text. emit (DlRetry (re_state_index st)))"

subsection \<open>Public token\<close>

definition re_token :: "token \<Rightarrow> re_stmt" where
  "re_token token = (case tk_instance_servers token of
     [] \<Rightarrow> fatal ''Unexpected: no instance servers''
   | instance_server # _ \<Rightarrow>
       let public_token = PublicToken (is_endpoint instance_server) (''?token='' @ tk_token token)
             (ns_of_ms (is_ping_interval_ms instance_server))
       in if pt_ping_frequency public_token = 0 then fatal ''Unexpected: ping_interval''
          else emit (Notify public_token))"

definition get_public_token_ack :: "rest_env \<Rightarrow> trace_info \<Rightarrow> rest_response \<Rightarrow> 32 word \<Rightarrow> re_stmt" where
  "get_public_token_ack E ti response sequence =
     rest_process_response response (re_retry PUBLIC_TOKEN) (\<lambda>body.
       ask ''download.skip'' (ree_skip E sequence PUBLIC_TOKEN) (\<lambda>skipped.
         if skipped then skip
         else bindm (lift_sum (ree_token E body)) (\<lambda>token.
           if tk_code token = RE_SYSTEM_CODE_SUCCESS
           then block [re_token token, re_download_call E ti (DlCheck (re_state_index PUBLIC_TOKEN))]
           else fatal ''Unexpected: token'')))"

subsection \<open>Contracts\<close>

definition re_security_type :: "json_contract_type \<Rightarrow> security_type" where
  "re_security_type t = (case t of FFWCSX \<Rightarrow> SecurityType_SWAP | FFICSX \<Rightarrow> SecurityType_FUTURES
     | _ \<Rightarrow> SecurityType_UNDEFINED)"

definition re_trading_status :: "json_status \<Rightarrow> trading_status" where
  "re_trading_status st = (case st of Status_OPEN \<Rightarrow> TradingStatus_OPEN
     | Status_BEING_SETTLED \<Rightarrow> TradingStatus_UNDEFINED | _ \<Rightarrow> TradingStatus_UNDEFINED)"

definition re_reference_data :: "rest_env \<Rightarrow> contract_item \<Rightarrow> bool \<Rightarrow> reference_data" where
  "re_reference_data E item discard =
     \<lparr>rd_stream_id = ree_stream_id E, rd_exchange = set_exchange (ree_settings E), rd_symbol = ci_symbol item,
      rd_security_type = re_security_type (ci_type item), rd_cfi_code = ci_type_raw_text item,
      rd_base_currency = ci_base_currency item, rd_quote_currency = ci_quote_currency item,
      rd_settlement_currency = ci_settle_currency item, rd_tick_size = ci_tick_size item,
      rd_multiplier = ci_multiplier item, rd_min_trade_vol = ci_lot_size item,
      rd_max_trade_vol = ci_max_order_qty item, rd_trade_vol_step_size = ci_lot_size item,
      rd_underlying = ci_root_symbol item, rd_issue_date = ree_safe_cast_date E (ci_first_open_date_ms item),
      rd_settlement_date = ree_safe_cast_date E (ci_settle_date_ms item),
      rd_expiry_datetime = ree_safe_cast_datetime E (ci_expire_date_ms item),
      rd_expiry_datetime_utc = ree_safe_cast_datetime E (ci_expire_date_ms item), rd_discard = discard\<rparr>"

definition re_market_status :: "rest_env \<Rightarrow> contract_item \<Rightarrow> market_status" where
  "re_market_status E item =
     \<lparr>ms_stream_id = ree_stream_id E, ms_exchange = set_exchange (ree_settings E), ms_symbol = ci_symbol item,
      ms_trading_status = re_trading_status (ci_status item)\<rparr>"

text \<open>The first loop; it collects the symbols that are new.\<close>

fun re_reference_loop :: "rest_env \<Rightarrow> contract_item list \<Rightarrow> string list \<Rightarrow> (rest, exn, string list) stmt" where
  "re_reference_loop E [] symbols = ret symbols"
| "re_reference_loop E (item # items) symbols =
     ask ''discard_symbol'' (ree_discard_symbol E (ci_symbol item)) (\<lambda>discard.
     seqm (dispatch (U_ReferenceData (re_reference_data E item discard)))
       (if discard then re_reference_loop E items symbols
        else reading re_all_symbols (\<lambda>all_symbols.
          if ci_symbol item \<in> all_symbols then re_reference_loop E items symbols
          else seqm (modify (\<lambda>s. s\<lparr>re_all_symbols := insert (ci_symbol item) (re_all_symbols s)\<rparr>))
            (re_reference_loop E items (symbols @ [ci_symbol item])))))"

definition re_status_loop :: "rest_env \<Rightarrow> contract_item list \<Rightarrow> re_stmt" where
  "re_status_loop E items = for_each items (\<lambda>item. reading re_all_symbols (\<lambda>all_symbols.
     if ci_symbol item \<notin> all_symbols then skip
     else dispatch (U_MarketStatus (re_market_status E item))))"

definition re_contracts :: "rest_env \<Rightarrow> contracts_ack \<Rightarrow> re_stmt" where
  "re_contracts E contracts_ack = bindm (re_reference_loop E (ck_data contracts_ack) []) (\<lambda>symbols. block
     [whenm (symbols \<noteq> []) (emit (Notify (SymbolsUpdate symbols))),
      re_status_loop E (ck_data contracts_ack)])"

definition get_contracts_ack :: "rest_env \<Rightarrow> trace_info \<Rightarrow> rest_response \<Rightarrow> 32 word \<Rightarrow> re_stmt" where
  "get_contracts_ack E ti response sequence =
     rest_process_response response (re_retry CONTRACTS) (\<lambda>body.
       ask ''download.skip'' (ree_skip E sequence CONTRACTS) (\<lambda>skipped.
         if skipped then skip
         else bindm (lift_sum (ree_contracts E body)) (\<lambda>contracts_ack.
           if ck_code contracts_ack = RE_SYSTEM_CODE_SUCCESS
           then block [re_contracts E contracts_ack, re_download_call E ti (DlCheck (re_state_index CONTRACTS))]
           else re_retry CONTRACTS Origin_EXCHANGE RequestStatus_REJECTED (guess_error (ck_code contracts_ack))
             (ck_msg contracts_ack))))"

subsection \<open>Order book snapshots\<close>

definition re_snapshot_update ::
    "rest_env \<Rightarrow> order_book_ack \<Rightarrow> mbp_update list \<Rightarrow> mbp_update list \<Rightarrow> 64 word \<Rightarrow> market_by_price_update" where
  "re_snapshot_update E data bids asks exchange_sequence =
     \<lparr>mb_stream_id = ree_stream_id E, mb_exchange = set_exchange (ree_settings E), mb_symbol = ob_symbol data,
      mb_bids = bids, mb_asks = asks, mb_update_type = UpdateType_SNAPSHOT,
      mb_exchange_time_utc = ns_of_ms (ob_ts_ms data), mb_exchange_sequence = exchange_sequence,
      mb_sending_time_utc = ns_of_ms (ob_ts_ms data)\<rparr>"

text \<open>
  The closures a snapshot is sequenced with. This overload of the sequencer is given no closure
  for updates, so an update it published would reach nobody.
\<close>

definition re_sequencer_call :: "rest_env \<Rightarrow> order_book_ack \<Rightarrow> sequencer_call \<Rightarrow> re_stmt" where
  "re_sequencer_call E data c = (let symb = ob_symbol data in case c of
     PublishUpdate bids asks \<Rightarrow> skip
   | PublishSnapshot bids asks sequence \<Rightarrow>
       ask ''sequencer.last_sequence'' (ree_last_sequence E symb) (\<lambda>last_sequence. block
         [dispatch (U_MarketByPrice (re_snapshot_update E data bids asks last_sequence)),
          emit (SequencerApply symb sequence)])
   | RequestSnapshot retries \<Rightarrow> request_snapshot (ree_settings E) symb retries)"

definition re_level :: "book_level \<Rightarrow> mbp_update" where
  "re_level item = \<lparr>mbp_price = bl_price item, mbp_quantity = bl_size item\<rparr>"

definition re_order_book :: "rest_env \<Rightarrow> order_book_ack \<Rightarrow> re_stmt" where
  "re_order_book E data = (let symb = ob_symbol data;
       bids = map re_level (ob_bids data); asks = map re_level (ob_asks data)
     in with_resubscribe symb (seqm
          (emit (SequencerSnapshot symb bids asks (ob_sequence data)))
          (reading trace (\<lambda>tr. run_sequencer (re_sequencer_call E data) (ree_sequencer E tr)))))"

definition get_order_book_ack :: "rest_env \<Rightarrow> rest_response \<Rightarrow> string \<Rightarrow> re_stmt" where
  "get_order_book_ack E response symb =
     rest_process_response response (\<lambda>orig status err text. skip) (\<lambda>body.
       bindm (lift_sum (ree_order_book E body)) (\<lambda>order_book_ack.
         whenm (ob_code order_book_ack = RE_SYSTEM_CODE_SUCCESS) (re_order_book E order_book_ack)))"

definition re_check_request_queue :: "rest_env \<Rightarrow> re_stmt" where
  "re_check_request_queue E = ask ''depth_request_queue.dispatch'' (ree_depth_dispatch E)
     (\<lambda>symbols. for_each symbols (get_order_book E))"

subsection \<open>Events\<close>

datatype rest_event =
    RE_Start | RE_Stop | RE_Timer trace_info | RE_Connected trace_info | RE_Disconnected trace_info
  | RE_Latency int
  | RE_PublicTokenAck trace_info rest_response "32 word"
  | RE_ContractsAck trace_info rest_response "32 word"
  | RE_OrderBookAck trace_info rest_response string
  | RE_Subscribed "string list"

definition re_connected :: "rest_env \<Rightarrow> trace_info \<Rightarrow> re_stmt" where
  "re_connected E ti = ask ''download.downloading'' (ree_downloading E) (\<lambda>downloading.
     if downloading then re_download_call E ti DlBump else re_download_call E ti DlBegin)"

definition re_disconnected :: "rest_env \<Rightarrow> trace_info \<Rightarrow> re_stmt" where
  "re_disconnected E ti = block
     [emit CountDisconnect,
      re_report E ti ConnectionStatus_DISCONNECTED [],
      ask ''download.downloading'' (ree_downloading E) (\<lambda>downloading. whenm (\<not> downloading) (emit DlReset))]"

definition re_timer :: "rest_env \<Rightarrow> re_stmt" where
  "re_timer E = ask ''refresh'' (conn_refresh (ree_connection E)) (\<lambda>refresh. whenm refresh
     (reading re_is_ready (\<lambda>ready. whenm ready (re_check_request_queue E))))"

definition rest_step :: "rest_env \<Rightarrow> rest_event \<Rightarrow> re_stmt" where
  "rest_step E e = (case e of
     RE_Start \<Rightarrow> emit ConnStart
   | RE_Stop \<Rightarrow> emit ConnStop
   | RE_Timer ti \<Rightarrow> re_timer E
   | RE_Connected ti \<Rightarrow> re_connected E ti
   | RE_Disconnected ti \<Rightarrow> re_disconnected E ti
   | RE_Latency sample \<Rightarrow> dispatch (U_ExternalLatency (ree_stream_id E) [] sample)
   | RE_PublicTokenAck ti response sequence \<Rightarrow> get_public_token_ack E ti response sequence
   | RE_ContractsAck ti response sequence \<Rightarrow> get_contracts_ack E ti response sequence
   | RE_OrderBookAck ti response symb \<Rightarrow> get_order_book_ack E response symb
   | RE_Subscribed symbols \<Rightarrow> modify (\<lambda>s. s\<lparr>re_all_symbols := re_all_symbols s \<union> set symbols\<rparr>))"

subsection \<open>The status contract\<close>

lemma re_report_run:
  "re_report E ti st reason s = Normal () (s\<lparr>re_connection_status := st, trace := trace s @
     [Dispatch (U_StreamStatus (make_stream_status (ree_connection E) (ree_stream_id E) []
       RE_SUPPORTS Protocol_HTTP st reason (trace s)))]\<rparr>)"
  by (simp add: re_report_def exec_simps)

interpretation re_stream: stream re_connection_status re_is_ready "re_report E" for E
  by unfold_locales (auto simp: re_is_ready_def re_report_run)

interpretation re_downloader: downloader "re_download E ti" for E ti
proof
  fix st s n t
  assume "re_download E ti st s = Normal n t"
  then show "\<exists>as. trace t = trace s @ as \<and> n = int (length (filter awaits as))"
    by (cases st) (auto simp: re_download_def re_report_run get_public_token_def get_contracts_def exec_simps)
qed

subsection \<open>Invariants through every handler\<close>

text \<open>An invariant that survives all effects but status reports, the reports, and a growing symbol table.\<close>

definition re_safe :: "rest_env \<Rightarrow> (rest \<Rightarrow> bool) \<Rightarrow> bool" where
  "re_safe E I \<longleftrightarrow> (\<forall>a. status_of_effect a = None \<longrightarrow> keeps I (emit a))
     \<and> (\<forall>ti st reason. keeps I (re_report E ti st reason))
     \<and> (\<forall>S. keeps I (modify (\<lambda>s. s\<lparr>re_all_symbols := S (re_all_symbols s)\<rparr>) :: re_stmt))"

lemma re_safe_emit: "re_safe E I \<Longrightarrow> status_of_effect a = None \<Longrightarrow> keeps I (emit a)"
  and re_safe_report: "re_safe E I \<Longrightarrow> keeps I (re_report E ti st reason)"
  and re_safe_symbols: "re_safe E I \<Longrightarrow> keeps I (modify (\<lambda>s. s\<lparr>re_all_symbols := S (re_all_symbols s)\<rparr>) :: re_stmt)"
  by (auto simp: re_safe_def)

lemma re_safe_dispatch: "re_safe E I \<Longrightarrow> status_of_effect (Dispatch u) = None \<Longrightarrow> keeps I (dispatch u)"
  unfolding dispatch_def by (rule re_safe_emit)

lemma re_safe_ask: "re_safe E I \<Longrightarrow> (\<And>b. keeps I (k b)) \<Longrightarrow> keeps I (ask name answer k)"
  by (rule keeps_ask [OF re_safe_emit]) simp_all

lemmas re_safe_rules = re_safe_ask keeps_intros keeps_block re_safe_emit re_safe_dispatch re_safe_report

lemma re_safe_download: "re_safe E I \<Longrightarrow> keeps I (re_download E ti st)"
  by (cases st) (auto simp: re_download_def get_public_token_def get_contracts_def intro!: re_safe_rules)

lemma re_safe_download_call:
  "re_safe E I \<Longrightarrow> status_of_effect a = None \<Longrightarrow> keeps I (re_download_call E ti a)"
  unfolding re_download_call_def by (intro keeps_intros re_safe_emit re_safe_download)

lemma re_safe_retry: "re_safe E I \<Longrightarrow> keeps I (re_retry st a b c d)"
  unfolding re_retry_def by (rule re_safe_emit) simp_all

lemma re_safe_token_ack: "re_safe E I \<Longrightarrow> keeps I (get_public_token_ack E ti response sequence)"
  unfolding get_public_token_ack_def re_token_def Let_def
  by (auto intro!: re_safe_rules re_safe_retry re_safe_download_call split: list.splits)

lemma re_safe_reference_loop: "re_safe E I \<Longrightarrow> keeps I (re_reference_loop E items symbols)"
proof (induction items arbitrary: symbols)
  case (Cons item items)
  have ins: "keeps I (modify (\<lambda>s. s\<lparr>re_all_symbols := insert x (re_all_symbols s)\<rparr>) :: re_stmt)" for x
    using Cons.prems by (rule re_safe_symbols)
  from Cons show ?case by (auto intro!: re_safe_rules ins)
qed (simp add: keeps_intros)

lemma re_safe_contracts_ack: "re_safe E I \<Longrightarrow> keeps I (get_contracts_ack E ti response sequence)"
  unfolding get_contracts_ack_def re_contracts_def re_status_loop_def
  by (auto intro!: re_safe_rules re_safe_retry re_safe_download_call re_safe_reference_loop)

lemma re_safe_order_book_ack: "re_safe E I \<Longrightarrow> keeps I (get_order_book_ack E response symb)"
  unfolding get_order_book_ack_def re_order_book_def re_sequencer_call_def Let_def
  by (auto intro!: re_safe_rules keeps_with_resubscribe keeps_request_snapshot split: sequencer_call.splits)

lemma rest_keeps:
  assumes safe: "re_safe E I"
  shows "keeps I (rest_step E e)"
proof -
  have "keeps I (modify (\<lambda>s. s\<lparr>re_all_symbols := re_all_symbols s \<union> X\<rparr>) :: re_stmt)" for X
    using safe by (rule re_safe_symbols)
  with safe show ?thesis
    by (cases e) (auto simp: rest_step_def re_timer_def re_check_request_queue_def get_order_book_def re_connected_def
      re_disconnected_def intro!: re_safe_rules re_safe_token_ack re_safe_contracts_ack re_safe_order_book_ack re_safe_download_call)
qed

lemma re_safe_agrees: "re_safe E (agrees re_connection_status)"
  unfolding re_safe_def
proof (intro conjI allI impI)
  show "keeps (agrees re_connection_status) (emit a :: re_stmt)" if "status_of_effect a = None" for a
    using that by (rule re_stream.keeps_other_effect)
  show "keeps (agrees re_connection_status) (re_report E ti st reason)" for ti st reason
    by (rule re_stream.keeps_report)
  show "keeps (agrees re_connection_status) (modify (\<lambda>s. s\<lparr>re_all_symbols := S (re_all_symbols s)\<rparr>) :: re_stmt)" for S
    by (rule re_stream.keeps_update) simp_all
qed

lemma rest_agrees: "agrees re_connection_status (run_events (rest_step E) es Rest_create)"
  by (rule run_events_keeps [OF rest_keeps [OF re_safe_agrees]]) (simp add: agrees_def Rest_create_def)

subsection \<open>Contracts\<close>

text \<open>The symbols an answer adds, given which symbols the server discards and which are known.\<close>

fun fresh_symbols :: "(string \<Rightarrow> bool) \<Rightarrow> string set \<Rightarrow> contract_item list \<Rightarrow> string list" where
  "fresh_symbols d known [] = []"
| "fresh_symbols d known (item # items) =
     (if d (ci_symbol item) \<or> ci_symbol item \<in> known then fresh_symbols d known items
      else ci_symbol item # fresh_symbols d (insert (ci_symbol item) known) items)"

definition kept_symbols :: "(string \<Rightarrow> bool) \<Rightarrow> contract_item list \<Rightarrow> string set" where
  "kept_symbols d items = {x \<in> ci_symbol ` set items. \<not> d x}"

lemma kept_symbols_simps [simp]:
  "kept_symbols d [] = {}"
  "kept_symbols d (item # items) =
     (if d (ci_symbol item) then kept_symbols d items else insert (ci_symbol item) (kept_symbols d items))"
  by (auto simp: kept_symbols_def)

lemma fresh_symbols_spec:
  "set (fresh_symbols d known items) = kept_symbols d items - known \<and> distinct (fresh_symbols d known items)"
  by (induction d known items rule: fresh_symbols.induct) auto

fun reference_of :: "effect \<Rightarrow> (string \<times> bool) list" where
  "reference_of (Dispatch (U_ReferenceData u)) = [(rd_symbol u, rd_discard u)]"
| "reference_of _ = []"

fun market_status_of :: "effect \<Rightarrow> (string \<times> trading_status) list" where
  "market_status_of (Dispatch (U_MarketStatus u)) = [(ms_symbol u, ms_trading_status u)]"
| "market_status_of _ = []"

fun notified_by :: "effect \<Rightarrow> notification list" where
  "notified_by (Notify n) = [n]"
| "notified_by _ = []"

definition seen :: "(effect \<Rightarrow> 'b list) \<Rightarrow> effect list \<Rightarrow> 'b list" where
  "seen f as = concat (map f as)"

lemma seen_simps [simp]: "seen f [] = []" "seen f (a # as) = f a @ seen f as" "seen f (as @ bs) = seen f as @ seen f bs"
  by (simp_all add: seen_def)

lemma re_reference_loop_run:
  assumes "\<And>x tr. ree_discard_symbol E x tr = d x"
  shows "\<exists>as. re_reference_loop E items acc s = Normal (acc @ fresh_symbols d (re_all_symbols s) items)
        (s\<lparr>trace := trace s @ as, re_all_symbols := re_all_symbols s \<union> kept_symbols d items\<rparr>)
      \<and> seen reference_of as = map (\<lambda>item. (ci_symbol item, d (ci_symbol item))) items
      \<and> seen notified_by as = [] \<and> seen market_status_of as = []"
proof (induction items arbitrary: acc s)
  case Nil
  show ?case by (intro exI [of _ "[]"]) (simp add: exec_simps)
next
  case (Cons item items)
  let ?x = "ci_symbol item"
  let ?as = "[Call ''discard_symbol'', Dispatch (U_ReferenceData (re_reference_data E item (d ?x)))]"
  let ?acc = "if d ?x \<or> ?x \<in> re_all_symbols s then acc else acc @ [?x]"
  let ?s = "s\<lparr>trace := trace s @ ?as,
    re_all_symbols := if d ?x then re_all_symbols s else insert ?x (re_all_symbols s)\<rparr>"
  have ref: "reference_of (Dispatch (U_ReferenceData (re_reference_data E item (d ?x)))) = [(?x, d ?x)]"
    by (simp add: re_reference_data_def)
  have "re_reference_loop E (item # items) acc s = re_reference_loop E items ?acc ?s"
    by (cases "d ?x"; cases "?x \<in> re_all_symbols s") (simp_all add: assms exec_simps insert_absorb)
  moreover from Cons [of ?acc ?s] obtain bs where
    "re_reference_loop E items ?acc ?s = Normal (?acc @ fresh_symbols d (re_all_symbols ?s) items)
       (?s\<lparr>trace := trace ?s @ bs, re_all_symbols := re_all_symbols ?s \<union> kept_symbols d items\<rparr>)"
    "seen reference_of bs = map (\<lambda>item. (ci_symbol item, d (ci_symbol item))) items"
    "seen notified_by bs = []" "seen market_status_of bs = []"
    by blast
  ultimately show ?case
    using ref by (intro exI [of _ "?as @ bs"]) (auto simp: insert_absorb)
qed

lemma re_status_loop_run:
  "\<exists>as. re_status_loop E items s = Normal () (s\<lparr>trace := trace s @ as\<rparr>)
      \<and> seen market_status_of as = map (\<lambda>item. (ci_symbol item, re_trading_status (ci_status item)))
          (filter (\<lambda>item. ci_symbol item \<in> re_all_symbols s) items)
      \<and> seen notified_by as = [] \<and> seen reference_of as = []"
proof (induction items arbitrary: s)
  case Nil
  show ?case by (intro exI [of _ "[]"]) (simp add: re_status_loop_def exec_simps)
next
  case (Cons item items)
  let ?as = "if ci_symbol item \<in> re_all_symbols s then [Dispatch (U_MarketStatus (re_market_status E item))] else []"
  have "re_status_loop E (item # items) s = re_status_loop E items (s\<lparr>trace := trace s @ ?as\<rparr>)"
    by (simp add: re_status_loop_def exec_simps)
  moreover from Cons [of "s\<lparr>trace := trace s @ ?as\<rparr>"] obtain bs where
    "re_status_loop E items (s\<lparr>trace := trace s @ ?as\<rparr>) = Normal () (s\<lparr>trace := (trace s @ ?as) @ bs\<rparr>)"
    "seen market_status_of bs = map (\<lambda>item. (ci_symbol item, re_trading_status (ci_status item)))
          (filter (\<lambda>item. ci_symbol item \<in> re_all_symbols s) items)"
    "seen notified_by bs = []" "seen reference_of bs = []"
    by auto
  ultimately show ?case
    by (intro exI [of _ "?as @ bs"]) (auto simp: re_market_status_def)
qed

subsection \<open>Progress of the download\<close>

text \<open>The effects by which an answer moves the download on.\<close>

fun progress_of :: "effect \<Rightarrow> effect list" where
  "progress_of (DlCheck n) = [DlCheck n]"
| "progress_of (DlRetry n) = [DlRetry n]"
| "progress_of _ = []"

definition quiet :: "(rest, exn, 'a) stmt \<Rightarrow> bool" where
  "quiet m \<longleftrightarrow> (\<forall>s. (\<forall>e t. m s \<noteq> Thrown e t) \<and> seen progress_of (trace (final_state (m s))) = seen progress_of (trace s))"

lemma quiet_bindm:
  assumes "quiet m" and "\<And>a. quiet (f a)"
  shows "quiet (bindm m f)"
  unfolding quiet_def
proof
  fix s
  from assms(1) have m: "\<forall>e t. m s \<noteq> Thrown e t"
    and pm: "seen progress_of (trace (final_state (m s))) = seen progress_of (trace s)"
    unfolding quiet_def by blast+
  show "(\<forall>e t. bindm m f s \<noteq> Thrown e t)
      \<and> seen progress_of (trace (final_state (bindm m f s))) = seen progress_of (trace s)"
  proof (cases "m s")
    case (Normal a t)
    with assms(2) [of a] pm show ?thesis by (simp add: bindm_def quiet_def)
  next
    case (Thrown e t)
    with m show ?thesis by blast
  next
    case (Fatal msg t)
    with pm show ?thesis by (simp add: bindm_def)
  qed
qed

lemma quiet_seqm: "quiet m \<Longrightarrow> quiet n \<Longrightarrow> quiet (seqm m n)"
  unfolding seqm_def by (rule quiet_bindm)

lemma quiet_ret: "quiet (ret a)"
  and quiet_skip: "quiet skip"
  and quiet_fatal: "quiet (fatal msg)"
  by (auto simp: quiet_def exec_simps)

lemma quiet_whenm: "quiet m \<Longrightarrow> quiet (whenm c m)"
  by (simp add: quiet_def exec_simps)

lemma quiet_reading: "(\<And>b. quiet (k b)) \<Longrightarrow> quiet (reading f k)"
  by (simp add: quiet_def reading_def)

lemma quiet_emit: "progress_of a = [] \<Longrightarrow> quiet (emit a)"
  by (simp add: quiet_def exec_simps)

lemma quiet_report: "quiet (re_report E ti st reason)"
  by (simp add: quiet_def re_report_run)

lemma quiet_download: "quiet (re_download E ti st)"
  by (cases st) (simp_all add: quiet_def re_download_def re_report_run get_public_token_def get_contracts_def exec_simps)

lemma quiet_run_download: "quiet (run_download (re_download E ti) r)"
proof (induction r)
  case (DlCall st k)
  then show ?case by (auto intro!: quiet_bindm quiet_download)
qed (simp add: quiet_def exec_simps)

lemma quiet_ask: "(\<And>b. quiet (k b)) \<Longrightarrow> quiet (ask name answer k)"
  unfolding ask_def by (intro quiet_seqm quiet_emit) (simp_all add: quiet_def reading_def)

lemma quiet_for_each: "(\<And>x. quiet (body x)) \<Longrightarrow> quiet (for_each xs body)"
  by (induction xs) (simp_all add: quiet_seqm quiet_skip)

lemma quiet_contracts: "quiet (re_contracts E contracts_ack)"
proof -
  have loop: "quiet (re_reference_loop E items acc)" for items acc
  proof (induction items arbitrary: acc)
    case Nil
    show ?case by (simp add: quiet_def exec_simps)
  next
    case (Cons item items)
    have m: "quiet (modify (\<lambda>s. s\<lparr>re_all_symbols := insert x (re_all_symbols s)\<rparr>))" for x
      by (simp add: quiet_def exec_simps)
    show ?case
      by (auto intro!: quiet_ask quiet_seqm quiet_emit quiet_reading Cons m simp: dispatch_def)
  qed
  have status: "quiet (re_status_loop E items)" for items
    unfolding re_status_loop_def
    by (auto intro!: quiet_for_each quiet_reading quiet_skip quiet_emit simp: dispatch_def)
  show ?thesis
    unfolding re_contracts_def
    by (auto intro!: quiet_bindm quiet_seqm loop status quiet_whenm quiet_skip quiet_emit)
qed

lemma quiet_then_check:
  assumes "quiet m" and "block [m, re_download_call E ti (DlCheck n)] s = u"
  shows "(\<forall>e t. u \<noteq> Thrown e t) \<and>
    (\<forall>a t. u = Normal a t \<longrightarrow> seen progress_of (trace t) = seen progress_of (trace s) @ [DlCheck n])"
proof (cases "m s")
  case (Normal a t)
  have "seen progress_of (trace t) = seen progress_of (trace s)"
    using assms(1) Normal unfolding quiet_def by (metis final_state.simps(1))
  moreover have "block [m, re_download_call E ti (DlCheck n)] s
      = run_download (re_download E ti) (ree_download E (trace t @ [DlCheck n])) (t\<lparr>trace := trace t @ [DlCheck n]\<rparr>)"
    using Normal by (simp add: re_download_call_def exec_simps split: outcome.splits)
  ultimately show ?thesis
    using quiet_run_download [of E ti "ree_download E (trace t @ [DlCheck n])"] assms(2)
    unfolding quiet_def by (cases u) (auto dest: spec [of _ "t\<lparr>trace := trace t @ [DlCheck n]\<rparr>"])
next
  case (Thrown e t)
  with assms(1) show ?thesis unfolding quiet_def by blast
next
  case (Fatal msg t)
  with assms(2) show ?thesis by (auto simp: exec_simps)
qed

lemma quiet_token: "quiet (re_token token)"
  by (auto simp: re_token_def Let_def quiet_def exec_simps split: list.splits)

subsection \<open>Properties\<close>

lemma re_contracts_run:
  assumes "\<And>x tr. ree_discard_symbol E x tr = d x"
  shows "\<exists>as. re_contracts E contracts_ack s = Normal () (s\<lparr>trace := trace s @ as,
        re_all_symbols := re_all_symbols s \<union> kept_symbols d (ck_data contracts_ack)\<rparr>)
      \<and> seen reference_of as = map (\<lambda>item. (ci_symbol item, d (ci_symbol item))) (ck_data contracts_ack)
      \<and> seen notified_by as = (if fresh_symbols d (re_all_symbols s) (ck_data contracts_ack) = [] then []
          else [SymbolsUpdate (fresh_symbols d (re_all_symbols s) (ck_data contracts_ack))])
      \<and> seen market_status_of as = map (\<lambda>item. (ci_symbol item, re_trading_status (ci_status item)))
          (filter (\<lambda>item. ci_symbol item \<in> re_all_symbols s \<union> kept_symbols d (ck_data contracts_ack)) (ck_data contracts_ack))"
proof -
  let ?items = "ck_data contracts_ack"
  let ?fresh = "fresh_symbols d (re_all_symbols s) ?items"
  from re_reference_loop_run [OF assms, where items = ?items and acc = "[]" and s = s] obtain as where
    as: "re_reference_loop E ?items [] s = Normal ?fresh
        (s\<lparr>trace := trace s @ as, re_all_symbols := re_all_symbols s \<union> kept_symbols d ?items\<rparr>)"
      "seen reference_of as = map (\<lambda>item. (ci_symbol item, d (ci_symbol item))) ?items"
      "seen notified_by as = []" "seen market_status_of as = []"
    by auto
  let ?n = "if ?fresh = [] then [] else [Notify (SymbolsUpdate ?fresh)]"
  let ?t = "s\<lparr>trace := trace s @ as @ ?n, re_all_symbols := re_all_symbols s \<union> kept_symbols d ?items\<rparr>"
  from re_status_loop_run [of E ?items ?t] obtain bs where
    bs: "re_status_loop E ?items ?t = Normal () (?t\<lparr>trace := trace ?t @ bs\<rparr>)"
      "seen market_status_of bs = map (\<lambda>item. (ci_symbol item, re_trading_status (ci_status item)))
        (filter (\<lambda>item. ci_symbol item \<in> re_all_symbols ?t) ?items)"
      "seen notified_by bs = []" "seen reference_of bs = []"
    by blast
  have "re_contracts E contracts_ack s = re_status_loop E ?items ?t"
  proof (cases "?fresh = []")
    case True
    with as(1) show ?thesis by (simp add: re_contracts_def exec_simps)
  next
    case False
    have upd: "(s\<lparr>trace := trace s @ as, re_all_symbols := X\<rparr>)\<lparr>trace := Y\<rparr> = s\<lparr>trace := Y, re_all_symbols := X\<rparr>" for X Y
      by simp
    have "re_contracts E contracts_ack s = block [whenm (?fresh \<noteq> []) (emit (Notify (SymbolsUpdate ?fresh))),
        re_status_loop E ?items] (s\<lparr>trace := trace s @ as, re_all_symbols := re_all_symbols s \<union> kept_symbols d ?items\<rparr>)"
      by (simp add: re_contracts_def bindm_def as(1))
    also have "\<dots> = re_status_loop E ?items ((s\<lparr>trace := trace s @ as,
        re_all_symbols := re_all_symbols s \<union> kept_symbols d ?items\<rparr>)\<lparr>trace := trace s @ as @ ?n\<rparr>)"
      using False by (simp add: exec_simps)
    finally show ?thesis unfolding upd .
  qed
  with bs(1) have "re_contracts E contracts_ack s = Normal () (s\<lparr>trace := trace s @ as @ ?n @ bs,
      re_all_symbols := re_all_symbols s \<union> kept_symbols d ?items\<rparr>)"
    by simp
  moreover have "seen notified_by (as @ ?n @ bs) = (if ?fresh = [] then [] else [SymbolsUpdate ?fresh])"
    using as(3) bs(3) by simp
  moreover have "seen reference_of (as @ ?n @ bs) = map (\<lambda>item. (ci_symbol item, d (ci_symbol item))) ?items"
    using as(2) bs(4) by simp
  moreover have "seen market_status_of (as @ ?n @ bs) = map (\<lambda>item. (ci_symbol item, re_trading_status (ci_status item)))
        (filter (\<lambda>item. ci_symbol item \<in> re_all_symbols s \<union> kept_symbols d ?items) ?items)"
    using as(4) bs(2) by simp
  ultimately show ?thesis by blast
qed

text \<open>
  C20. Contracts: every contract of an answer is published as reference data, in order and marked
  with whether the server discards it; the controller is told, once, exactly the symbols that are
  kept and were not known, without repetition, and not at all when there are none; market status
  is published exactly for the known symbols; and the same answer again tells the controller
  nothing.
\<close>

theorem contracts_announced_once:
  assumes "\<And>x tr. ree_discard_symbol E x tr = d x"
  shows "let items = ck_data contracts_ack; known = re_all_symbols s; kept = kept_symbols d items;
      fresh = fresh_symbols d known items in
    (\<exists>as. re_contracts E contracts_ack s = Normal () (s\<lparr>trace := trace s @ as, re_all_symbols := known \<union> kept\<rparr>)
      \<and> seen reference_of as = map (\<lambda>item. (ci_symbol item, d (ci_symbol item))) items
      \<and> seen notified_by as = (if fresh = [] then [] else [SymbolsUpdate fresh])
      \<and> seen market_status_of as = map (\<lambda>item. (ci_symbol item, re_trading_status (ci_status item)))
          (filter (\<lambda>item. ci_symbol item \<in> known \<union> kept) items))
    \<and> set fresh = kept - known \<and> distinct fresh
    \<and> (\<forall>bs. \<exists>cs. re_contracts E contracts_ack (s\<lparr>trace := bs, re_all_symbols := known \<union> kept\<rparr>)
          = Normal () (s\<lparr>trace := bs @ cs, re_all_symbols := known \<union> kept\<rparr>)
      \<and> seen notified_by cs = [])"
proof -
  let ?items = "ck_data contracts_ack"
  let ?all = "re_all_symbols s \<union> kept_symbols d ?items"
  have "set (fresh_symbols d ?all ?items) = {}"
    by (auto simp: fresh_symbols_spec)
  then have none: "fresh_symbols d ?all ?items = []" by simp
  have again: "\<exists>cs. re_contracts E contracts_ack (s\<lparr>trace := bs, re_all_symbols := ?all\<rparr>)
      = Normal () (s\<lparr>trace := bs @ cs, re_all_symbols := ?all\<rparr>) \<and> seen notified_by cs = []" for bs
    using re_contracts_run [OF assms, where contracts_ack = contracts_ack and s = "s\<lparr>trace := bs, re_all_symbols := ?all\<rparr>"] none
    by (auto simp: Un_assoc)
  show ?thesis
    unfolding Let_def using re_contracts_run [OF assms, where contracts_ack = contracts_ack and s = s] again
    by (simp add: fresh_symbols_spec)
qed

definition sample_contract :: contract_item where
  "sample_contract = \<lparr>ci_symbol = ''XBTUSDTM'', ci_root_symbol = ''XBT'', ci_type = FFWCSX, ci_type_raw_text = ''FFWCSX'',
     ci_first_open_date_ms = 0, ci_expire_date_ms = 0, ci_settle_date_ms = 0, ci_base_currency = ''XBT'',
     ci_quote_currency = ''USDT'', ci_settle_currency = ''USDT'', ci_max_order_qty = Fin 1000, ci_lot_size = Fin 1,
     ci_tick_size = Fin (1/10), ci_multiplier = Fin 1, ci_status = Status_OPEN\<rparr>"

definition sample_rest_env :: rest_env where
  "sample_rest_env = \<lparr>ree_stream_id = 1, ree_settings = sample_settings, ree_api = API_create,
     ree_connection = sample_connection,
     ree_token = (\<lambda>b. Inr \<lparr>tk_code = 200000, tk_instance_servers = [\<lparr>is_ping_interval_ms = 18000, is_endpoint = ''wss''\<rparr>],
       tk_token = ''t''\<rparr>),
     ree_contracts = (\<lambda>b. Inr \<lparr>ck_code = 200000, ck_msg = [], ck_data = [sample_contract, sample_contract]\<rparr>),
     ree_order_book = (\<lambda>b. Inl (StdException ''parse'')), ree_downloading = (\<lambda>_. False), ree_sequence = (\<lambda>_. 1),
     ree_skip = (\<lambda>_ _ _. False), ree_download = (\<lambda>_. DlDone), ree_depth_dispatch = (\<lambda>_. []),
     ree_discard_symbol = (\<lambda>_ _. False), ree_sequencer = (\<lambda>_. \<lparr>sq_calls = [], sq_bad_state = False\<rparr>),
     ree_last_sequence = (\<lambda>_ _. 0), ree_safe_cast_date = id, ree_safe_cast_datetime = id\<rparr>"

theorem contracts_announced_once_witness:
  "\<exists>as. re_contracts sample_rest_env \<lparr>ck_code = 200000, ck_msg = [], ck_data = [sample_contract, sample_contract]\<rparr> Rest_create
      = Normal () (Rest_create\<lparr>trace := as, re_all_symbols := {''XBTUSDTM''}\<rparr>)
    \<and> seen notified_by as = [SymbolsUpdate [''XBTUSDTM'']]
    \<and> seen market_status_of as = [(''XBTUSDTM'', TradingStatus_OPEN), (''XBTUSDTM'', TradingStatus_OPEN)]"
proof -
  have "ree_discard_symbol sample_rest_env x tr = False" for x tr
    by (simp add: sample_rest_env_def)
  from contracts_announced_once [OF this, of "\<lparr>ck_code = 200000, ck_msg = [], ck_data = [sample_contract, sample_contract]\<rparr>"
      Rest_create] show ?thesis
    by (auto simp: Rest_create_def sample_contract_def re_trading_status_def Let_def)
qed

lemma rest_process_response_retry:
  "rest_process_response response (re_retry st) f =
     try_catch (response_switch response (re_retry st) f) (\<lambda>e. emit (DlRetry (re_state_index st)))"
  unfolding rest_process_response_def
  by (rule arg_cong [where f = "try_catch _"]) (auto simp: fun_eq_iff re_retry_def split: exn.splits)

text \<open>The two acknowledgements have one shape: decode, check the code, act, move the download on.\<close>

lemma ack_progress:
  assumes "conclusive response"
    and m: "m = rest_process_response response (re_retry st) (\<lambda>body.
       ask ''download.skip'' skipf (\<lambda>skipped. if skipped then skip
         else bindm (lift_sum (decode body)) (\<lambda>a. if code a = RE_SYSTEM_CODE_SUCCESS
           then block [act a, re_download_call E ti (DlCheck (re_state_index st))] else bad a)))"
    and act: "\<And>a. quiet (act a)"
    and bad: "\<And>a. bad a = emit (DlRetry (re_state_index st)) \<or> (\<exists>msg. bad a = fatal msg)"
  shows "(\<not> skipf (trace s @ [Call ''download.skip'']) \<longrightarrow> m s = Normal () t \<longrightarrow>
       seen progress_of (trace t) = seen progress_of (trace s) @
         [if map_option code (decoded response decode) = Some RE_SYSTEM_CODE_SUCCESS
          then DlCheck (re_state_index st) else DlRetry (re_state_index st)])
    \<and> (\<forall>e. m s \<noteq> Thrown e t)"
proof -
  note run = m [unfolded rest_process_response_retry] response_switch_def re_retry_def
  show ?thesis
  proof (cases "rr_result response")
    case (Inl e)
    then show ?thesis by (auto simp: run decoded_def exec_simps)
  next
    case (Inr r)
    obtain status category body where r: "r = (status, category, body)" by (cases r)
    consider "category = REDIRECTION \<or> category = SERVER_ERROR" | "category = SUCCESS \<or> category = CLIENT_ERROR"
      using assms(1) Inr r by (cases category) (auto simp: conclusive_def)
    then show ?thesis
    proof cases
      case 1
      with Inr r show ?thesis by (auto simp: run decoded_def exec_simps)
    next
      case 2
      let ?s = "s\<lparr>trace := trace s @ [Call ''download.skip'']\<rparr>"
      define u where "u = (if skipf (trace ?s) then skip else bindm (lift_sum (decode body))
          (\<lambda>a. if code a = RE_SYSTEM_CODE_SUCCESS
             then block [act a, re_download_call E ti (DlCheck (re_state_index st))] else bad a)) ?s"
      have ms: "m s = (case u of Normal b t \<Rightarrow> Normal b t
          | Thrown e t \<Rightarrow> Normal () (t\<lparr>trace := trace t @ [DlRetry (re_state_index st)]\<rparr>) | Fatal msg t \<Rightarrow> Fatal msg t)"
        using 2 Inr r unfolding u_def m rest_process_response_retry
        by (simp add: response_switch_success ask_run try_catch_def emit_def modify_def)
      show ?thesis
      proof (cases "decode body")
        case dec: (Inl e)
        with 2 Inr r ms show ?thesis by (auto simp: u_def decoded_def exec_simps)
      next
        case dec: (Inr a)
        let ?u = "block [act a, re_download_call E ti (DlCheck (re_state_index st))] ?s"
        have u: "(\<forall>e t. ?u \<noteq> Thrown e t) \<and> (\<forall>b t. ?u = Normal b t \<longrightarrow>
            seen progress_of (trace t) = seen progress_of (trace s) @ [DlCheck (re_state_index st)])"
          using quiet_then_check [OF act refl, of a E ti "re_state_index st" ?s] by simp
        show ?thesis
        proof (cases "code a = RE_SYSTEM_CODE_SUCCESS")
          case True
          have "u = (if skipf (trace ?s) then Normal () ?s else ?u)"
            using dec True by (simp add: u_def skip_def)
          with u ms 2 Inr r dec True show ?thesis by (cases ?u) (auto simp: decoded_def)
        next
          case False
          with bad [of a] ms 2 Inr r dec show ?thesis by (auto simp: u_def decoded_def exec_simps)
        qed
      qed
    qed
  qed
qed



end
