(* ===== verification/Json_Text.thy ===== *)
theory Json_Text
  imports Prelude
begin

text \<open>
  The JSON texts the gateway writes, as values: strings, integers, booleans and objects, their rendering,
  and a reader. The reader is the specification the encoder is measured against. It reads the
  fragment without escapes, so a text is faithful when its strings are \<open>plain\<close>: no quote and no
  backslash.
\<close>

datatype json = JText string | JNumber int | JFlag bool | JFields "(string \<times> json) list"

definition quote_char :: char where
  "quote_char = CHR 0x22"

definition quoted :: "string \<Rightarrow> string" where
  "quoted s = CHR 0x22 # s @ [CHR 0x22]"

fun render :: "json \<Rightarrow> string" and render_fields :: "(string \<times> json) list \<Rightarrow> string" where
  "render (JText s) = quoted s"
| "render (JNumber i) = fmt_int i"
| "render (JFlag b) = (if b then ''true'' else ''false'')"
| "render (JFields fs) = ''{'' @ render_fields fs @ ''}''"
| "render_fields [] = []"
| "render_fields [(k, v)] = quoted k @ '':'' @ render v"
| "render_fields ((k, v) # f # fs) = quoted k @ '':'' @ render v @ '','' @ render_fields (f # fs)"

definition plain_text :: "string \<Rightarrow> bool" where
  "plain_text s \<longleftrightarrow> CHR 0x22 \<notin> set s \<and> CHR 0x5C \<notin> set s"

fun plain :: "json \<Rightarrow> bool" and plain_fields :: "(string \<times> json) list \<Rightarrow> bool" where
  "plain (JText s) = plain_text s"
| "plain (JNumber i) = True"
| "plain (JFlag b) = True"
| "plain (JFields fs) = (fs \<noteq> [] \<and> plain_fields fs)"
| "plain_fields [] = True"
| "plain_fields ((k, v) # fs) = (plain_text k \<and> plain v \<and> plain_fields fs)"

subsection \<open>The reader\<close>

text \<open>A quoted string; a backslash is refused.\<close>

definition read_quoted :: "string \<Rightarrow> (string \<times> string) option" where
  "read_quoted s = (case s of [] \<Rightarrow> None
     | c # cs \<Rightarrow> if c = CHR 0x22
         then (case split_first CHR 0x22 cs of None \<Rightarrow> None
               | Some (t, r) \<Rightarrow> if CHR 0x5C \<in> set t then None else Some (t, r))
         else None)"

text \<open>An integer: the longest run of digits, after an optional sign.\<close>

definition read_number :: "string \<Rightarrow> (int \<times> string) option" where
  "read_number s = (let negative = (s \<noteq> [] \<and> hd s = CHR ''-''); ds = (if negative then tl s else s);
       digits = takeWhile is_digit ds; value = int (decimal_value digits)
     in if digits = [] then None else Some (if negative then - value else value, dropWhile is_digit ds))"

definition ends_number :: "string \<Rightarrow> bool" where
  "ends_number r \<longleftrightarrow> r = [] \<or> \<not> is_digit (hd r)"

text \<open>The fuel bounds the number of nested reads; the length of the text is enough.\<close>

fun read_value :: "nat \<Rightarrow> string \<Rightarrow> (json \<times> string) option"
  and read_fields :: "nat \<Rightarrow> string \<Rightarrow> ((string \<times> json) list \<times> string) option" where
  "read_value 0 s = None"
| "read_value (Suc n) s = (case s of [] \<Rightarrow> None
     | c # cs \<Rightarrow>
         if c = CHR 0x22 then map_option (\<lambda>(t, r). (JText t, r)) (read_quoted s)
         else if c = CHR ''{'' then map_option (\<lambda>(fs, r). (JFields fs, r)) (read_fields n cs)
         else if take 4 s = ''true'' then Some (JFlag True, drop 4 s)
         else if take 5 s = ''false'' then Some (JFlag False, drop 5 s)
         else map_option (\<lambda>(i, r). (JNumber i, r)) (read_number s))"
| "read_fields 0 s = None"
| "read_fields (Suc n) s = (case read_quoted s of None \<Rightarrow> None
     | Some (k, r) \<Rightarrow> (case r of [] \<Rightarrow> None
       | c # cs \<Rightarrow> if c \<noteq> CHR '':'' then None else
           (case read_value n cs of None \<Rightarrow> None
            | Some (v, r') \<Rightarrow> (case r' of [] \<Rightarrow> None
              | c' # cs' \<Rightarrow>
                  if c' = CHR ''}'' then Some ([(k, v)], cs')
                  else if c' = CHR '','' then map_option (\<lambda>(fs, r''). ((k, v) # fs, r'')) (read_fields n cs')
                  else None))))"

definition read_json :: "string \<Rightarrow> json option" where
  "read_json s = (case read_value (length s) s of Some (v, []) \<Rightarrow> Some v | _ \<Rightarrow> None)"

subsection \<open>Reading back what was rendered\<close>

lemma read_quoted_quoted: "plain_text s \<Longrightarrow> read_quoted (quoted s @ r) = Some (s, r)"
  by (simp add: read_quoted_def quoted_def plain_text_def)

lemma read_quoted_Cons: "plain_text s \<Longrightarrow> read_quoted (CHR 0x22 # s @ CHR 0x22 # r) = Some (s, r)"
  by (simp add: read_quoted_def plain_text_def)

lemma render_fields_Cons:
  "render_fields ((k, v) # fs) = quoted k @ '':'' @ render v @ (if fs = [] then [] else '','' @ render_fields fs)"
  by (cases fs) auto

lemma take_digits: "list_all is_digit ds \<Longrightarrow> ends_number r \<Longrightarrow> takeWhile is_digit (ds @ r) = ds \<and> dropWhile is_digit (ds @ r) = r"
  by (induction ds) (auto simp: ends_number_def takeWhile_eq_Nil_iff dropWhile_eq_self_iff)

lemma fmt_nat_all_digits: "list_all is_digit (fmt_nat n)"
  by (auto simp: list_all_iff fmt_nat_digits)

lemma fmt_nat_no_sign: "hd (fmt_nat n @ r) \<noteq> CHR ''-''"
proof -
  obtain c cs where "fmt_nat n = c # cs" using fmt_nat_not_Nil by (cases "fmt_nat n") auto
  moreover from this have "is_digit c" by (metis fmt_nat_digits list.set_intros(1))
  ultimately show ?thesis by (auto simp: is_digit_def)
qed

lemma read_number_fmt_int: "ends_number r \<Longrightarrow> read_number (fmt_int i @ r) = Some (i, r)"
proof -
  assume r: "ends_number r"
  note digits = take_digits [OF fmt_nat_all_digits r]
  show ?thesis
    using digits [of "nat (- i)"] digits [of "nat i"] fmt_nat_no_sign [of "nat i" r]
    by (auto simp: read_number_def fmt_int_def Let_def)
qed

lemma fmt_int_Cons: "\<exists>c cs. fmt_int i = c # cs \<and> (is_digit c \<or> c = CHR ''-'')"
proof (cases "i < 0")
  case False
  obtain c cs where c: "fmt_nat (nat i) = c # cs" using fmt_nat_not_Nil by (cases "fmt_nat (nat i)") auto
  then have "is_digit c" by (metis fmt_nat_digits list.set_intros(1))
  with c False show ?thesis by (simp add: fmt_int_def)
qed (simp add: fmt_int_def)

lemma read_value_number: "ends_number r \<Longrightarrow> read_value (Suc n) (fmt_int i @ r) = Some (JNumber i, r)"
proof -
  assume r: "ends_number r"
  obtain c cs where c: "fmt_int i = c # cs" "is_digit c \<or> c = CHR ''-''" using fmt_int_Cons by blast
  then have "c \<noteq> CHR 0x22" "c \<noteq> CHR ''{''" "c \<noteq> CHR ''t''" "c \<noteq> CHR ''f''" by (auto simp: is_digit_def)
  with c read_number_fmt_int [OF r, of i] show ?thesis by simp
qed

lemma read_render:
  "plain v \<Longrightarrow> length (render v) \<le> n \<Longrightarrow> ends_number r \<Longrightarrow> read_value n (render v @ r) = Some (v, r)"
  "plain_fields fs \<Longrightarrow> fs \<noteq> [] \<Longrightarrow> length (render_fields fs) \<le> n \<Longrightarrow>
     read_fields n (render_fields fs @ ''}'' @ r) = Some (fs, r)"
proof (induction v and fs arbitrary: n r and n r rule: render_render_fields.induct)
  case (1 s)
  then obtain m where "n = Suc m" by (cases n) (auto simp: quoted_def)
  with 1 show ?case by (simp add: quoted_def read_quoted_Cons)
next
  case (2 i)
  moreover obtain c cs where "fmt_int i = c # cs" using fmt_int_Cons by blast
  ultimately obtain m where "n = Suc m" by (cases n) auto
  with 2 show ?case by (simp add: read_value_number del: read_value.simps)
next
  case (3 b)
  then obtain m where "n = Suc m" by (cases n) (auto split: if_splits)
  then show ?case by simp
next
  case (4 fs)
  then obtain m where n: "n = Suc m" by (cases n) auto
  with 4 have "read_fields m (render_fields fs @ ''}'' @ r) = Some (fs, r)"
    by (intro 4(1)) auto
  with n show ?case by simp
next
  case 5
  then show ?case by simp
next
  case (6 k v)
  then obtain m where n: "n = Suc m" by (cases n) (auto simp: quoted_def)
  with 6 have "read_value m (render v @ CHR ''}'' # r) = Some (v, CHR ''}'' # r)"
    by (intro 6(1)) (auto simp: quoted_def ends_number_def is_digit_def)
  with n 6(2) show ?case by (simp add: read_quoted_quoted)
next
  case (7 k v f fs)
  then obtain m where n: "n = Suc m" by (cases n) (auto simp: quoted_def)
  with 7 have v: "read_value m (render v @ t) = Some (v, t)" if "ends_number t" for t
    using that by (intro 7(1)) (auto simp: quoted_def)
  have "ends_number (CHR '','' # t)" for t by (simp add: ends_number_def is_digit_def)
  note v = v [OF this]
  from n 7 have "read_fields m (render_fields (f # fs) @ ''}'' @ r) = Some (f # fs, r)"
    by (intro 7(2)) (auto simp: quoted_def)
  with n v 7(3) show ?case by (simp add: read_quoted_quoted)
qed

lemma read_json_render: "plain v \<Longrightarrow> read_json (render v) = Some v"
  using read_render(1) [of v "length (render v)" "[]"] by (simp add: read_json_def ends_number_def)

lemma plain_text_append [simp]: "plain_text (s @ t) \<longleftrightarrow> plain_text s \<and> plain_text t"
  by (auto simp: plain_text_def)

end
