(* ===== verification/Encoder.thy ===== *)
theory Encoder
  imports Json_Map Json_Text
begin

text \<open>
  \<open>protocol/json/encoder.cpp\<close>: the JSON text of a new order (REST and websocket) and of a
  websocket cancel. The formatting of decimals (\<open>roq::Decimal\<close>) and the text of the two internal
  enum values are parameters; the other enum texts are the values of the schema files.
\<close>

record encoder_env =
  fmt_decimal :: "f64 \<Rightarrow> nat \<Rightarrow> string"
  internal_text :: string

definition side_raw_text :: "encoder_env \<Rightarrow> json_side \<Rightarrow> string" where
  "side_raw_text E sd = (case sd of JSide_BUY \<Rightarrow> ''buy'' | JSide_SELL \<Rightarrow> ''sell'' | _ \<Rightarrow> internal_text E)"

definition order_type_raw_text :: "encoder_env \<Rightarrow> json_order_type \<Rightarrow> string" where
  "order_type_raw_text E t = (case t of JOrderType_MARKET \<Rightarrow> ''market'' | JOrderType_LIMIT \<Rightarrow> ''limit''
     | _ \<Rightarrow> internal_text E)"

definition margin_mode_raw_text :: "encoder_env \<Rightarrow> json_margin_mode \<Rightarrow> string" where
  "margin_mode_raw_text E m = (case m of JMarginMode_CROSS \<Rightarrow> ''CROSS'' | JMarginMode_ISOLATED \<Rightarrow> ''ISOLATED''
     | _ \<Rightarrow> internal_text E)"

definition time_in_force_raw_text :: "encoder_env \<Rightarrow> json_time_in_force \<Rightarrow> string" where
  "time_in_force_raw_text E t = (case t of JTimeInForce_GTC \<Rightarrow> ''GTC'' | JTimeInForce_IOC \<Rightarrow> ''IOC''
     | JTimeInForce_FOK \<Rightarrow> ''FOK'' | JTimeInForce_GTT \<Rightarrow> ''GTT'' | _ \<Rightarrow> internal_text E)"

definition fmt_bool :: "bool \<Rightarrow> string" where
  "fmt_bool b = (if b then ''true'' else ''false'')"

text \<open>\<open>None\<close> is the failed assertion of an order with no order type.\<close>

definition add_order ::
    "encoder_env \<Rightarrow> create_order \<Rightarrow> ref_data \<Rightarrow> string \<Rightarrow> margin_mode \<Rightarrow> string option" where
  \<open>add_order E create_order ref_data request_id default_margin_mode = (
     let sd = to_json_side (co_side create_order);
         type = to_json_order_type (co_order_type create_order);
         reduce_only = DO_NOT_INCREASE \<in> set (co_execution_instructions create_order);
         margin_mode = to_json_margin_mode
           (if co_margin_mode create_order \<noteq> MarginMode_UNDEFINED
            then co_margin_mode create_order else default_margin_mode);
         buffer = ''{'' @
           ''"clientOid":"'' @ request_id @ ''",'' @
           ''"symbol":"'' @ co_symbol create_order @ ''",'' @
           ''"side":"'' @ side_raw_text E sd @ ''",'' @
           ''"marginMode":"'' @ margin_mode_raw_text E margin_mode @ ''",'' @
           ''"type":"'' @ order_type_raw_text E type @ ''"'';
         buffer = (if PARTICIPATE_DO_NOT_INITIATE \<in> set (co_execution_instructions create_order)
           then buffer @ '',"postOnly":true'' else buffer)
     in case co_order_type create_order of
          OrderType_UNDEFINED \<Rightarrow> None
        | OrderType_MARKET \<Rightarrow> Some (buffer @
            '',"reduceOnly":'' @ fmt_bool reduce_only @
            '',"size":"'' @ fmt_decimal E (co_quantity create_order) (rf_quantity_precision ref_data) @ ''"'' @
            ''}'')
        | OrderType_LIMIT \<Rightarrow> Some (buffer @
            '',"timeInForce":"'' @
              time_in_force_raw_text E (to_json_time_in_force (co_time_in_force create_order)) @ ''"'' @
            '',"reduceOnly":'' @ fmt_bool reduce_only @
            '',"size":"'' @ fmt_decimal E (co_quantity create_order) (rf_quantity_precision ref_data) @ ''"'' @
            '',"price":"'' @ fmt_decimal E (co_price create_order) (rf_price_precision ref_data) @ ''"'' @
            ''}''))\<close>

definition ws_add_order ::
    "encoder_env \<Rightarrow> create_order \<Rightarrow> ref_data \<Rightarrow> string \<Rightarrow> margin_mode \<Rightarrow> string option" where
  \<open>ws_add_order E create_order ref_data request_id margin_mode =
     map_option (\<lambda>args. ''{'' @ ''"id":"'' @ request_id @ ''",'' @ ''"op":"futures.order",'' @ ''"args":'' @ args @ ''}'')
       (add_order E create_order ref_data request_id margin_mode)\<close>

definition ws_cancel_order :: "oms_order \<Rightarrow> string \<Rightarrow> string" where
  \<open>ws_cancel_order order request_id =
     ''{'' @ ''"id":"'' @ request_id @ ''",'' @ ''"op":"futures.cancel",'' @ ''"args":{'' @
     ''"symbol":"'' @ or_symbol order @ ''",'' @ ''"clientOid":"'' @ or_client_order_id order @ ''"'' @ ''}'' @ ''}''\<close>

subsection \<open>The order as a list of fields\<close>

definition chosen_margin_mode :: "create_order \<Rightarrow> margin_mode \<Rightarrow> json_margin_mode" where
  "chosen_margin_mode co dflt =
     to_json_margin_mode (if co_margin_mode co = MarginMode_UNDEFINED then dflt else co_margin_mode co)"

definition order_fields ::
    "encoder_env \<Rightarrow> create_order \<Rightarrow> ref_data \<Rightarrow> string \<Rightarrow> margin_mode \<Rightarrow> (string \<times> json) list" where
  "order_fields E co rf rid dflt =
     [(''clientOid'', JText rid), (''symbol'', JText (co_symbol co)),
      (''side'', JText (side_raw_text E (to_json_side (co_side co)))),
      (''marginMode'', JText (margin_mode_raw_text E (chosen_margin_mode co dflt))),
      (''type'', JText (order_type_raw_text E (to_json_order_type (co_order_type co))))]
     @ (if PARTICIPATE_DO_NOT_INITIATE \<in> set (co_execution_instructions co) then [(''postOnly'', JFlag True)] else [])
     @ (if co_order_type co = OrderType_LIMIT
        then [(''timeInForce'', JText (time_in_force_raw_text E (to_json_time_in_force (co_time_in_force co))))] else [])
     @ [(''reduceOnly'', JFlag (DO_NOT_INCREASE \<in> set (co_execution_instructions co))),
        (''size'', JText (fmt_decimal E (co_quantity co) (rf_quantity_precision rf)))]
     @ (if co_order_type co = OrderType_LIMIT
        then [(''price'', JText (fmt_decimal E (co_price co) (rf_price_precision rf)))] else [])"

text \<open>The texts that reach the message from outside; none may hold a quote or a backslash.\<close>

definition plain_inputs :: "encoder_env \<Rightarrow> create_order \<Rightarrow> ref_data \<Rightarrow> string \<Rightarrow> bool" where
  "plain_inputs E co rf rid \<longleftrightarrow> plain_text rid \<and> plain_text (co_symbol co) \<and> plain_text (internal_text E)
     \<and> plain_text (fmt_decimal E (co_quantity co) (rf_quantity_precision rf))
     \<and> plain_text (fmt_decimal E (co_price co) (rf_price_precision rf))"

lemma add_order_renders:
  "co_order_type co \<noteq> OrderType_UNDEFINED \<Longrightarrow>
     add_order E co rf rid dflt = Some (render (JFields (order_fields E co rf rid dflt)))"
  by (cases "co_order_type co")
    (auto simp: add_order_def order_fields_def chosen_margin_mode_def quoted_def fmt_bool_def Let_def)

lemma plain_raw_texts:
  assumes "plain_text (internal_text E)"
  shows "plain_text (side_raw_text E a) \<and> plain_text (order_type_raw_text E b)
     \<and> plain_text (margin_mode_raw_text E c) \<and> plain_text (time_in_force_raw_text E d)"
proof -
  have "plain_text (side_raw_text E a)"
    using assms by (cases a) (simp_all add: side_raw_text_def plain_text_def)
  moreover have "plain_text (order_type_raw_text E b)"
    using assms by (cases b) (simp_all add: order_type_raw_text_def plain_text_def)
  moreover have "plain_text (margin_mode_raw_text E c)"
    using assms by (cases c) (simp_all add: margin_mode_raw_text_def plain_text_def)
  moreover have "plain_text (time_in_force_raw_text E d)"
    using assms by (cases d) (simp_all add: time_in_force_raw_text_def plain_text_def)
  ultimately show ?thesis by simp
qed

lemma plain_order_fields:
  "plain_inputs E co rf rid \<Longrightarrow> plain (JFields (order_fields E co rf rid dflt))"
  by (auto simp: order_fields_def plain_inputs_def plain_raw_texts)
    (auto simp: plain_text_def)

definition ws_fields :: "string \<Rightarrow> string \<Rightarrow> (string \<times> json) list \<Rightarrow> (string \<times> json) list" where
  "ws_fields rid op args = [(''id'', JText rid), (''op'', JText op), (''args'', JFields args)]"

lemma ws_add_order_renders:
  "co_order_type co \<noteq> OrderType_UNDEFINED \<Longrightarrow> ws_add_order E co rf rid dflt
     = Some (render (JFields (ws_fields rid ''futures.order'' (order_fields E co rf rid dflt))))"
  by (simp add: ws_add_order_def add_order_renders ws_fields_def quoted_def)

lemma ws_cancel_order_renders:
  "ws_cancel_order order rid = render (JFields (ws_fields rid ''futures.cancel''
     [(''symbol'', JText (or_symbol order)), (''clientOid'', JText (or_client_order_id order))]))"
  by (simp add: ws_cancel_order_def ws_fields_def quoted_def)

subsection \<open>Properties\<close>

text \<open>
  C28. A new order is sent as well-formed JSON that reads back to exactly the order: the client
  order id, symbol, side, margin mode (the configured default when the order names none) and type
  always; postOnly exactly for participate-do-not-initiate; time in force and price exactly for
  limit orders; reduceOnly exactly for do-not-increase; and the size. The websocket form wraps
  the same object with the request id. Only an order without a type fails (the assertion).
\<close>

theorem order_text_roundtrip:
  assumes "plain_inputs E co rf rid"
  shows "(add_order E co rf rid dflt = None \<longleftrightarrow> co_order_type co = OrderType_UNDEFINED)
     \<and> (add_order E co rf rid dflt = Some body \<longrightarrow>
          read_json body = Some (JFields (order_fields E co rf rid dflt)))
     \<and> (ws_add_order E co rf rid dflt = Some body \<longrightarrow>
          read_json body = Some (JFields (ws_fields rid ''futures.order'' (order_fields E co rf rid dflt))))"
proof (cases "co_order_type co = OrderType_UNDEFINED")
  case True
  then show ?thesis by (simp add: add_order_def ws_add_order_def Let_def)
next
  case False
  have args: "plain (JFields (order_fields E co rf rid dflt))"
    using assms by (rule plain_order_fields)
  have plain_rid: "plain_text rid" using assms by (simp add: plain_inputs_def)
  have ws_args: "plain (JFields (ws_fields rid ''futures.order'' (order_fields E co rf rid dflt)))"
    using args plain_rid by (simp add: ws_fields_def) (simp add: plain_text_def)
  show ?thesis
    using False read_json_render [OF args] read_json_render [OF ws_args]
    by (auto simp: add_order_renders ws_add_order_renders simp del: render.simps plain.simps)
qed

definition sample_env :: encoder_env where
  "sample_env = \<lparr>fmt_decimal = (\<lambda>x d. if d = 0 then ''1'' else ''32000.0''), internal_text = []\<rparr>"

definition sample_order :: create_order where
  "sample_order = \<lparr>co_account = ''A1'', co_order_id = 1, co_symbol = ''XBTUSDTM'', co_side = Side_BUY,
     co_margin_mode = MarginMode_UNDEFINED, co_order_type = OrderType_LIMIT, co_time_in_force = TimeInForce_IOC,
     co_execution_instructions = [PARTICIPATE_DO_NOT_INITIATE], co_quantity = Fin 1, co_price = Fin 32000\<rparr>"

theorem order_text_roundtrip_witness:
  "\<exists>body. add_order sample_env sample_order \<lparr>rf_quantity_precision = 0, rf_price_precision = 1\<rparr> ''1234'' MarginMode_CROSS = Some body
     \<and> read_json body = Some (JFields
        [(''clientOid'', JText ''1234''), (''symbol'', JText ''XBTUSDTM''), (''side'', JText ''buy''),
         (''marginMode'', JText ''CROSS''), (''type'', JText ''limit''), (''postOnly'', JFlag True),
         (''timeInForce'', JText ''IOC''), (''reduceOnly'', JFlag False), (''size'', JText ''1''),
         (''price'', JText ''32000.0'')])"
proof -
  let ?rf = "\<lparr>rf_quantity_precision = 0, rf_price_precision = 1\<rparr>"
  have p: "plain_inputs sample_env sample_order ?rf ''1234''"
    by (simp add: plain_inputs_def sample_env_def sample_order_def plain_text_def)
  have t: "co_order_type sample_order \<noteq> OrderType_UNDEFINED"
    by (simp add: sample_order_def)
  obtain body where b: "add_order sample_env sample_order ?rf ''1234'' MarginMode_CROSS = Some body"
    using order_text_roundtrip [OF p, of MarginMode_CROSS] t by (cases "add_order sample_env sample_order ?rf ''1234'' MarginMode_CROSS") auto
  have "order_fields sample_env sample_order ?rf ''1234'' MarginMode_CROSS =
        [(''clientOid'', JText ''1234''), (''symbol'', JText ''XBTUSDTM''), (''side'', JText ''buy''),
         (''marginMode'', JText ''CROSS''), (''type'', JText ''limit''), (''postOnly'', JFlag True),
         (''timeInForce'', JText ''IOC''), (''reduceOnly'', JFlag False), (''size'', JText ''1''),
         (''price'', JText ''32000.0'')]"
    by (simp add: order_fields_def sample_order_def sample_env_def chosen_margin_mode_def side_raw_text_def
        margin_mode_raw_text_def order_type_raw_text_def time_in_force_raw_text_def)
  with b order_text_roundtrip [OF p, of MarginMode_CROSS body] show ?thesis by simp
qed

text \<open>
  A websocket cancel names exactly the order: read back, it is the cancel operation of the
  request with the order's symbol and client order id.
\<close>

theorem cancel_text_roundtrip:
  assumes "plain_text rid" and "plain_text (or_symbol order)" and "plain_text (or_client_order_id order)"
  shows "read_json (ws_cancel_order order rid) = Some (JFields [(''id'', JText rid), (''op'', JText ''futures.cancel''),
     (''args'', JFields [(''symbol'', JText (or_symbol order)), (''clientOid'', JText (or_client_order_id order))])])"
proof -
  have "plain (JFields (ws_fields rid ''futures.cancel''
      [(''symbol'', JText (or_symbol order)), (''clientOid'', JText (or_client_order_id order))]))"
    using assms by (simp add: ws_fields_def) (simp add: plain_text_def)
  from read_json_render [OF this] show ?thesis
    by (simp add: ws_cancel_order_renders ws_fields_def del: render.simps)
qed

definition sample_oms_order :: oms_order where
  "sample_oms_order = \<lparr>or_user_id = 1, or_order_id = 7, or_account = ''A1'', or_exchange = ''kucoin-futures'',
     or_symbol = ''XBTUSDTM'', or_side = Side_BUY, or_position_effect = PositionEffect_UNDEFINED,
     or_margin_mode = MarginMode_ISOLATED, or_external_order_id = ''x1'', or_client_order_id = ''c1'',
     or_routing_id = [], or_strategy_id = 0\<rparr>"

theorem cancel_text_roundtrip_witness:
  "read_json (ws_cancel_order sample_oms_order ''9'') = Some (JFields [(''id'', JText ''9''), (''op'', JText ''futures.cancel''),
     (''args'', JFields [(''symbol'', JText ''XBTUSDTM''), (''clientOid'', JText ''c1'')])])"
  using cancel_text_roundtrip [of "''9''" sample_oms_order] by (simp add: sample_oms_order_def plain_text_def)

end
