(* ===== verification/Order_Actions.thy ===== *)
theory Order_Actions
  imports Encoder Streams
begin

text \<open>
  What the two order entry streams have in common: the actions that
  \<open>server::OrderActionStream\<close> asks of them, the response they build to report on an order, and
  the contract of such a stream: an action is either taken, and then the stream names itself and
  has sent the order's message once, or refused, and then nothing has been sent.
\<close>

subsection \<open>Actions\<close>

text \<open>The part of \<open>MessageInfo\<close> that is used: the user, and the times for the signature.\<close>

record message_info =
  msg_source :: "8 word"
  msg_trace_info :: trace_info

datatype order_action =
    CreateOrder message_info create_order ref_data string
  | ModifyOrder
  | CancelOrder message_info cancel_order oms_order string
  | CancelAllOrders message_info cancel_all_orders string

text \<open>The response of \<open>server::oms::Response\<close>, without the fields only an acknowledgement has.\<close>

definition order_response ::
    "request_type \<Rightarrow> 32 word \<Rightarrow> origin \<Rightarrow> request_status \<Rightarrow> error \<Rightarrow> string \<Rightarrow> response" where
  "order_response type version orig status err text =
     \<lparr>rs_request_type = type, rs_origin = orig, rs_request_status = status, rs_error = err, rs_text = text,
      rs_version = version, rs_request_id = [], rs_external_order_id = [], rs_client_order_id = []\<rparr>"

subsection \<open>The contract\<close>

fun message_out :: "effect \<Rightarrow> bool" where
  "message_out (SendText m) = True"
| "message_out (SendRequest r i c) = True"
| "message_out _ = False"

definition messages :: "effect list \<Rightarrow> nat" where
  "messages as = length (filter message_out as)"

lemma messages_simps [simp]:
  "messages [] = 0"
  "messages (a # as) = (if message_out a then Suc (messages as) else messages as)"
  "messages (as @ bs) = messages as + messages bs"
  by (simp_all add: messages_def)

text \<open>The actions on one order; a cancel-all may have any number of orders to act on.\<close>

fun on_one_order :: "order_action \<Rightarrow> bool" where
  "on_one_order (CancelAllOrders info xa request_id) = False"
| "on_one_order _ = True"

text \<open>A run of actions, with the verdict on each; it stops if the process does.\<close>

fun run_actions ::
    "(order_action \<Rightarrow> ('s, exn, 16 word) stmt) \<Rightarrow> order_action list \<Rightarrow> 's \<Rightarrow> (bool list \<times> 's) option" where
  "run_actions act [] s = Some ([], s)"
| "run_actions act (a # as) s = (case act a s of
     Normal i t \<Rightarrow> map_option (\<lambda>(taken, u). (True # taken, u)) (run_actions act as t)
   | Thrown e t \<Rightarrow> map_option (\<lambda>(taken, u). (False # taken, u)) (run_actions act as t)
   | Fatal msg t \<Rightarrow> None)"

locale order_action_stream =
  fixes stream_id :: "16 word"
    and act :: "order_action \<Rightarrow> ('z ctx_scheme, exn, 16 word) stmt"
  assumes taken: "act a s = Normal i t \<Longrightarrow> i = stream_id \<and>
      (\<exists>as. trace t = trace s @ as \<and> (on_one_order a \<longrightarrow> messages as = 1))"
    and refused: "act a s = Thrown e t \<Longrightarrow> t = s"
    and no_modify: "act ModifyOrder s = Thrown (OmsException NotSupported ''not supported'') s"
begin

lemma taken_by_self: "act a s = Normal i t \<Longrightarrow> i = stream_id"
  by (drule taken) simp

lemma sent_once: "act a s = Normal i t \<Longrightarrow> on_one_order a \<Longrightarrow> messages (trace t) = Suc (messages (trace s))"
  by (drule taken) auto

lemma run_sends_what_it_takes:
  assumes "run_actions act as s = Some (taken, t)" and "\<forall>a\<in>set as. on_one_order a"
  shows "length taken = length as \<and> messages (trace t) = messages (trace s) + length (filter (\<lambda>b. b) taken)"
  using assms
proof (induction as arbitrary: s taken)
  case (Cons a as)
  show ?case
  proof (cases "act a s")
    case (Normal i u)
    from Cons.prems(1) Normal obtain rest where rest: "run_actions act as u = Some (rest, t)" "taken = True # rest"
      by auto
    from Cons.IH [OF rest(1)] Cons.prems(2) have
      "length rest = length as \<and> messages (trace t) = messages (trace u) + length (filter (\<lambda>b. b) rest)"
      by simp
    moreover from Cons.prems(2) have "messages (trace u) = Suc (messages (trace s))"
      by (intro sent_once [OF Normal]) simp
    ultimately show ?thesis using rest(2) by simp
  next
    case (Thrown e u)
    with Cons.prems(1) obtain rest where rest: "run_actions act as u = Some (rest, t)" "taken = False # rest"
      by auto
    from refused [OF Thrown] have "u = s" .
    with Cons.IH [OF rest(1)] Cons.prems(2) rest(2) show ?thesis by simp
  next
    case (Fatal msg u)
    with Cons.prems(1) show ?thesis by simp
  qed
qed simp

end

end
