(* ===== verification/Replies.thy ===== *)
theory Replies
  imports Streams
begin

text \<open>
  What the answer to a REST request amounts to. \<open>process_response\<close> of \<open>order_entry_rest.cpp\<close> walks
  through status categories, decoder errors and exceptions; here all of that is one value: the
  data, a failure with its origin, status, error and text, nothing at all, or a redirection (which
  ends the process). Handlers that do not throw do exactly what that value says.
\<close>

datatype 'a reply =
    Redirected
  | Silent
  | Data 'a
  | Failed origin request_status error string

definition failure :: "(oms_exception \<Rightarrow> origin \<times> request_status \<times> error) \<Rightarrow> exn \<Rightarrow> 'a reply" where
  "failure oms_fields e = (case e of
     OmsException k msg \<Rightarrow> (case oms_fields k of (orig, status, err) \<Rightarrow> Failed orig status err msg)
   | NetworkError status err msg \<Rightarrow> Failed Origin_GATEWAY status err msg
   | _ \<Rightarrow> Failed Origin_EXCHANGE RequestStatus_ERROR Error_UNKNOWN (what e))"

definition reply_of ::
    "(oms_exception \<Rightarrow> origin \<times> request_status \<times> error) \<Rightarrow> rest_response \<Rightarrow> (string \<Rightarrow> exn + 'a) \<Rightarrow> 'a reply" where
  "reply_of oms_fields response decode = (case rr_result response of
     Inl e \<Rightarrow> failure oms_fields e
   | Inr (status, category, body) \<Rightarrow>
       if category = REDIRECTION then Redirected
       else if category = SERVER_ERROR then Failed Origin_EXCHANGE RequestStatus_REJECTED Error_UNKNOWN status
       else if category = SUCCESS \<or> category = CLIENT_ERROR
       then (case decode body of Inl e \<Rightarrow> failure oms_fields e | Inr a \<Rightarrow> Data a)
       else (case rr_expect_ok response of Inl e \<Rightarrow> failure oms_fields e | Inr _ \<Rightarrow> Silent))"

definition redirected :: "rest_response \<Rightarrow> bool" where
  "redirected response \<longleftrightarrow> (\<exists>status body. rr_result response = Inr (status, REDIRECTION, body))"

lemma failure_not_data [simp]:
  "failure oms e \<noteq> Redirected" "failure oms e \<noteq> Silent" "failure oms e \<noteq> Data a"
  by (simp_all add: failure_def split: exn.splits prod.splits)

lemma reply_of_Redirected [simp]: "reply_of oms response decode = Redirected \<longleftrightarrow> redirected response"
  by (auto simp: reply_of_def redirected_def split: sum.splits)

lemma reply_of_ok_response: "reply_of oms (ok_response body) decode = (case decode body of Inl e \<Rightarrow> failure oms e | Inr a \<Rightarrow> Data a)"
  by (simp add: reply_of_def ok_response_def)

subsection \<open>Statements that do not throw\<close>

definition nothrow :: "('s, exn, 'a) stmt \<Rightarrow> bool" where
  "nothrow m \<longleftrightarrow> (\<forall>s e t. m s \<noteq> Thrown e t)"

named_theorems nothrow_intros "rules for statements that do not throw"

lemma nothrow_basic [nothrow_intros]:
  "nothrow (ret a)" "nothrow skip" "nothrow (fatal msg)" "nothrow (modify f)"
  by (simp_all add: nothrow_def exec_simps)

lemma nothrow_emit [nothrow_intros]: "nothrow (emit a)" "nothrow (dispatch u)"
  by (simp_all add: nothrow_def exec_simps)

lemma nothrow_bindm [nothrow_intros]: "nothrow m \<Longrightarrow> (\<And>a. nothrow (f a)) \<Longrightarrow> nothrow (bindm m f)"
  by (auto simp: nothrow_def bindm_def split: outcome.splits)

lemma nothrow_seqm [nothrow_intros]: "nothrow m \<Longrightarrow> nothrow n \<Longrightarrow> nothrow (seqm m n)"
  unfolding seqm_def by (rule nothrow_bindm)

lemma nothrow_reading [nothrow_intros]: "(\<And>b. nothrow (k b)) \<Longrightarrow> nothrow (reading f k)"
  by (simp add: nothrow_def reading_def)

lemma nothrow_ask [nothrow_intros]: "(\<And>b. nothrow (k b)) \<Longrightarrow> nothrow (ask name answer k)"
  by (simp add: nothrow_def ask_run)

lemma nothrow_whenm [nothrow_intros]: "nothrow m \<Longrightarrow> nothrow (whenm c m)"
  by (simp add: nothrow_def whenm_def)

lemma nothrow_if [nothrow_intros]: "nothrow m \<Longrightarrow> nothrow n \<Longrightarrow> nothrow (if c then m else n)"
  by simp

lemma nothrow_for_each [nothrow_intros]: "(\<And>x. nothrow (body x)) \<Longrightarrow> nothrow (for_each xs body)"
  by (induction xs) (simp_all add: nothrow_intros)

lemma nothrow_block [nothrow_intros]: "(\<And>c. c \<in> set cs \<Longrightarrow> nothrow c) \<Longrightarrow> nothrow (block cs)"
  by (induction cs) (simp_all add: nothrow_intros)

lemma nothrow_run_download [nothrow_intros]: "(\<And>st. nothrow (download st)) \<Longrightarrow> nothrow (run_download download r)"
proof (induction r)
  case (DlCall st k)
  have "nothrow (run_download download (k n))" for n
    by (rule DlCall) (simp_all add: DlCall.prems)
  then show ?case by (simp add: DlCall.prems nothrow_bindm)
qed (simp add: nothrow_intros)

subsection \<open>Handlers do what the reply says\<close>

lemma process_response_reply:
  assumes "\<And>a. nothrow (ok a)" and err: "\<And>a b c d. nothrow (err a b c d)"
  shows "process_response oms response err (\<lambda>body. bindm (lift_sum (decode body)) ok) s =
    (case reply_of oms response decode of
       Redirected \<Rightarrow> Fatal ''Unexpected: URL is being redirected'' s
     | Silent \<Rightarrow> Normal () s
     | Data a \<Rightarrow> ok a s
     | Failed orig status er text \<Rightarrow> err orig status er text s)"
proof -
  let ?caught = "\<lambda>e. case e of
          OmsException k msg \<Rightarrow> (case oms k of (orig, status, er) \<Rightarrow> err orig status er msg)
        | NetworkError status er msg \<Rightarrow> err Origin_GATEWAY status er msg
        | BadState \<Rightarrow> err Origin_EXCHANGE RequestStatus_ERROR Error_UNKNOWN (what e)
        | RuntimeError msg \<Rightarrow> err Origin_EXCHANGE RequestStatus_ERROR Error_UNKNOWN (what e)
        | StdException msg \<Rightarrow> err Origin_EXCHANGE RequestStatus_ERROR Error_UNKNOWN (what e)"
  have caught: "?caught e s = (case failure oms e of Redirected \<Rightarrow> Fatal ''Unexpected: URL is being redirected'' s
     | Silent \<Rightarrow> Normal () s | Data a \<Rightarrow> ok a s | Failed orig status er text \<Rightarrow> err orig status er text s)"
    for e by (cases e) (auto simp: failure_def split: prod.splits)
  have thrown: "try_catch (throw e) ?caught s = ?caught e s" for e
    by (simp add: exec_simps)
  have data: "try_catch (ok a) ?caught s = ok a s" for a
    using assms(1) [of a] by (cases "ok a s") (simp_all add: try_catch_def nothrow_def)
  show ?thesis
  proof (cases "rr_result response")
    case (Inl e)
    then show ?thesis
      by (simp only: process_response_def response_switch_def lift_sum_Inl bindm_throw thrown caught reply_of_def sum.case)
  next
    case (Inr r)
    obtain status category body where r: "r = (status, category, body)"
      by (cases r) auto
    have fatal: "try_catch (fatal msg) ?caught s = Fatal msg s" for msg
      by (simp add: exec_simps)
    have failed: "try_catch (err a b c d) ?caught s = err a b c d s" for a b c d
      using err [of a b c d] by (cases "err a b c d s") (simp_all add: try_catch_def nothrow_def)
    have quiet: "try_catch (ret u) ?caught s = Normal () s" for u
      by (simp add: exec_simps)
    show ?thesis
      by (cases category; cases "decode body"; cases "rr_expect_ok response")
        (simp_all only: process_response_def response_switch_def reply_of_def Inr r lift_sum_Inr bindm_ret prod.case sum.case
          http_category.case http_category.distinct lift_sum_Inl bindm_throw thrown caught data fatal failed quiet
          reply.case if_True if_False simp_thms)
  qed
qed

lemma nothrow_process_response [nothrow_intros]:
  assumes "\<And>a. nothrow (ok a)" and "\<And>a b c d. nothrow (err a b c d)"
  shows "nothrow (process_response oms response err (\<lambda>body. bindm (lift_sum (decode body)) ok))"
  using assms unfolding nothrow_def
  by (auto simp: process_response_reply [OF assms] split: reply.splits)

text \<open>Statements that always return.\<close>

definition total :: "('s, exn, unit) stmt \<Rightarrow> bool" where
  "total m \<longleftrightarrow> (\<forall>s. \<exists>t. m s = Normal () t)"

named_theorems total_intros "rules for statements that always return"

lemma total_basic [total_intros]: "total skip" "total (emit a)" "total (dispatch u)" "total (modify f)"
  by (simp_all add: total_def exec_simps)

lemma total_if [total_intros]: "total m \<Longrightarrow> total n \<Longrightarrow> total (if c then m else n)"
  by simp

lemma total_seqm [total_intros]: "total m \<Longrightarrow> total n \<Longrightarrow> total (seqm m n)"
  unfolding total_def by (metis seqm_Normal)

lemma total_for_each [total_intros]: "(\<And>x. total (body x)) \<Longrightarrow> total (for_each xs body)"
  by (induction xs) (simp_all add: total_intros)

lemma total_nothrow: "total m \<Longrightarrow> nothrow m"
  unfolding total_def nothrow_def by (metis outcome.distinct(1))

text \<open>A handler made of such statements returns, unless the response is a redirection.\<close>

lemma process_response_total:
  assumes ok: "\<And>a. total (ok a)" and err: "\<And>a b c d. total (err a b c d)"
  shows "process_response oms response err (\<lambda>body. bindm (lift_sum (decode body)) ok) s
      = Fatal ''Unexpected: URL is being redirected'' s \<and> redirected response
    \<or> (\<exists>t. process_response oms response err (\<lambda>body. bindm (lift_sum (decode body)) ok) s = Normal () t
      \<and> \<not> redirected response)"
proof -
  have red: "redirected response \<longleftrightarrow> reply_of oms response decode = Redirected" by simp
  show ?thesis
    unfolding process_response_reply [where ok = ok, OF total_nothrow [OF ok] total_nothrow [OF err]] red
    using ok err unfolding total_def
    by (cases "reply_of oms response decode") (simp_all del: reply_of_Redirected)
qed

subsection \<open>What a statement adds to the trace\<close>

definition grows :: "(effect \<Rightarrow> bool) \<Rightarrow> effect list \<Rightarrow> 'z ctx_scheme \<Rightarrow> bool" where
  "grows P before s \<longleftrightarrow> (\<exists>as. trace s = before @ as \<and> list_all P as)"

lemma grows_refl [simp]: "grows P (trace s) s"
  by (auto simp: grows_def)

lemma keeps_grows_emit: "P a \<Longrightarrow> keeps (grows P tr) (emit a)"
  by (rule keeps_emit) (auto simp: grows_def)

lemma keeps_grows_dispatch: "P (Dispatch u) \<Longrightarrow> keeps (grows P tr) (dispatch u)"
  unfolding dispatch_def by (rule keeps_grows_emit)

lemma keeps_grows_modify: "(\<And>s. trace (f s) = trace s) \<Longrightarrow> keeps (grows P tr) (modify f)"
  by (rule keeps_modify) (simp add: grows_def)

lemma keeps_grows_ask: "P (Call name) \<Longrightarrow> (\<And>b. keeps (grows P tr) (k b)) \<Longrightarrow> keeps (grows P tr) (ask name answer k)"
  by (rule keeps_ask [OF keeps_grows_emit])

lemmas grows_rules = keeps_grows_emit keeps_grows_dispatch keeps_grows_modify keeps_grows_ask keeps_intros keeps_block

subsection \<open>Answers that complete a request\<close>

fun committed :: "effect \<Rightarrow> request_kind option" where
  "committed (ReqCommit k) = Some k"
| "committed _ = None"

definition commits :: "effect list \<Rightarrow> request_kind list" where
  "commits as = List.map_filter committed as"

lemma commits_simps [simp]:
  "commits [] = []"
  "commits (a # as) = (case committed a of None \<Rightarrow> commits as | Some k \<Rightarrow> k # commits as)"
  "commits (as @ bs) = commits as @ commits bs"
  by (simp_all add: commits_def map_filter_def split: option.splits)

lemma commits_none: "list_all (\<lambda>a. committed a = None) as \<Longrightarrow> commits as = []"
  by (induction as) simp_all

text \<open>
  The contract of a handler that answers the requests of one slot: it catches whatever is thrown,
  and every answer it survives commits the slot exactly once and no other slot.
\<close>

locale request_ack =
  fixes kind :: request_kind
    and ack :: "trace_info \<Rightarrow> rest_response \<Rightarrow> ('z ctx_scheme, exn, unit) stmt"
  assumes catches: "ack ti response s \<noteq> Thrown e t"
    and completes: "ack ti response s = Normal u t \<Longrightarrow> \<exists>as. trace t = trace s @ as \<and> commits as = [kind]"
begin

lemma run_completes:
  assumes "for_each responses (\<lambda>(ti, response). ack ti response) s = Normal u t"
  shows "\<exists>as. trace t = trace s @ as \<and> commits as = replicate (length responses) kind"
  using assms
proof (induction responses arbitrary: s)
  case Nil
  then show ?case by (simp add: exec_simps)
next
  case (Cons r responses)
  obtain ti response where r: "r = (ti, response)" by (cases r)
  from Cons.prems obtain v where v: "ack ti response s = Normal () v"
    "for_each responses (\<lambda>(ti, response). ack ti response) v = Normal u t"
    by (auto simp: r elim: seqm_NormalE)
  from completes [OF v(1)] obtain as where "trace v = trace s @ as" "commits as = [kind]" by blast
  moreover from Cons.IH [OF v(2)] obtain bs
    where "trace t = trace v @ bs" "commits bs = replicate (length responses) kind" by blast
  ultimately show ?case by (intro exI [of _ "as @ bs"]) simp
qed

end

text \<open>How the handlers are built: something that commits nothing, and then the commit.\<close>

lemma request_ackI:
  assumes "\<And>ti response. nothrow (m ti response)"
    and "\<And>ti response tr. keeps (grows (\<lambda>a. committed a = None) tr) (m ti response)"
  shows "request_ack kind (\<lambda>ti response. block [m ti response, emit (ReqCommit kind)])"
proof
  fix ti response s e t
  show "block [m ti response, emit (ReqCommit kind)] s \<noteq> Thrown e t"
    using assms(1) [of ti response] by (auto simp: nothrow_def exec_simps split: outcome.splits)
next
  fix ti response s u t
  assume run: "block [m ti response, emit (ReqCommit kind)] s = Normal u t"
  then obtain v where v: "m ti response s = Normal () v" "t = v\<lparr>trace := trace v @ [ReqCommit kind]\<rparr>"
    by (cases "m ti response s") (auto simp: exec_simps)
  from keepsD [OF assms(2) grows_refl, of s ti response] v(1) obtain as
    where "trace v = trace s @ as" "commits as = []"
    by (auto simp: grows_def commits_none)
  with v(2) show "\<exists>as. trace t = trace s @ as \<and> commits as = [kind]"
    by (intro exI [of _ "as @ [ReqCommit kind]"]) simp
qed

end
