(* ===== verification/Order_Entry_REST.thy ===== *)
theory Order_Entry_REST
  imports Order_Actions Replies Json_Utils
begin

text \<open>
  \<open>gateway/order_entry_rest.cpp\<close>: the private REST stream of an account. It fetches the private
  token, balances, positions, open orders, single orders and fills when the account's request
  slots ask for them, and it creates and cancels orders. The download object, request slots, the
  server's order management, the JSON decoders and the comparison \<open>utils::is_equal\<close> are external:
  their answers are the parameters \<open>order_entry_env\<close>. The signed headers are one of them; that
  they depend on nothing but their arguments is what the theory \<open>Crypto\<close> proves of the account.
\<close>

subsection \<open>State\<close>

datatype oe_state = OE_UNDEFINED | PRIVATE_TOKEN | OE_DONE

definition oe_state_index :: "oe_state \<Rightarrow> nat" where
  "oe_state_index st = (case st of OE_UNDEFINED \<Rightarrow> 0 | PRIVATE_TOKEN \<Rightarrow> 1 | OE_DONE \<Rightarrow> 2)"

text \<open>
  The counter of outstanding queries is a \<open>size_t\<close>; it counts queries that were sent, far fewer
  than its range, so it is a natural number here.
\<close>

record order_entry = request_ctx +
  oe_connection_status :: connection_status
  oe_has_downloaded_private_token :: bool
  oe_download_stale_orders_counter :: nat

record order_entry_env =
  oee_stream_id :: "16 word"
  oee_account_name :: string
  oee_settings :: settings
  oee_api :: api
  oee_margin_mode :: margin_mode
  oee_connection :: connection_env
  oee_headers :: "trace_info \<Rightarrow> http_method \<Rightarrow> string \<Rightarrow> string \<Rightarrow> string \<Rightarrow> string"
  oee_encoder :: encoder_env
  oee_token :: "string \<Rightarrow> exn + token"
  oee_account_ack :: "string \<Rightarrow> exn + account_ack"
  oee_positions_ack :: "string \<Rightarrow> exn + positions_ack"
  oee_orders_ack :: "string \<Rightarrow> exn + orders_ack"
  oee_order_ack :: "string \<Rightarrow> exn + order_ack"
  oee_fills_ack :: "string \<Rightarrow> exn + fills_ack"
  oee_add_order_ack :: "string \<Rightarrow> exn + simple_ack"
  oee_cancel_order_ack :: "string \<Rightarrow> exn + cancel_order_ack"
  oee_cancel_all_orders_ack :: "string \<Rightarrow> exn + simple_ack"
  oee_oms_fields :: "oms_exception \<Rightarrow> origin \<times> request_status \<times> error"
  oee_downloading :: "effect list \<Rightarrow> bool"
  oee_download :: "effect list \<Rightarrow> oe_state dl_run"
  oee_check_pending :: "request_kind \<Rightarrow> effect list \<Rightarrow> bool"
  oee_find_order :: "8 word \<times> 64 word \<Rightarrow> effect list \<Rightarrow> oms_order option"
  oee_order_symbols :: "effect list \<Rightarrow> string list"
  oee_is_equal :: "f64 \<Rightarrow> f64 \<Rightarrow> bool"

definition OE_SUPPORTS :: "support_type set" where
  "OE_SUPPORTS = {Support_FUNDS, Support_POSITION, Support_CREATE_ORDER, Support_CANCEL_ORDER,
     Support_ORDER_ACK, Support_TRADE}"

definition OE_SUPPORTS_WSAPI :: "support_type set" where
  "OE_SUPPORTS_WSAPI = {Support_FUNDS, Support_POSITION, Support_TRADE}"

definition OE_SYSTEM_CODE_SUCCESS :: int where
  "OE_SYSTEM_CODE_SUCCESS = 200000"

type_synonym oe_stmt = "(order_entry, exn, unit) stmt"

definition OrderEntryREST_create :: order_entry where
  "OrderEntryREST_create = \<lparr>trace = [], details_stale_orders = [],
     oe_connection_status = ConnectionStatus_UNDEFINED, oe_has_downloaded_private_token = False,
     oe_download_stale_orders_counter = 0\<rparr>"

definition oe_is_ready :: "order_entry \<Rightarrow> bool" where
  "oe_is_ready s \<longleftrightarrow> oe_connection_status s = ConnectionStatus_READY"

definition oe_report :: "order_entry_env \<Rightarrow> trace_info \<Rightarrow> connection_status \<Rightarrow> string \<Rightarrow> oe_stmt" where
  "oe_report E ti status reason = block
     [modify (\<lambda>s. s\<lparr>oe_connection_status := status\<rparr>),
      reading id (\<lambda>s. dispatch (U_StreamStatus (make_stream_status (oee_connection E) (oee_stream_id E)
        (oee_account_name E) (if set_ws_api (oee_settings E) then OE_SUPPORTS_WSAPI else OE_SUPPORTS)
        Protocol_HTTP (oe_connection_status s) reason (trace s))))]"

text \<open>Every request has the same shape; only a new order has a body, which is JSON.\<close>

definition oe_request ::
    "order_entry_env \<Rightarrow> trace_info \<Rightarrow> http_method \<Rightarrow> string \<Rightarrow> string \<Rightarrow> string \<Rightarrow> rest_request" where
  "oe_request E ti method path query body =
     \<lparr>rq_method = method, rq_path = path, rq_query = query, rq_headers = oee_headers E ti method path query body,
      rq_body = body, rq_json_content = (body \<noteq> []), rq_immediate = True\<rparr>"

subsection \<open>Private token\<close>

definition get_private_token :: "order_entry_env \<Rightarrow> trace_info \<Rightarrow> oe_stmt" where
  "get_private_token E ti = emit (SendRequest
     (oe_request E ti POST (api_bullet_private (oee_api E)) [] []) ''bullet-private'' CbPrivateToken)"

definition oe_download :: "order_entry_env \<Rightarrow> trace_info \<Rightarrow> oe_state \<Rightarrow> (order_entry, exn, int) stmt" where
  "oe_download E ti st = (case st of
     OE_UNDEFINED \<Rightarrow> fatal ''assert''
   | PRIVATE_TOKEN \<Rightarrow> reading oe_has_downloaded_private_token (\<lambda>downloaded.
       if \<not> downloaded then seqm (block
         [oe_report E ti ConnectionStatus_DOWNLOADING ''PRIVATE_TOKEN'', get_private_token E ti]) (ret 1)
       else ret 0)
   | OE_DONE \<Rightarrow> seqm (oe_report E ti ConnectionStatus_READY []) (ret 0))"

definition oe_download_call :: "order_entry_env \<Rightarrow> trace_info \<Rightarrow> effect \<Rightarrow> oe_stmt" where
  "oe_download_call E ti a = seqm (emit a)
     (reading trace (\<lambda>tr. run_download (oe_download E ti) (oee_download E tr)))"

definition oe_token :: "order_entry_env \<Rightarrow> token \<Rightarrow> oe_stmt" where
  "oe_token E token = (case tk_instance_servers token of
     [] \<Rightarrow> fatal ''Unexpected: no instance servers''
   | instance_server # _ \<Rightarrow>
       let private_token = PrivateToken (oee_account_name E) (is_endpoint instance_server)
             (''?token='' @ tk_token token) (ns_of_ms (is_ping_interval_ms instance_server))
       in if vt_ping_frequency private_token = 0 then fatal ''Unexpected: ping_interval''
          else emit (Notify private_token))"

definition get_private_token_ack :: "order_entry_env \<Rightarrow> trace_info \<Rightarrow> rest_response \<Rightarrow> oe_stmt" where
  "get_private_token_ack E ti response = block
     [process_response (oee_oms_fields E) response
        (\<lambda>orig status err text. ask ''download.downloading'' (oee_downloading E) (\<lambda>downloading.
           whenm downloading (emit (DlRetry (oe_state_index PRIVATE_TOKEN)))))
        (\<lambda>body. bindm (lift_sum (oee_token E body)) (\<lambda>token. block
           [if tk_code token = OE_SYSTEM_CODE_SUCCESS then oe_token E token else fatal ''Unexpected: token'',
            oe_download_call E ti (DlCheckRelaxed (oe_state_index PRIVATE_TOKEN)),
            modify (\<lambda>s. s\<lparr>oe_has_downloaded_private_token := True\<rparr>)])),
      emit (ReqCommit Req_PrivateToken)]"

subsection \<open>Balances and positions\<close>

definition get_account :: "order_entry_env \<Rightarrow> trace_info \<Rightarrow> oe_stmt" where
  "get_account E ti = emit (SendRequest
     (oe_request E ti GET (api_get_account_list (oee_api E)) [] []) ''account'' CbAccount)"

definition oe_account :: "order_entry_env \<Rightarrow> account_ack \<Rightarrow> oe_stmt" where
  "oe_account E data = dispatch (U_Funds
     \<lparr>fu_stream_id = oee_stream_id E, fu_account = oee_account_name E, fu_currency = aa_currency data,
      fu_balance = aa_available_balance data, fu_hold = NaN, fu_update_type = UpdateType_SNAPSHOT,
      fu_exchange_time_utc = 0, fu_exchange_sequence = 0\<rparr>)"

text \<open>The error handler of the downloads only logs.\<close>

definition log_error :: "order_entry error_handler" where
  "log_error = (\<lambda>orig status err text. skip)"

definition get_account_ack :: "order_entry_env \<Rightarrow> trace_info \<Rightarrow> rest_response \<Rightarrow> oe_stmt" where
  "get_account_ack E ti response = block
     [process_response (oee_oms_fields E) response log_error
        (\<lambda>body. bindm (lift_sum (oee_account_ack E body)) (\<lambda>account_ack.
           if aa_code account_ack = OE_SYSTEM_CODE_SUCCESS then oe_account E account_ack
           else log_error Origin_EXCHANGE RequestStatus_REJECTED (guess_error (aa_code account_ack)) (aa_msg account_ack))),
      emit (ReqCommit Req_Balances)]"

definition get_positions :: "order_entry_env \<Rightarrow> trace_info \<Rightarrow> oe_stmt" where
  "get_positions E ti = emit (SendRequest
     (oe_request E ti GET (api_get_position_list (oee_api E)) [] []) ''positions'' CbPositions)"

definition oe_position :: "order_entry_env \<Rightarrow> position_item \<Rightarrow> position_update" where
  "oe_position E item =
     \<lparr>pu_stream_id = oee_stream_id E, pu_account = oee_account_name E, pu_exchange = set_exchange (oee_settings E),
      pu_symbol = pi_symbol item, pu_margin_mode = map_margin_mode (pi_margin_mode item),
      pu_long_quantity = std_max (pi_current_qty item) (Fin 0),
      pu_short_quantity = std_max (f64_neg (pi_current_qty item)) (Fin 0),
      pu_update_type = UpdateType_INCREMENTAL, pu_exchange_time_utc = 0,
      pu_sending_time_utc = ns_of_ms (pi_current_timestamp_ms item)\<rparr>"

definition get_positions_ack :: "order_entry_env \<Rightarrow> trace_info \<Rightarrow> rest_response \<Rightarrow> oe_stmt" where
  "get_positions_ack E ti response = block
     [process_response (oee_oms_fields E) response log_error
        (\<lambda>body. bindm (lift_sum (oee_positions_ack E body)) (\<lambda>positions_ack.
           if pa_code positions_ack = OE_SYSTEM_CODE_SUCCESS
           then for_each (pa_data positions_ack) (\<lambda>item. dispatch (U_Position (oe_position E item)))
           else log_error Origin_EXCHANGE RequestStatus_REJECTED (guess_error (pa_code positions_ack)) (pa_msg positions_ack))),
      emit (ReqCommit Req_Positions)]"

subsection \<open>Orders\<close>

definition get_orders :: "order_entry_env \<Rightarrow> trace_info \<Rightarrow> oe_stmt" where
  "get_orders E ti = emit (SendRequest
     (oe_request E ti GET (api_get_order_list (oee_api E)) (''?status=active'' @ ''&pageSize='' @ fmt_nat 1000) [])
     ''orders'' CbOrders)"

definition oe_order_status :: "order_entry_env \<Rightarrow> order_item \<Rightarrow> order_status" where
  "oe_order_status E item = (let result = map_order_status (oi_status item) in
     if result = OrderStatus_COMPLETED \<and> \<not> oee_is_equal E (oi_size item) (oi_filled_size item)
     then OrderStatus_CANCELED else result)"

definition oe_remaining_quantity :: "order_entry_env \<Rightarrow> order_item \<Rightarrow> f64" where
  "oe_remaining_quantity E item =
     (if oe_order_status E item = OrderStatus_CANCELED then Fin 0 else f64_sub (oi_size item) (oi_filled_size item))"

text \<open>The two handlers build the same update; only the second passes on the remark.\<close>

definition oe_order_update :: "order_entry_env \<Rightarrow> order_item \<Rightarrow> string \<Rightarrow> order_update" where
  "oe_order_update E item text =
     \<lparr>ou_account = oee_account_name E, ou_exchange = set_exchange (oee_settings E), ou_symbol = oi_symbol item,
      ou_side = map_side (oi_side item),
      ou_position_effect = map_position_effect (oi_position_side item) (oi_side item),
      ou_margin_mode = map_margin_mode (oi_margin_mode item), ou_max_show_quantity = oi_visible_size item,
      ou_order_type = map_order_type (oi_type item), ou_time_in_force = map_time_in_force (oi_time_in_force item),
      ou_create_time_utc = ns_of_ms (oi_created_at_ms item), ou_update_time_utc = ns_of_ms (oi_updated_at_ms item),
      ou_external_order_id = oi_id item, ou_client_order_id = oi_client_oid item,
      ou_order_status = oe_order_status E item, ou_text = text, ou_quantity = oi_size item, ou_price = oi_price item,
      ou_stop_price = oi_stop_price item, ou_remaining_quantity = oe_remaining_quantity E item,
      ou_traded_quantity = oi_filled_size item, ou_average_traded_price = oi_avg_deal_price item,
      ou_last_traded_quantity = NaN, ou_last_traded_price = NaN, ou_last_liquidity = Liquidity_UNDEFINED,
      ou_sending_time_utc = 0\<rparr>"

definition oe_orders :: "order_entry_env \<Rightarrow> order_item list \<Rightarrow> oe_stmt" where
  "oe_orders E items = for_each items (\<lambda>item. dispatch (U_Order (oe_order_update E item []) (oee_stream_id E)))"

definition get_orders_ack :: "order_entry_env \<Rightarrow> trace_info \<Rightarrow> rest_response \<Rightarrow> oe_stmt" where
  "get_orders_ack E ti response = block
     [process_response (oee_oms_fields E) response log_error
        (\<lambda>body. bindm (lift_sum (oee_orders_ack E body)) (\<lambda>orders_ack.
           if os_code orders_ack = OE_SYSTEM_CODE_SUCCESS then oe_orders E (os_items orders_ack)
           else log_error Origin_EXCHANGE RequestStatus_REJECTED (guess_error (os_code orders_ack)) (os_msg orders_ack))),
      emit (ReqCommit Req_OpenOrders)]"

definition get_order :: "order_entry_env \<Rightarrow> trace_info \<Rightarrow> string \<Rightarrow> string \<Rightarrow> oe_stmt" where
  "get_order E ti client_order_id external_order_id = (let
       helper = (\<lambda>path query. emit (SendRequest (oe_request E ti GET path query []) ''order'' (CbOrder client_order_id)))
     in if external_order_id = []
        then helper (api_get_order_by_client_order_id (oee_api E)) (''?clientOid='' @ client_order_id)
        else helper (api_get_order_by_order_id (oee_api E) @ external_order_id) [])"

text \<open>The update for an order the exchange does not know (code 100001).\<close>

definition unknown_order_update :: "order_entry_env \<Rightarrow> string \<Rightarrow> order_update" where
  "unknown_order_update E client_order_id =
     \<lparr>ou_account = oee_account_name E, ou_exchange = [], ou_symbol = [], ou_side = Side_UNDEFINED,
      ou_position_effect = PositionEffect_UNDEFINED, ou_margin_mode = MarginMode_UNDEFINED,
      ou_max_show_quantity = NaN, ou_order_type = OrderType_UNDEFINED, ou_time_in_force = TimeInForce_UNDEFINED,
      ou_create_time_utc = 0, ou_update_time_utc = 0, ou_external_order_id = [], ou_client_order_id = client_order_id,
      ou_order_status = OrderStatus_REJECTED, ou_text = [], ou_quantity = NaN, ou_price = NaN, ou_stop_price = NaN,
      ou_remaining_quantity = NaN, ou_traded_quantity = NaN, ou_average_traded_price = NaN,
      ou_last_traded_quantity = NaN, ou_last_traded_price = NaN, ou_last_liquidity = Liquidity_UNDEFINED,
      ou_sending_time_utc = 0\<rparr>"

definition get_order_ack :: "order_entry_env \<Rightarrow> trace_info \<Rightarrow> rest_response \<Rightarrow> string \<Rightarrow> oe_stmt" where
  "get_order_ack E ti response client_order_id = block
     [process_response (oee_oms_fields E) response log_error
        (\<lambda>body. bindm (lift_sum (oee_order_ack E body)) (\<lambda>order_ack.
           if oa_code order_ack = 100001
           then dispatch (U_Order (unknown_order_update E client_order_id) (oee_stream_id E))
           else if oa_code order_ack = OE_SYSTEM_CODE_SUCCESS
           then dispatch (U_Order (oe_order_update E (oa_data order_ack) (oi_remark (oa_data order_ack))) (oee_stream_id E))
           else log_error Origin_EXCHANGE RequestStatus_REJECTED (guess_error (oa_code order_ack)) (oa_msg order_ack))),
      reading oe_download_stale_orders_counter (\<lambda>counter.
        if counter \<noteq> 0 then modify (\<lambda>s. s\<lparr>oe_download_stale_orders_counter := counter - 1\<rparr>)
        else fatal ''Unexpected''),
      reading oe_download_stale_orders_counter (\<lambda>counter.
        whenm (counter = 0) (emit (ReqCommit Req_StaleOrders)))]"

definition get_fills :: "order_entry_env \<Rightarrow> trace_info \<Rightarrow> oe_stmt" where
  "get_fills E ti = emit (SendRequest
     (oe_request E ti GET (api_get_recent_fills (oee_api E)) [] []) ''fills'' CbFills)"

definition oe_fill :: "order_entry_env \<Rightarrow> fill_item \<Rightarrow> trade_update" where
  "oe_fill E item = (let
       fill = \<lparr>fi_external_trade_id = fl_trade_id item, fi_quantity = fl_size item, fi_price = fl_price item,
         fi_liquidity = map_liquidity (fl_liquidity item)\<rparr>
     in \<lparr>tu_stream_id = oee_stream_id E, tu_account = oee_account_name E, tu_order_id = 0,
         tu_exchange = set_exchange (oee_settings E), tu_symbol = fl_symbol item, tu_side = map_side (fl_side item),
         tu_position_effect = map_position_effect (fl_position_side item) (fl_side item),
         tu_margin_mode = map_margin_mode (fl_margin_mode item), tu_create_time_utc = fl_trade_time_ns item,
         tu_update_time_utc = fl_trade_time_ns item, tu_external_order_id = fl_order_id item,
         tu_client_order_id = [], tu_fills = [fill], tu_routing_id = [], tu_update_type = UpdateType_SNAPSHOT,
         tu_sending_time_utc = 0, tu_strategy_id = 0\<rparr>)"

text \<open>The dispatch of these updates is commented out in the source: they are built and dropped.\<close>

definition oe_fills :: "order_entry_env \<Rightarrow> fill_item list \<Rightarrow> oe_stmt" where
  "oe_fills E items = for_each items (\<lambda>item. let trade_update = oe_fill E item in skip)"

definition get_fills_ack :: "order_entry_env \<Rightarrow> trace_info \<Rightarrow> rest_response \<Rightarrow> oe_stmt" where
  "get_fills_ack E ti response = block
     [process_response (oee_oms_fields E) response log_error
        (\<lambda>body. bindm (lift_sum (oee_fills_ack E body)) (\<lambda>fills_ack.
           if fa_code fills_ack = OE_SYSTEM_CODE_SUCCESS then oe_fills E (fa_data fills_ack)
           else log_error Origin_EXCHANGE RequestStatus_REJECTED (guess_error (fa_code fills_ack)) (fa_msg fills_ack))),
      emit (ReqCommit Req_Trades)]"

subsection \<open>Order actions\<close>

definition oe_create_order ::
    "order_entry_env \<Rightarrow> message_info \<Rightarrow> create_order \<Rightarrow> ref_data \<Rightarrow> string \<Rightarrow> oe_stmt" where
  "oe_create_order E info co ref_data request_id = reading oe_is_ready (\<lambda>ready.
     if \<not> ready then throw (OmsException NotReady ''not ready'')
     else case add_order (oee_encoder E) co ref_data request_id (oee_margin_mode E) of
       None \<Rightarrow> fatal ''assert''
     | Some body \<Rightarrow> emit (SendRequest
         (oe_request E (msg_trace_info info) POST (api_add_order (oee_api E)) [] body) request_id
         (CbCreateOrder (msg_source info) (co_order_id co) 1)))"

definition oe_reject ::
    "order_entry_env \<Rightarrow> request_type \<Rightarrow> 8 word \<Rightarrow> 64 word \<Rightarrow> 32 word \<Rightarrow> order_entry error_handler" where
  "oe_reject E type user_id order_id version = (\<lambda>orig status err text. dispatch (U_OrderResponse
     (order_response type version orig status err text) (oee_stream_id E) user_id order_id))"

definition oe_create_order_ack ::
    "order_entry_env \<Rightarrow> rest_response \<Rightarrow> 8 word \<Rightarrow> 64 word \<Rightarrow> 32 word \<Rightarrow> oe_stmt" where
  "oe_create_order_ack E response user_id order_id version = (let
       handle_error = oe_reject E RequestType_CREATE_ORDER user_id order_id version
     in process_response (oee_oms_fields E) response handle_error
        (\<lambda>body. bindm (lift_sum (oee_add_order_ack E body)) (\<lambda>add_order_ack.
           if sa_code add_order_ack = OE_SYSTEM_CODE_SUCCESS then skip
           else handle_error Origin_EXCHANGE RequestStatus_REJECTED (guess_error (sa_code add_order_ack))
             (sa_msg add_order_ack))))"

definition oe_cancel_order ::
    "order_entry_env \<Rightarrow> message_info \<Rightarrow> cancel_order \<Rightarrow> oms_order \<Rightarrow> string \<Rightarrow> oe_stmt" where
  "oe_cancel_order E info xo order request_id = reading oe_is_ready (\<lambda>ready.
     if \<not> ready then throw (OmsException NotReady ''not ready'')
     else emit (SendRequest
       (oe_request E (msg_trace_info info) DELETE (api_cancel_order (oee_api E) @ ''/'' @ or_external_order_id order) [] [])
       request_id (CbCancelOrder (msg_source info) (xo_order_id xo) (xo_version xo))))"

definition oe_cancel_order_ack ::
    "order_entry_env \<Rightarrow> rest_response \<Rightarrow> 8 word \<Rightarrow> 64 word \<Rightarrow> 32 word \<Rightarrow> oe_stmt" where
  "oe_cancel_order_ack E response user_id order_id version = (let
       handle_error = oe_reject E RequestType_CANCEL_ORDER user_id order_id version
     in process_response (oee_oms_fields E) response handle_error
        (\<lambda>body. bindm (lift_sum (oee_cancel_order_ack E body)) (\<lambda>ack.
           if xk_code ack = OE_SYSTEM_CODE_SUCCESS
           then if xk_cancelled_order_ids ack = []
             then handle_error Origin_EXCHANGE RequestStatus_REJECTED Error_UNKNOWN_ORDER_ID
               (if xk_msg ack = [] then ''UNKNOWN_ORDER_ID'' else xk_msg ack)
             else skip
           else handle_error Origin_EXCHANGE RequestStatus_REJECTED (guess_error (xk_code ack))
             (xk_msg ack))))"

definition oe_cancel_all_ack :: "order_entry_env \<Rightarrow> cancel_all_orders \<Rightarrow> string \<Rightarrow> string \<Rightarrow> cancel_all_orders_ack" where
  "oe_cancel_all_ack E x request_id symb =
     \<lparr>ca_stream_id = oee_stream_id E, ca_account = oee_account_name E, ca_order_id = xa_order_id x,
      ca_exchange = xa_exchange x, ca_symbol = symb, ca_side = xa_side x, ca_origin = Origin_GATEWAY,
      ca_request_status = RequestStatus_FORWARDED, ca_error = Error_UNDEFINED, ca_text = [],
      ca_request_id = request_id, ca_strategy_id = xa_strategy_id x\<rparr>"

definition oe_cancel_all_orders :: "order_entry_env \<Rightarrow> message_info \<Rightarrow> cancel_all_orders \<Rightarrow> string \<Rightarrow> oe_stmt" where
  "oe_cancel_all_orders E info x request_id = reading oe_is_ready (\<lambda>ready.
     if \<not> ready then throw (OmsException NotReady ''not ready'')
     else ask ''get_all_order_symbols'' (oee_order_symbols E) (\<lambda>symbols. for_each symbols (\<lambda>symb.
       if xa_symbol x \<noteq> [] \<and> symb \<noteq> xa_symbol x then skip
       else block
         [emit (SendRequest (oe_request E (msg_trace_info info) DELETE (api_cancel_all_orders (oee_api E))
            (''?symbol='' @ symb) []) request_id CbCancelAllOrders),
          dispatch (U_CancelAllOrdersAck (oe_cancel_all_ack E x request_id symb))])))"

definition oe_cancel_all_orders_ack :: "order_entry_env \<Rightarrow> rest_response \<Rightarrow> string \<Rightarrow> oe_stmt" where
  "oe_cancel_all_orders_ack E response request_id = (let
       send_ack = (\<lambda>orig status err text. dispatch (U_CancelAllOrdersAck
         \<lparr>ca_stream_id = oee_stream_id E, ca_account = oee_account_name E, ca_order_id = 0, ca_exchange = [],
          ca_symbol = [], ca_side = Side_UNDEFINED, ca_origin = orig, ca_request_status = status, ca_error = err,
          ca_text = text, ca_request_id = request_id, ca_strategy_id = 0\<rparr>))
     in process_response (oee_oms_fields E) response send_ack
        (\<lambda>body. bindm (lift_sum (oee_cancel_all_orders_ack E body)) (\<lambda>ack.
           if sa_code ack = OE_SYSTEM_CODE_SUCCESS then skip
           else send_ack Origin_EXCHANGE RequestStatus_REJECTED (guess_error (sa_code ack)) (sa_msg ack))))"

text \<open>\<open>server::OrderActionStream\<close>: each action returns the id of the stream that took it.\<close>

definition oe_action :: "order_entry_env \<Rightarrow> order_action \<Rightarrow> (order_entry, exn, 16 word) stmt" where
  "oe_action E a = (case a of
     CreateOrder info co rf request_id \<Rightarrow> seqm (oe_create_order E info co rf request_id) (ret (oee_stream_id E))
   | ModifyOrder \<Rightarrow> throw (OmsException NotSupported ''not supported'')
   | CancelOrder info xo order request_id \<Rightarrow> seqm (oe_cancel_order E info xo order request_id) (ret (oee_stream_id E))
   | CancelAllOrders info xa request_id \<Rightarrow> seqm (oe_cancel_all_orders E info xa request_id) (ret (oee_stream_id E)))"

subsection \<open>The request queue\<close>

definition check_pending :: "order_entry_env \<Rightarrow> string \<Rightarrow> request_kind \<Rightarrow> oe_stmt \<Rightarrow> oe_stmt" where
  "check_pending E name k m = ask (name @ ''.check_pending'') (oee_check_pending E k) (\<lambda>pending. whenm pending m)"

definition query_stale_orders :: "order_entry_env \<Rightarrow> trace_info \<Rightarrow> oe_stmt" where
  "query_stale_orders E ti = reading details_stale_orders (\<lambda>keys. block
     [for_each keys (\<lambda>key. ask ''find_order'' (oee_find_order E key) (\<lambda>found. case found of
        None \<Rightarrow> skip
      | Some order \<Rightarrow> block
          [get_order E ti (or_client_order_id order) (or_external_order_id order),
           modify (\<lambda>s. s\<lparr>oe_download_stale_orders_counter := oe_download_stale_orders_counter s + 1\<rparr>)])),
      modify (\<lambda>s. s\<lparr>details_stale_orders := []\<rparr>)])"

definition oe_check_request_queue :: "order_entry_env \<Rightarrow> trace_info \<Rightarrow> oe_stmt" where
  "oe_check_request_queue E ti = block
     [check_pending E ''private_token'' Req_PrivateToken (get_private_token E ti),
      check_pending E ''balances'' Req_Balances (get_account E ti),
      check_pending E ''positions'' Req_Positions (get_positions E ti),
      check_pending E ''open_orders'' Req_OpenOrders (get_orders E ti),
      check_pending E ''stale_orders'' Req_StaleOrders (query_stale_orders E ti),
      check_pending E ''trades'' Req_Trades (get_fills E ti)]"

subsection \<open>Events\<close>

datatype order_entry_event =
    OE_Start | OE_Stop | OE_Timer trace_info | OE_Connected trace_info | OE_Disconnected trace_info
  | OE_Latency int
  | OE_Action order_action
  | OE_PrivateTokenAck trace_info rest_response
  | OE_AccountAck trace_info rest_response
  | OE_PositionsAck trace_info rest_response
  | OE_OrdersAck trace_info rest_response
  | OE_OrderAck trace_info rest_response string
  | OE_FillsAck trace_info rest_response
  | OE_CreateOrderAck rest_response "8 word" "64 word" "32 word"
  | OE_CancelOrderAck rest_response "8 word" "64 word" "32 word"
  | OE_CancelAllOrdersAck rest_response string
  | OE_StaleOrders "(8 word \<times> 64 word) list"

text \<open>\<open>OE_StaleOrders\<close> is the drop copy adding keys to the set the two streams share.\<close>

definition order_entry_step :: "order_entry_env \<Rightarrow> order_entry_event \<Rightarrow> oe_stmt" where
  "order_entry_step E e = (case e of
     OE_Start \<Rightarrow> emit ConnStart
   | OE_Stop \<Rightarrow> emit ConnStop
   | OE_Timer ti \<Rightarrow> ask ''refresh'' (conn_refresh (oee_connection E)) (\<lambda>refresh. whenm refresh
       (reading oe_is_ready (\<lambda>ready. whenm ready (oe_check_request_queue E ti))))
   | OE_Connected ti \<Rightarrow> oe_download_call E ti DlBegin
   | OE_Disconnected ti \<Rightarrow> block
       [emit CountDisconnect, oe_report E ti ConnectionStatus_DISCONNECTED [], emit DlReset]
   | OE_Latency sample \<Rightarrow> dispatch (U_ExternalLatency (oee_stream_id E) (oee_account_name E) sample)
   | OE_Action a \<Rightarrow> bindm (oe_action E a) (\<lambda>stream_id. skip)
   | OE_PrivateTokenAck ti response \<Rightarrow> get_private_token_ack E ti response
   | OE_AccountAck ti response \<Rightarrow> get_account_ack E ti response
   | OE_PositionsAck ti response \<Rightarrow> get_positions_ack E ti response
   | OE_OrdersAck ti response \<Rightarrow> get_orders_ack E ti response
   | OE_OrderAck ti response client_order_id \<Rightarrow> get_order_ack E ti response client_order_id
   | OE_FillsAck ti response \<Rightarrow> get_fills_ack E ti response
   | OE_CreateOrderAck response user_id order_id version \<Rightarrow> oe_create_order_ack E response user_id order_id version
   | OE_CancelOrderAck response user_id order_id version \<Rightarrow> oe_cancel_order_ack E response user_id order_id version
   | OE_CancelAllOrdersAck response request_id \<Rightarrow> oe_cancel_all_orders_ack E response request_id
   | OE_StaleOrders keys \<Rightarrow> modify (\<lambda>s. s\<lparr>details_stale_orders := fold insert_key keys (details_stale_orders s)\<rparr>))"

subsection \<open>The contracts of a stream, a download and an order stream\<close>

lemma oe_report_run:
  "oe_report E ti st reason s = Normal () (s\<lparr>oe_connection_status := st, trace := trace s @
     [Dispatch (U_StreamStatus (make_stream_status (oee_connection E) (oee_stream_id E) (oee_account_name E)
       (if set_ws_api (oee_settings E) then OE_SUPPORTS_WSAPI else OE_SUPPORTS) Protocol_HTTP st reason (trace s)))]\<rparr>)"
  by (simp add: oe_report_def exec_simps)

interpretation oe_stream: stream oe_connection_status oe_is_ready "oe_report E" for E
  by unfold_locales (auto simp: oe_is_ready_def oe_report_run)

interpretation oe_downloader: downloader "oe_download E ti" for E ti
proof
  fix st s n t
  assume "oe_download E ti st s = Normal n t"
  then show "\<exists>as. trace t = trace s @ as \<and> n = int (length (filter awaits as))"
    by (cases st) (auto simp: oe_download_def oe_report_run get_private_token_def exec_simps split: if_splits)
qed

lemma oe_create_order_run:
  "oe_create_order E info co rf request_id s = (if \<not> oe_is_ready s then Thrown (OmsException NotReady ''not ready'') s
     else case add_order (oee_encoder E) co rf request_id (oee_margin_mode E) of None \<Rightarrow> Fatal ''assert'' s
       | Some body \<Rightarrow> Normal () (s\<lparr>trace := trace s @ [SendRequest
           (oe_request E (msg_trace_info info) POST (api_add_order (oee_api E)) [] body) request_id
           (CbCreateOrder (msg_source info) (co_order_id co) 1)]\<rparr>))"
  by (simp add: oe_create_order_def exec_simps split: option.splits)

lemma oe_cancel_order_run:
  "oe_cancel_order E info xo order request_id s = (if \<not> oe_is_ready s then Thrown (OmsException NotReady ''not ready'') s
     else Normal () (s\<lparr>trace := trace s @ [SendRequest
       (oe_request E (msg_trace_info info) DELETE (api_cancel_order (oee_api E) @ ''/'' @ or_external_order_id order) [] [])
       request_id (CbCancelOrder (msg_source info) (xo_order_id xo) (xo_version xo))]\<rparr>))"
  by (simp add: oe_cancel_order_def exec_simps)

text \<open>What cancelling all orders does for one symbol.\<close>

definition cancel_symbol :: "order_entry_env \<Rightarrow> message_info \<Rightarrow> cancel_all_orders \<Rightarrow> string \<Rightarrow> string \<Rightarrow> effect list" where
  "cancel_symbol E info xa request_id symb = (if xa_symbol xa \<noteq> [] \<and> symb \<noteq> xa_symbol xa then []
     else [SendRequest (oe_request E (msg_trace_info info) DELETE (api_cancel_all_orders (oee_api E))
             (''?symbol='' @ symb) []) request_id CbCancelAllOrders,
           Dispatch (U_CancelAllOrdersAck (oe_cancel_all_ack E xa request_id symb))])"

lemma oe_cancel_all_orders_run:
  "oe_cancel_all_orders E info xa request_id s = (if \<not> oe_is_ready s then Thrown (OmsException NotReady ''not ready'') s
     else let tr = trace s @ [Call ''get_all_order_symbols'']
       in Normal () (s\<lparr>trace := tr @ concat (map (cancel_symbol E info xa request_id) (oee_order_symbols E tr))\<rparr>))"
proof -
  let ?body = "\<lambda>symb. if xa_symbol xa \<noteq> [] \<and> symb \<noteq> xa_symbol xa then skip
       else block
         [emit (SendRequest (oe_request E (msg_trace_info info) DELETE (api_cancel_all_orders (oee_api E))
            (''?symbol='' @ symb) []) request_id CbCancelAllOrders),
          dispatch (U_CancelAllOrdersAck (oe_cancel_all_ack E xa request_id symb))] :: oe_stmt"
  have body: "?body symb s = Normal () (s\<lparr>trace := trace s @ cancel_symbol E info xa request_id symb\<rparr>)" for symb s
    by (simp add: cancel_symbol_def exec_simps)
  note loop = for_each_trace [of ?body, OF body]
  show ?thesis
    by (simp only: oe_cancel_all_orders_def reading_def if_app throw_def ask_run loop Let_def) (simp add: Let_def)
qed

interpretation oe_order_stream: order_action_stream "oee_stream_id E" "oe_action E" for E
proof
  fix a s i t
  assume "oe_action E a s = Normal i t"
  then show "i = oee_stream_id E \<and> (\<exists>as. trace t = trace s @ as \<and> (on_one_order a \<longrightarrow> messages as = 1))"
    by (cases a) (auto simp: oe_action_def seqm_def bindm_def ret_def throw_def oe_create_order_run oe_cancel_order_run
      oe_cancel_all_orders_run Let_def split: if_splits option.splits)
next
  fix a s e t
  assume "oe_action E a s = Thrown e t"
  then show "t = s"
    by (cases a) (auto simp: oe_action_def seqm_def bindm_def ret_def throw_def oe_create_order_run oe_cancel_order_run
      oe_cancel_all_orders_run Let_def split: if_splits option.splits)
next
  fix s
  show "oe_action E ModifyOrder s = Thrown (OmsException NotSupported ''not supported'') s"
    by (simp add: oe_action_def exec_simps)
qed

subsection \<open>Invariants through every handler\<close>

fun order_query :: "effect \<Rightarrow> bool" where
  "order_query (SendRequest r i (CbOrder c)) = True"
| "order_query _ = False"

text \<open>The paths of an account's requests; the ids of orders follow two of them.\<close>

definition private_paths :: "api \<Rightarrow> string list" where
  "private_paths A = [api_bullet_private A, api_get_account_list A, api_get_position_list A, api_get_order_list A,
     api_get_order_by_client_order_id A, api_get_order_by_order_id A, api_get_recent_fills A, api_add_order A,
     api_cancel_order A, api_cancel_all_orders A]"

definition private_path :: "api \<Rightarrow> string \<Rightarrow> bool" where
  "private_path A path \<longleftrightarrow> list_ex (\<lambda>base. take (length base) path = base) (private_paths A)"

lemma private_path_simps [simp]:
  "private_path A (api_bullet_private A)" "private_path A (api_get_account_list A)"
  "private_path A (api_get_position_list A)" "private_path A (api_get_order_list A)"
  "private_path A (api_get_order_by_client_order_id A)" "private_path A (api_get_order_by_order_id A @ order_id)"
  "private_path A (api_get_recent_fills A)" "private_path A (api_add_order A)"
  "private_path A (api_cancel_order A @ order_id)" "private_path A (api_cancel_all_orders A)"
  by (simp_all add: private_path_def private_paths_def)

text \<open>
  The effects of the stream other than status reports and order queries. A request is one that
  \<open>oe_request\<close> built, so its headers are made for what it sends.
\<close>

definition oe_built :: "order_entry_env \<Rightarrow> rest_request \<Rightarrow> bool" where
  "oe_built E r \<longleftrightarrow> (\<exists>ti meth path query body. private_path (oee_api E) path \<and> r = oe_request E ti meth path query body)"

lemma oe_built_request [simp]: "private_path (oee_api E) path \<Longrightarrow> oe_built E (oe_request E ti meth path query body)"
  unfolding oe_built_def by blast

fun oe_allowed :: "order_entry_env \<Rightarrow> effect \<Rightarrow> bool" where
  "oe_allowed E (SendRequest r i c) = (oe_built E r \<and> \<not> order_query (SendRequest r i c))"
| "oe_allowed E (SendText m) = False"
| "oe_allowed E a = (status_of_effect a = None)"

lemma oe_allowed_no_status: "oe_allowed E a \<Longrightarrow> status_of_effect a = None \<and> \<not> order_query a"
  by (cases a) simp_all

text \<open>
  An invariant that survives the status reports, these effects, an order query together with its
  count, and changes of the two other fields.
\<close>

definition counted_query :: "order_entry_env \<Rightarrow> trace_info \<Rightarrow> oms_order \<Rightarrow> oe_stmt" where
  "counted_query E ti order = block
     [get_order E ti (or_client_order_id order) (or_external_order_id order),
      modify (\<lambda>s. s\<lparr>oe_download_stale_orders_counter := oe_download_stale_orders_counter s + 1\<rparr>)]"

definition oe_safe :: "order_entry_env \<Rightarrow> (order_entry \<Rightarrow> bool) \<Rightarrow> bool" where
  "oe_safe E I \<longleftrightarrow> (\<forall>a. oe_allowed E a \<longrightarrow> keeps I (emit a))
     \<and> (\<forall>ti st reason. keeps I (oe_report E ti st reason))
     \<and> (\<forall>ti order. keeps I (counted_query E ti order))
     \<and> keeps I (modify (\<lambda>s. s\<lparr>oe_has_downloaded_private_token := True\<rparr>) :: oe_stmt)
     \<and> (\<forall>f. keeps I (modify (\<lambda>s. s\<lparr>details_stale_orders := f (details_stale_orders s)\<rparr>) :: oe_stmt))"

lemma oe_safe_emit: "oe_safe E I \<Longrightarrow> oe_allowed E a \<Longrightarrow> keeps I (emit a)"
  and oe_safe_report: "oe_safe E I \<Longrightarrow> keeps I (oe_report E ti st reason)"
  and oe_safe_query: "oe_safe E I \<Longrightarrow> keeps I (counted_query E ti order)"
  and oe_safe_token: "oe_safe E I \<Longrightarrow> keeps I (modify (\<lambda>s. s\<lparr>oe_has_downloaded_private_token := True\<rparr>) :: oe_stmt)"
  and oe_safe_details: "oe_safe E I \<Longrightarrow> keeps I (modify (\<lambda>s. s\<lparr>details_stale_orders := f (details_stale_orders s)\<rparr>) :: oe_stmt)"
  by (auto simp: oe_safe_def)

lemma oe_safe_dispatch: "oe_safe E I \<Longrightarrow> oe_allowed E (Dispatch u) \<Longrightarrow> keeps I (dispatch u)"
  unfolding dispatch_def by (rule oe_safe_emit) simp_all

lemma oe_safe_ask: "oe_safe E I \<Longrightarrow> (\<And>b. keeps I (k b)) \<Longrightarrow> keeps I (ask name answer k)"
  by (rule keeps_ask [OF oe_safe_emit]) simp_all

lemmas oe_safe_rules = oe_safe_ask keeps_intros keeps_block oe_safe_emit oe_safe_dispatch oe_safe_report

lemma oe_safe_download: "oe_safe E I \<Longrightarrow> keeps I (oe_download E ti st)"
  by (cases st) (auto simp: oe_download_def get_private_token_def intro!: oe_safe_rules)

lemma oe_safe_download_call:
  "oe_safe E I \<Longrightarrow> oe_allowed E a \<Longrightarrow> keeps I (oe_download_call E ti a)"
  unfolding oe_download_call_def by (intro keeps_intros oe_safe_emit oe_safe_download)

lemma oe_safe_token_ack: "oe_safe E I \<Longrightarrow> keeps I (get_private_token_ack E ti response)"
  unfolding get_private_token_ack_def oe_token_def Let_def
  by (auto intro!: oe_safe_rules oe_safe_download_call oe_safe_token split: list.splits)

lemma oe_safe_data_acks:
  assumes "oe_safe E I"
  shows "keeps I (get_account_ack E ti response)" and "keeps I (get_positions_ack E ti response)"
    and "keeps I (get_orders_ack E ti response)" and "keeps I (get_fills_ack E ti response)"
  using assms unfolding get_account_ack_def get_positions_ack_def get_orders_ack_def get_fills_ack_def
    oe_account_def oe_orders_def oe_fills_def log_error_def Let_def
  by (auto intro!: oe_safe_rules)

lemma oe_safe_action_acks:
  assumes "oe_safe E I"
  shows "keeps I (oe_create_order_ack E response u i v)" and "keeps I (oe_cancel_order_ack E response u i v)"
    and "keeps I (oe_cancel_all_orders_ack E response request_id)"
  using assms unfolding oe_create_order_ack_def oe_cancel_order_ack_def oe_cancel_all_orders_ack_def oe_reject_def Let_def
  by (auto intro!: oe_safe_rules)

lemma oe_safe_action: "oe_safe E I \<Longrightarrow> keeps I (oe_action E a)"
  unfolding oe_action_def oe_create_order_def oe_cancel_order_def oe_cancel_all_orders_def
  by (cases a) (auto intro!: oe_safe_rules split: option.splits)

lemma oe_safe_stale: "oe_safe E I \<Longrightarrow> keeps I (query_stale_orders E ti)"
  unfolding query_stale_orders_def counted_query_def [symmetric]
  by (auto intro!: oe_safe_rules oe_safe_query oe_safe_details [of E I "\<lambda>_. []"] split: option.splits)

lemma oe_safe_queue: "oe_safe E I \<Longrightarrow> keeps I (oe_check_request_queue E ti)"
  unfolding oe_check_request_queue_def check_pending_def get_private_token_def get_account_def get_positions_def
    get_orders_def get_fills_def
  by (auto intro!: oe_safe_rules oe_safe_stale)

text \<open>Every event but the answer to an order query.\<close>

lemma order_entry_keeps:
  assumes "oe_safe E I" and "\<And>ti response c. e \<noteq> OE_OrderAck ti response c"
  shows "keeps I (order_entry_step E e)"
  using assms
  by (cases e) (auto simp: order_entry_step_def intro!: oe_safe_rules oe_safe_action oe_safe_queue oe_safe_download_call
    oe_safe_token_ack oe_safe_data_acks oe_safe_action_acks oe_safe_details)

lemma oe_counted_query_run:
  "\<exists>r. counted_query E ti order s = Normal () (s\<lparr>
      oe_download_stale_orders_counter := oe_download_stale_orders_counter s + 1,
      trace := trace s @ [SendRequest r ''order'' (CbOrder (or_client_order_id order))]\<rparr>)"
proof -
  have swap: "s\<lparr>trace := x, oe_download_stale_orders_counter := n\<rparr>
      = s\<lparr>oe_download_stale_orders_counter := n, trace := x\<rparr>" for x n
    by simp
  show ?thesis
    by (cases "or_external_order_id order = []")
      (simp_all add: counted_query_def get_order_def Let_def exec_simps swap, blast+)
qed

lemma oe_safe_agrees: "oe_safe E (agrees oe_connection_status)"
  unfolding oe_safe_def
proof (intro conjI allI impI)
  show "keeps (agrees oe_connection_status) (emit a :: oe_stmt)" if "oe_allowed E a" for a
    using oe_allowed_no_status [OF that] by (intro oe_stream.keeps_other_effect) simp
  show "keeps (agrees oe_connection_status) (oe_report E ti st reason)" for ti st reason
    by (rule oe_stream.keeps_report)
  show "keeps (agrees oe_connection_status) (counted_query E ti order)" for ti order
    unfolding counted_query_def get_order_def Let_def
    by (auto intro!: keeps_intros keeps_block oe_stream.keeps_other_effect oe_stream.keeps_update)
qed (rule oe_stream.keeps_update; simp)+

lemma order_entry_step_agrees: "keeps (agrees oe_connection_status) (order_entry_step E e)"
proof (cases "\<exists>ti response c. e = OE_OrderAck ti response c")
  case True
  have emits: "keeps (agrees oe_connection_status) (emit a :: oe_stmt)" if "status_of_effect a = None" for a
    using that by (rule oe_stream.keeps_other_effect)
  have upd: "keeps (agrees oe_connection_status) (modify (\<lambda>s. s\<lparr>oe_download_stale_orders_counter := n\<rparr>) :: oe_stmt)" for n
    by (rule oe_stream.keeps_update) simp_all
  from True show ?thesis
    by (auto simp: order_entry_step_def get_order_ack_def log_error_def dispatch_def
      intro!: keeps_intros keeps_block emits upd)
next
  case False
  then show ?thesis by (intro order_entry_keeps [OF oe_safe_agrees]) blast
qed

subsection \<open>Stale orders\<close>

definition order_queries :: "effect list \<Rightarrow> nat" where
  "order_queries as = length (filter order_query as)"

lemma order_queries_simps [simp]:
  "order_queries [] = 0"
  "order_queries (a # as) = (if order_query a then Suc (order_queries as) else order_queries as)"
  "order_queries (as @ bs) = order_queries as + order_queries bs"
  by (simp_all add: order_queries_def)

definition counts_open_queries :: "nat \<Rightarrow> order_entry \<Rightarrow> bool" where
  "counts_open_queries n s \<longleftrightarrow> oe_download_stale_orders_counter s + n = order_queries (trace s)"

lemma oe_safe_counts: "oe_safe E (counts_open_queries n)"
  unfolding oe_safe_def
proof (intro conjI allI impI)
  show "keeps (counts_open_queries n) (emit a :: oe_stmt)" if "oe_allowed E a" for a
    using oe_allowed_no_status [OF that] by (intro keeps_emit) (simp add: counts_open_queries_def)
  show "keeps (counts_open_queries n) (oe_report E ti st reason)" for ti st reason
    by (rule keepsI) (simp add: oe_report_run counts_open_queries_def)
  show "keeps (counts_open_queries n) (counted_query E ti order)" for ti order
  proof (rule keepsI)
    fix s assume "counts_open_queries n s"
    with oe_counted_query_run [of E ti order s] show "counts_open_queries n (final_state (counted_query E ti order s))"
      by (auto simp: counts_open_queries_def)
  qed
qed (rule keeps_modify; simp add: counts_open_queries_def)+

text \<open>
  Reaching a state: from the constructor by events none of which ends the process. The number
  counts the order queries that have been answered.
\<close>

inductive oe_reach :: "order_entry_env \<Rightarrow> order_entry \<Rightarrow> nat \<Rightarrow> bool" for E where
  oe_start: "oe_reach E OrderEntryREST_create 0"
| oe_answer: "oe_reach E s n \<Longrightarrow> \<not> is_fatal (order_entry_step E (OE_OrderAck ti response c) s) \<Longrightarrow>
    oe_reach E (final_state (order_entry_step E (OE_OrderAck ti response c) s)) (Suc n)"
| oe_other: "oe_reach E s n \<Longrightarrow> (\<And>ti response c. e \<noteq> OE_OrderAck ti response c) \<Longrightarrow>
    \<not> is_fatal (order_entry_step E e s) \<Longrightarrow> oe_reach E (final_state (order_entry_step E e s)) n"


subsection \<open>Answers to the requests of the slots\<close>

lemma nothrow_oe_download_call [nothrow_intros]: "nothrow (oe_download_call E ti a)"
proof -
  have "nothrow (oe_download E ti st)" for st
    by (cases st) (auto simp: oe_download_def oe_report_def get_private_token_def intro!: nothrow_intros)
  then show ?thesis unfolding oe_download_call_def by (intro nothrow_intros)
qed

lemma nothrow_oe_token [nothrow_intros]: "nothrow (oe_token E token)"
  unfolding oe_token_def Let_def by (cases "tk_instance_servers token") (auto intro!: nothrow_intros)

lemma nothrow_log_error [nothrow_intros]: "nothrow (log_error a b c d)"
  by (simp add: log_error_def nothrow_intros)

text \<open>Nothing that a handler does before its commit is a commit.\<close>

lemma grows_oe_download_call:
  "committed a = None \<Longrightarrow> keeps (grows (\<lambda>a. committed a = None) tr) (oe_download_call E ti a)"
proof -
  assume a: "committed a = None"
  have "keeps (grows (\<lambda>a. committed a = None) tr) (oe_download E ti st)" for st
    by (cases st) (auto simp: oe_download_def oe_report_def get_private_token_def intro!: grows_rules)
  then show ?thesis unfolding oe_download_call_def using a by (intro grows_rules)
qed

lemma grows_oe_token: "keeps (grows (\<lambda>a. committed a = None) tr) (oe_token E token)"
  unfolding oe_token_def Let_def by (cases "tk_instance_servers token") (auto intro!: grows_rules)

lemma grows_log_error: "keeps (grows P tr) (log_error a b c d)"
  by (simp add: log_error_def keeps_intros)

interpretation oe_token_ack: request_ack Req_PrivateToken "get_private_token_ack E" for E
  unfolding get_private_token_ack_def
  by (rule request_ackI) (auto intro!: nothrow_intros grows_rules grows_oe_download_call grows_oe_token)

interpretation oe_account_ack: request_ack Req_Balances "get_account_ack E" for E
  unfolding get_account_ack_def oe_account_def
  by (rule request_ackI) (auto intro!: nothrow_intros grows_rules grows_log_error)

interpretation oe_positions_ack: request_ack Req_Positions "get_positions_ack E" for E
  unfolding get_positions_ack_def
  by (rule request_ackI) (auto intro!: nothrow_intros grows_rules grows_log_error)

interpretation oe_orders_ack: request_ack Req_OpenOrders "get_orders_ack E" for E
  unfolding get_orders_ack_def oe_orders_def
  by (rule request_ackI) (auto intro!: nothrow_intros grows_rules grows_log_error)

interpretation oe_fills_ack: request_ack Req_Trades "get_fills_ack E" for E
  unfolding get_fills_ack_def oe_fills_def Let_def
  by (rule request_ackI) (auto intro!: nothrow_intros grows_rules grows_log_error)

text \<open>The answer to an order query: what it reports of the order, and then the count.\<close>

definition order_reported :: "order_entry_env \<Rightarrow> rest_response \<Rightarrow> string \<Rightarrow> order_update list" where
  "order_reported E response client_order_id = (case reply_of (oee_oms_fields E) response (oee_order_ack E) of
     Data order_ack \<Rightarrow>
       if oa_code order_ack = 100001 then [unknown_order_update E client_order_id]
       else if oa_code order_ack = OE_SYSTEM_CODE_SUCCESS
       then [oe_order_update E (oa_data order_ack) (oi_remark (oa_data order_ack))] else []
   | _ \<Rightarrow> [])"

lemma get_order_ack_run:
  "get_order_ack E ti response c s = (let
       t = s\<lparr>trace := trace s @ map (\<lambda>u. Dispatch (U_Order u (oee_stream_id E))) (order_reported E response c)\<rparr>;
       n = oe_download_stale_orders_counter s
     in if redirected response then Fatal ''Unexpected: URL is being redirected'' s
        else if n = 0 then Fatal ''Unexpected'' t
        else Normal () (s\<lparr>oe_download_stale_orders_counter := n - 1,
          trace := trace t @ (if n = 1 then [ReqCommit Req_StaleOrders] else [])\<rparr>))"
proof -
  let ?ok = "\<lambda>order_ack. if oa_code order_ack = 100001
           then dispatch (U_Order (unknown_order_update E c) (oee_stream_id E))
           else if oa_code order_ack = OE_SYSTEM_CODE_SUCCESS
           then dispatch (U_Order (oe_order_update E (oa_data order_ack) (oi_remark (oa_data order_ack))) (oee_stream_id E))
           else log_error Origin_EXCHANGE RequestStatus_REJECTED (guess_error (oa_code order_ack)) (oa_msg order_ack)"
  have "process_response (oee_oms_fields E) response log_error
      (\<lambda>body. bindm (lift_sum (oee_order_ack E body)) ?ok) s =
    (if redirected response then Fatal ''Unexpected: URL is being redirected'' s
     else Normal () (s\<lparr>trace := trace s
       @ map (\<lambda>u. Dispatch (U_Order u (oee_stream_id E))) (order_reported E response c)\<rparr>))"
  proof -
    have red: "redirected response \<longleftrightarrow> reply_of (oee_oms_fields E) response (oee_order_ack E) = Redirected"
      by simp
    have "nothrow (?ok a)" for a by (intro nothrow_intros)
    note run = process_response_reply [where ok = ?ok, OF this nothrow_log_error]
    show ?thesis
      unfolding run red
      by (cases "reply_of (oee_oms_fields E) response (oee_order_ack E)")
        (simp_all add: order_reported_def log_error_def exec_simps del: reply_of_Redirected)
  qed
  then show ?thesis
    by (auto simp: get_order_ack_def exec_simps Let_def)
qed

lemma oe_reach_counts: "oe_reach E s n \<Longrightarrow> counts_open_queries n s"
proof (induction rule: oe_reach.induct)
  case oe_start
  show ?case by (simp add: counts_open_queries_def OrderEntryREST_create_def)
next
  case (oe_answer s n ti response c)
  have "order_queries (map (\<lambda>u. Dispatch (U_Order u i)) us) = 0" for us i
    by (induction us) simp_all
  with oe_answer show ?case
    by (auto simp: order_entry_step_def get_order_ack_run counts_open_queries_def Let_def split: if_splits)
next
  case (oe_other s n e)
  then show ?case
    by (intro keepsD [OF order_entry_keeps [OF oe_safe_counts]])
qed

subsection \<open>Properties\<close>

text \<open>The requests of the slots, by the events that answer them.\<close>

fun slot_of :: "order_entry_event \<Rightarrow> (request_kind \<times> rest_response) option" where
  "slot_of (OE_PrivateTokenAck ti response) = Some (Req_PrivateToken, response)"
| "slot_of (OE_AccountAck ti response) = Some (Req_Balances, response)"
| "slot_of (OE_PositionsAck ti response) = Some (Req_Positions, response)"
| "slot_of (OE_OrdersAck ti response) = Some (Req_OpenOrders, response)"
| "slot_of (OE_FillsAck ti response) = Some (Req_Trades, response)"
| "slot_of _ = None"

text \<open>The handlers other than the token's end the process only on a redirection.\<close>

lemma total_log_error [total_intros]: "total (log_error a b c d)"
  by (simp add: log_error_def total_intros)

lemma slot_ack_fatal:
  assumes "block [process_response oms response log_error (\<lambda>body. bindm (lift_sum (decode body)) ok), emit a] s = Fatal msg t"
    and "\<And>a. total (ok a)"
  shows "redirected response"
  using assms(1) process_response_total [where ok = ok and err = log_error and s = s, OF assms(2) total_log_error,
    of oms response decode]
  by (auto simp: seqm_def bindm_def emit_def modify_def skip_def split: outcome.splits)

lemma data_ack_fatal:
  assumes "order_entry_step E e s = Fatal msg t" and "slot_of e = Some (k, response)" and "k \<noteq> Req_PrivateToken"
  shows "redirected response"
proof -
  have fills: "total (oe_fills E items)" for items
    unfolding oe_fills_def Let_def by (intro total_intros)
  show ?thesis
    using assms
    by (cases e) (auto simp del: block.simps simp: order_entry_step_def get_account_ack_def get_positions_ack_def
      get_orders_ack_def get_fills_ack_def oe_account_def oe_orders_def
      intro!: total_intros fills elim!: slot_ack_fatal)
qed


definition sample_order_item :: order_item where
  "sample_order_item = \<lparr>oi_id = ''x1'', oi_symbol = ''XBTUSDTM'', oi_type = JOrderType_LIMIT, oi_side = JSide_BUY,
     oi_price = Fin 32000, oi_size = Fin 10, oi_stop_price = NaN, oi_time_in_force = JTimeInForce_GTC,
     oi_visible_size = Fin 10, oi_client_oid = ''c1'', oi_remark = [], oi_created_at_ms = 1, oi_updated_at_ms = 2,
     oi_margin_mode = JMarginMode_CROSS, oi_avg_deal_price = Fin 32000, oi_status = JOrderStatus_OPEN,
     oi_filled_size = Fin 4, oi_position_side = JPositionSide_BOTH\<rparr>"

definition sample_order_entry_env :: order_entry_env where
  "sample_order_entry_env = \<lparr>oee_stream_id = 2, oee_account_name = ''A1'', oee_settings = sample_settings,
     oee_api = API_create, oee_margin_mode = MarginMode_CROSS, oee_connection = sample_connection,
     oee_headers = (\<lambda>_ _ _ _ _. ''signed''), oee_encoder = sample_env,
     oee_token = (\<lambda>_. Inl (StdException ''decoder'')), oee_account_ack = (\<lambda>_. Inl (StdException ''decoder'')),
     oee_positions_ack = (\<lambda>_. Inl (StdException ''decoder'')),
     oee_orders_ack = (\<lambda>_. Inr \<lparr>os_code = 200000, os_msg = [], os_items = [sample_order_item]\<rparr>),
     oee_order_ack = (\<lambda>_. Inr \<lparr>oa_code = 200000, oa_msg = [], oa_data = sample_order_item\<rparr>),
     oee_fills_ack = (\<lambda>_. Inl (StdException ''decoder'')),
     oee_add_order_ack = (\<lambda>b. Inr \<lparr>sa_code = (if b = ''ok'' then 200000 else 300000), sa_msg = ''low balance''\<rparr>),
     oee_cancel_order_ack = (\<lambda>b. Inr \<lparr>xk_code = 200000, xk_msg = [], xk_cancelled_order_ids = []\<rparr>),
     oee_cancel_all_orders_ack = (\<lambda>_. Inl (StdException ''decoder'')),
     oee_oms_fields = (\<lambda>_. (Origin_GATEWAY, RequestStatus_REJECTED, Error_UNKNOWN)), oee_downloading = (\<lambda>_. False),
     oee_download = (\<lambda>_. DlCall OE_DONE (\<lambda>_. DlDone)), oee_check_pending = (\<lambda>k _. k = Req_StaleOrders), oee_find_order = (\<lambda>_ _. Some sample_oms_order),
     oee_order_symbols = (\<lambda>_. [''XBTUSDTM'', ''ETHUSDTM'']), oee_is_equal = (=)\<rparr>"


text \<open>
  C15. Stale orders: in every state the stream can reach, if fewer queries have been answered than
  were sent, the next answer returns (unless it is a redirection), reports at most one order, and
  the slot of stale orders is committed by the last answer outstanding and by no other; an answer
  to no query ends the process.
\<close>

theorem stale_orders_committed_by_last:
  assumes "oe_reach E s n" and "\<not> redirected response"
  shows "let open_queries = order_queries (trace s) - n in
     if open_queries = 0 then is_fatal (order_entry_step E (OE_OrderAck ti response c) s)
     else \<exists>as t. order_entry_step E (OE_OrderAck ti response c) s = Normal () t \<and> trace t = trace s @ as
       \<and> oe_download_stale_orders_counter t = open_queries - 1
       \<and> commits as = (if open_queries = 1 then [Req_StaleOrders] else [])
       \<and> length (filter (\<lambda>a. committed a = None) as) \<le> 1"
proof -
  have n: "oe_download_stale_orders_counter s = order_queries (trace s) - n"
    using oe_reach_counts [OF assms(1)] by (simp add: counts_open_queries_def)
  have len: "length (order_reported E response c) \<le> 1"
    by (simp add: order_reported_def split: reply.splits)
  have none: "commits (map (\<lambda>u. Dispatch (U_Order u i)) us) = []" for us i
    by (induction us) simp_all
  have all: "filter (\<lambda>a. committed a = None) (map (\<lambda>u. Dispatch (U_Order u i)) us) = map (\<lambda>u. Dispatch (U_Order u i)) us"
    for us i by (induction us) simp_all
  show ?thesis
    unfolding Let_def order_entry_step_def order_entry_event.case get_order_ack_run
    using assms(2) len by (auto simp: n none all)
qed

theorem stale_orders_committed_by_last_witness:
  "\<exists>s as t. oe_reach sample_order_entry_env s 0 \<and> order_queries (trace s) = 1
     \<and> order_entry_step sample_order_entry_env (OE_OrderAck sample_trace_info (ok_response []) ''c1'') s = Normal () t
     \<and> trace t = trace s @ as \<and> commits as = [Req_StaleOrders]"
proof -
  let ?E = sample_order_entry_env
  let ?ti = sample_trace_info
  let ?step = "\<lambda>e s. final_state (order_entry_step ?E e s)"
  let ?s1 = "?step (OE_Connected ?ti) OrderEntryREST_create"
  let ?s2 = "?step (OE_StaleOrders [(1, 7)]) ?s1"
  let ?s = "?step (OE_Timer ?ti) ?s2"
  note run = order_entry_step_def sample_order_entry_env_def sample_connection_def OrderEntryREST_create_def
    oe_download_call_def oe_download_def oe_report_run insert_key_def ask_run oe_is_ready_def oe_check_request_queue_def
    check_pending_def query_stale_orders_def get_order_def sample_oms_order_def
  have calm: "\<not> is_fatal (order_entry_step ?E (OE_Connected ?ti) OrderEntryREST_create)"
    "\<not> is_fatal (order_entry_step ?E (OE_StaleOrders [(1, 7)]) ?s1)"
    "\<not> is_fatal (order_entry_step ?E (OE_Timer ?ti) ?s2)"
    by (simp_all add: run exec_simps Let_def)
  have "oe_reach ?E ?s1 0" by (rule oe_other [OF oe_start _ calm(1)]) simp
  then have "oe_reach ?E ?s2 0" by (rule oe_other [OF _ _ calm(2)]) simp
  then have reach: "oe_reach ?E ?s 0" by (rule oe_other [OF _ _ calm(3)]) simp
  have one: "order_queries (trace ?s) = 1"
    by (simp add: run exec_simps Let_def)
  have "\<not> redirected (ok_response [])" by (simp add: redirected_def ok_response_def)
  from stale_orders_committed_by_last [OF reach this, of ?ti "''c1''"] one reach show ?thesis
    by auto
qed

end
