(* ===== verification/Order_Requests.thy ===== *)
theory Order_Requests
  imports Order_Entry_REST
begin

text \<open>
  What the private REST stream does for orders: the request it sends for an order action, the
  verdict it gives on the answer, and what it reports of the orders it downloads.
\<close>

subsection \<open>Verdicts\<close>

text \<open>
  What an answer says of an order request, read off the reply: nothing to report, or a rejection
  with its origin, status, error and text.
\<close>

definition create_verdict :: "simple_ack reply \<Rightarrow> (origin \<times> request_status \<times> error \<times> string) option" where
  "create_verdict r = (case r of
     Data ack \<Rightarrow> if sa_code ack = OE_SYSTEM_CODE_SUCCESS then None
       else Some (Origin_EXCHANGE, RequestStatus_REJECTED, guess_error (sa_code ack), sa_msg ack)
   | Failed orig status err text \<Rightarrow> Some (orig, status, err, text)
   | _ \<Rightarrow> None)"

definition cancel_verdict :: "cancel_order_ack reply \<Rightarrow> (origin \<times> request_status \<times> error \<times> string) option" where
  "cancel_verdict r = (case r of
     Data ack \<Rightarrow> if xk_code ack \<noteq> OE_SYSTEM_CODE_SUCCESS
       then Some (Origin_EXCHANGE, RequestStatus_REJECTED, guess_error (xk_code ack), xk_msg ack)
       else if xk_cancelled_order_ids ack = [] then Some (Origin_EXCHANGE, RequestStatus_REJECTED, Error_UNKNOWN_ORDER_ID,
         if xk_msg ack = [] then ''UNKNOWN_ORDER_ID'' else xk_msg ack)
       else None
   | Failed orig status err text \<Rightarrow> Some (orig, status, err, text)
   | _ \<Rightarrow> None)"

definition verdict_effects ::
    "order_entry_env \<Rightarrow> request_type \<Rightarrow> 8 word \<Rightarrow> 64 word \<Rightarrow> 32 word
       \<Rightarrow> (origin \<times> request_status \<times> error \<times> string) option \<Rightarrow> effect list" where
  "verdict_effects E type user_id order_id version v = (case v of None \<Rightarrow> []
   | Some (orig, status, err, text) \<Rightarrow> [Dispatch (U_OrderResponse
       (order_response type version orig status err text) (oee_stream_id E) user_id order_id)])"

lemma total_oe_reject [total_intros]: "total (oe_reject E type u i v a b c d)"
  by (simp add: oe_reject_def total_intros)

lemma oe_reject_run:
  "oe_reject E type u i v a b c d s = Normal () (s\<lparr>trace := trace s @ verdict_effects E type u i v (Some (a, b, c, d))\<rparr>)"
  by (simp add: oe_reject_def verdict_effects_def exec_simps)

lemma create_order_ack_run:
  assumes "\<not> redirected response"
  shows "oe_create_order_ack E response u i v s = Normal () (s\<lparr>trace := trace s
     @ verdict_effects E RequestType_CREATE_ORDER u i v
        (create_verdict (reply_of (oee_oms_fields E) response (oee_add_order_ack E)))\<rparr>)"
proof -
  let ?err = "oe_reject E RequestType_CREATE_ORDER u i v"
  let ?ok = "\<lambda>ack. if sa_code ack = OE_SYSTEM_CODE_SUCCESS then skip
     else ?err Origin_EXCHANGE RequestStatus_REJECTED (guess_error (sa_code ack)) (sa_msg ack)"
  have "total (?ok a)" for a by (intro total_intros)
  note run = process_response_reply [where ok = ?ok, OF total_nothrow [OF this] total_nothrow [OF total_oe_reject]]
  have "reply_of (oee_oms_fields E) response (oee_add_order_ack E) \<noteq> Redirected"
    using assms by simp
  then show ?thesis
    unfolding oe_create_order_ack_def Let_def run
    by (cases "reply_of (oee_oms_fields E) response (oee_add_order_ack E)")
      (simp_all add: create_verdict_def oe_reject_run skip_def verdict_effects_def)
qed

lemma cancel_order_ack_run:
  assumes "\<not> redirected response"
  shows "oe_cancel_order_ack E response u i v s = Normal () (s\<lparr>trace := trace s
     @ verdict_effects E RequestType_CANCEL_ORDER u i v
        (cancel_verdict (reply_of (oee_oms_fields E) response (oee_cancel_order_ack E)))\<rparr>)"
proof -
  let ?err = "oe_reject E RequestType_CANCEL_ORDER u i v"
  let ?ok = "\<lambda>ack. if xk_code ack = OE_SYSTEM_CODE_SUCCESS
     then if xk_cancelled_order_ids ack = []
       then ?err Origin_EXCHANGE RequestStatus_REJECTED Error_UNKNOWN_ORDER_ID
         (if xk_msg ack = [] then ''UNKNOWN_ORDER_ID'' else xk_msg ack)
       else skip
     else ?err Origin_EXCHANGE RequestStatus_REJECTED (guess_error (xk_code ack)) (xk_msg ack)"
  have "total (?ok a)" for a by (intro total_intros)
  note run = process_response_reply [where ok = ?ok, OF total_nothrow [OF this] total_nothrow [OF total_oe_reject]]
  have "reply_of (oee_oms_fields E) response (oee_cancel_order_ack E) \<noteq> Redirected"
    using assms by simp
  then show ?thesis
    unfolding oe_cancel_order_ack_def Let_def run
    by (cases "reply_of (oee_oms_fields E) response (oee_cancel_order_ack E)")
      (simp_all add: cancel_verdict_def oe_reject_run skip_def verdict_effects_def)
qed

text \<open>The responses to order requests in a trace.\<close>

fun response_of :: "effect \<Rightarrow> (response \<times> 8 word \<times> 64 word) list" where
  "response_of (Dispatch (U_OrderResponse r i u oid)) = [(r, u, oid)]"
| "response_of _ = []"

text \<open>When an answer is an acceptance: it decodes to the success code and, for a cancel, names an order.\<close>

definition create_accepted :: "order_entry_env \<Rightarrow> rest_response \<Rightarrow> bool" where
  "create_accepted E response \<longleftrightarrow> (\<exists>ack. decoded response (oee_add_order_ack E) = Some ack
     \<and> sa_code ack = OE_SYSTEM_CODE_SUCCESS)"

definition cancel_accepted :: "order_entry_env \<Rightarrow> rest_response \<Rightarrow> bool" where
  "cancel_accepted E response \<longleftrightarrow> (\<exists>ack. decoded response (oee_cancel_order_ack E) = Some ack
     \<and> xk_code ack = OE_SYSTEM_CODE_SUCCESS \<and> xk_cancelled_order_ids ack \<noteq> [])"

lemma reply_Silent: "reply_of oms response decode = Silent \<Longrightarrow> \<not> conclusive response"
  by (auto simp: reply_of_def conclusive_def split: sum.splits if_splits) (metis http_category.exhaust)+

lemma reply_Data: "reply_of oms response decode = Data a \<longleftrightarrow> decoded response decode = Some a"
  by (auto simp: reply_of_def decoded_def split: sum.splits if_splits)

text \<open>
  C10. Every conclusive answer to an order request gets exactly one verdict: an accepted new order
  or cancel gets no response from this stream (the drop copy reports on it), anything else gets
  exactly one response, to the user and order the request was for, with its request type and
  version. A cancel that succeeds without naming a cancelled order is rejected as an unknown
  order, with a text. Inconclusive answers (informational, and the status is the expected one) get
  no response.
\<close>

theorem order_requests_judged_once:
  assumes "\<not> redirected response"
  shows "\<exists>v w. order_entry_step E (OE_CreateOrderAck response user_id order_id version) s = Normal ()
        (s\<lparr>trace := trace s @ verdict_effects E RequestType_CREATE_ORDER user_id order_id version v\<rparr>)
     \<and> order_entry_step E (OE_CancelOrderAck response user_id order_id version) s = Normal ()
        (s\<lparr>trace := trace s @ verdict_effects E RequestType_CANCEL_ORDER user_id order_id version w\<rparr>)
     \<and> (conclusive response \<longrightarrow> (v = None \<longleftrightarrow> create_accepted E response) \<and> (w = None \<longleftrightarrow> cancel_accepted E response))
     \<and> (\<forall>ack. decoded response (oee_cancel_order_ack E) = Some ack \<and> xk_code ack = OE_SYSTEM_CODE_SUCCESS
          \<and> xk_cancelled_order_ids ack = [] \<longrightarrow>
          (\<exists>text. text \<noteq> [] \<and> w = Some (Origin_EXCHANGE, RequestStatus_REJECTED, Error_UNKNOWN_ORDER_ID, text)))"
proof -
  let ?r = "reply_of (oee_oms_fields E) response (oee_add_order_ack E)"
  let ?q = "reply_of (oee_oms_fields E) response (oee_cancel_order_ack E)"
  have create: "create_verdict ?r = None \<longleftrightarrow> create_accepted E response" if "conclusive response"
    using that assms reply_Silent [of "oee_oms_fields E" response "oee_add_order_ack E"]
    by (cases ?r) (auto simp: create_verdict_def create_accepted_def simp flip: reply_Data [of "oee_oms_fields E"])
  have cancel: "cancel_verdict ?q = None \<longleftrightarrow> cancel_accepted E response" if "conclusive response"
    using that assms reply_Silent [of "oee_oms_fields E" response "oee_cancel_order_ack E"]
    by (cases ?q) (auto simp: cancel_verdict_def cancel_accepted_def simp flip: reply_Data [of "oee_oms_fields E"])
  have unknown: "\<exists>text. text \<noteq> [] \<and> cancel_verdict ?q = Some (Origin_EXCHANGE, RequestStatus_REJECTED, Error_UNKNOWN_ORDER_ID, text)"
    if "decoded response (oee_cancel_order_ack E) = Some ack" "xk_code ack = OE_SYSTEM_CODE_SUCCESS"
      "xk_cancelled_order_ids ack = []" for ack
    using that by (auto simp: cancel_verdict_def simp flip: reply_Data [of "oee_oms_fields E"])
  show ?thesis
    by (rule exI [of _ "create_verdict ?r"], rule exI [of _ "cancel_verdict ?q"])
      (use create cancel unknown in \<open>auto simp: order_entry_step_def create_order_ack_run [OF assms] cancel_order_ack_run [OF assms]\<close>)
qed

theorem order_requests_judged_once_witness:
  "\<exists>v text. order_entry_step sample_order_entry_env (OE_CancelOrderAck (ok_response []) 1 7 2) OrderEntryREST_create = Normal ()
        (OrderEntryREST_create\<lparr>trace := [] @ verdict_effects sample_order_entry_env RequestType_CANCEL_ORDER 1 7 2 v\<rparr>)
     \<and> v = Some (Origin_EXCHANGE, RequestStatus_REJECTED, Error_UNKNOWN_ORDER_ID, text)"
proof -
  have "\<not> redirected (ok_response [])" by (simp add: redirected_def ok_response_def)
  moreover have "decoded (ok_response []) (oee_cancel_order_ack sample_order_entry_env)
      = Some \<lparr>xk_code = 200000, xk_msg = [], xk_cancelled_order_ids = []\<rparr>"
    by (simp add: decoded_def ok_response_def sample_order_entry_env_def)
  ultimately show ?thesis
    using order_requests_judged_once [of "ok_response []" sample_order_entry_env 1 7 2 OrderEntryREST_create]
    by (auto simp: OE_SYSTEM_CODE_SUCCESS_def OrderEntryREST_create_def)
qed

subsection \<open>Requests\<close>

text \<open>
  C9. A stream that is ready sends an order as it is: a new order becomes one POST whose body reads
  back to exactly the order under its request id, a cancel one DELETE of the order's exchange id;
  the headers are signed over exactly the path and body that are sent, and the answer will be
  matched to the user, the order and the version of the request. The action returns the stream's
  own id. A stream that is not ready throws NotReady and sends nothing, whatever the action;
  modifying orders is not supported.
\<close>

theorem order_requests_faithful:
  assumes "plain_inputs (oee_encoder E) co rf rid" and "co_order_type co \<noteq> OrderType_UNDEFINED"
  shows "if oe_is_ready s then
      \<exists>body. oe_action E (CreateOrder info co rf rid) s = Normal (oee_stream_id E) (s\<lparr>trace := trace s @ [SendRequest
          \<lparr>rq_method = POST, rq_path = api_add_order (oee_api E), rq_query = [],
           rq_headers = oee_headers E (msg_trace_info info) POST (api_add_order (oee_api E)) [] body,
           rq_body = body, rq_json_content = True, rq_immediate = True\<rparr>
          rid (CbCreateOrder (msg_source info) (co_order_id co) 1)]\<rparr>)
        \<and> read_json body = Some (JFields (order_fields (oee_encoder E) co rf rid (oee_margin_mode E)))
        \<and> (let path = api_cancel_order (oee_api E) @ ''/'' @ or_external_order_id order in
           oe_action E (CancelOrder info xo order rid) s = Normal (oee_stream_id E) (s\<lparr>trace := trace s @ [SendRequest
          \<lparr>rq_method = DELETE, rq_path = path, rq_query = [],
           rq_headers = oee_headers E (msg_trace_info info) DELETE path [] [],
           rq_body = [], rq_json_content = False, rq_immediate = True\<rparr>
          rid (CbCancelOrder (msg_source info) (xo_order_id xo) (xo_version xo))]\<rparr>))
    else (\<forall>a. \<exists>k. oe_action E a s = Thrown (OmsException k
        (if a = ModifyOrder then ''not supported'' else ''not ready'')) s
        \<and> k = (if a = ModifyOrder then NotSupported else NotReady))"
proof (cases "oe_is_ready s")
  case True
  let ?j = "JFields (order_fields (oee_encoder E) co rf rid (oee_margin_mode E))"
  have body: "add_order (oee_encoder E) co rf rid (oee_margin_mode E) = Some (render ?j)"
    using assms(2) by (rule add_order_renders)
  have read: "read_json (render ?j) = Some ?j"
    using assms(1) by (intro read_json_render plain_order_fields)
  then have nonempty: "render ?j \<noteq> []" by simp
  from True show ?thesis
    by (simp del: render.simps, intro exI [of _ "render ?j"])
      (simp del: render.simps add: oe_action_def seqm_def bindm_def ret_def oe_create_order_run oe_cancel_order_run
        body read nonempty oe_request_def)
next
  case False
  have "\<exists>k. oe_action E a s = Thrown (OmsException k (if a = ModifyOrder then ''not supported'' else ''not ready'')) s
      \<and> k = (if a = ModifyOrder then NotSupported else NotReady)" for a
    using False by (cases a) (simp_all add: oe_action_def seqm_def bindm_def throw_def oe_create_order_run
      oe_cancel_order_run oe_cancel_all_orders_run)
  with False show ?thesis by simp
qed

theorem order_requests_faithful_witness:
  "\<exists>body. oe_action sample_order_entry_env (CreateOrder \<lparr>msg_source = 1, msg_trace_info = sample_trace_info\<rparr> sample_order
        \<lparr>rf_quantity_precision = 0, rf_price_precision = 1\<rparr> ''1234'')
        (OrderEntryREST_create\<lparr>oe_connection_status := ConnectionStatus_READY\<rparr>) = Normal 2
      (OrderEntryREST_create\<lparr>oe_connection_status := ConnectionStatus_READY, trace := [SendRequest
        \<lparr>rq_method = POST, rq_path = api_add_order API_create, rq_query = [], rq_headers = ''signed'',
         rq_body = body, rq_json_content = True, rq_immediate = True\<rparr> ''1234'' (CbCreateOrder 1 1 1)]\<rparr>)"
proof -
  let ?rf = "\<lparr>rf_quantity_precision = 0, rf_price_precision = 1\<rparr>"
  let ?s = "OrderEntryREST_create\<lparr>oe_connection_status := ConnectionStatus_READY\<rparr>"
  have plain: "plain_inputs (oee_encoder sample_order_entry_env) sample_order ?rf ''1234''"
    by (simp add: plain_inputs_def sample_order_entry_env_def sample_env_def sample_order_def plain_text_def)
  have type: "co_order_type sample_order \<noteq> OrderType_UNDEFINED" by (simp add: sample_order_def)
  have ready: "oe_is_ready ?s" by (simp add: oe_is_ready_def)
  from order_requests_faithful [OF plain type, where s = ?s and info = "\<lparr>msg_source = 1, msg_trace_info = sample_trace_info\<rparr>"
      and order = sample_oms_order and xo = "\<lparr>xo_account = ''A1'', xo_order_id = 7, xo_version = 2\<rparr>"] ready
  show ?thesis
    by (auto simp: sample_order_entry_env_def OrderEntryREST_create_def sample_order_def Let_def)
qed

text \<open>The symbols that are cancelled, and those that are acknowledged.\<close>

fun cancelled_symbol :: "effect \<Rightarrow> string option" where
  "cancelled_symbol (SendRequest r i CbCancelAllOrders) = Some (drop 8 (rq_query r))"
| "cancelled_symbol _ = None"

fun acknowledged_symbol :: "effect \<Rightarrow> string option" where
  "acknowledged_symbol (Dispatch (U_CancelAllOrdersAck u)) =
     (if ca_request_status u = RequestStatus_FORWARDED then Some (ca_symbol u) else None)"
| "acknowledged_symbol _ = None"

lemma cancel_symbols:
  "List.map_filter cancelled_symbol (concat (map (cancel_symbol E info xa rid) symbs))
     = filter (\<lambda>symb. xa_symbol xa = [] \<or> symb = xa_symbol xa) symbs"
  "List.map_filter acknowledged_symbol (concat (map (cancel_symbol E info xa rid) symbs))
     = filter (\<lambda>symb. xa_symbol xa = [] \<or> symb = xa_symbol xa) symbs"
  by (induction symbs) (auto simp: cancel_symbol_def map_filter_def oe_request_def oe_cancel_all_ack_def)

text \<open>
  C29. Cancelling all orders reaches every symbol it should and no other: for each symbol that has
  orders, in the server's order, and that the request names (or every one, if it names none), one
  DELETE for the symbol and one forwarded acknowledgement for it are sent, the acknowledgement
  after the request.
\<close>

theorem cancel_all_reaches_matching_symbols:
  assumes "oe_is_ready s"
  shows "let symbs = oee_order_symbols E (trace s @ [Call ''get_all_order_symbols'']) in
     \<exists>as. oe_action E (CancelAllOrders info xa rid) s = Normal (oee_stream_id E) (s\<lparr>trace := trace s @ as\<rparr>)
     \<and> List.map_filter cancelled_symbol as = filter (\<lambda>symb. xa_symbol xa = [] \<or> symb = xa_symbol xa) symbs
     \<and> List.map_filter acknowledged_symbol as = filter (\<lambda>symb. xa_symbol xa = [] \<or> symb = xa_symbol xa) symbs
     \<and> messages as = length (List.map_filter cancelled_symbol as)"
proof -
  define symbs where "symbs = oee_order_symbols E (trace s @ [Call ''get_all_order_symbols''])"
  let ?as = "Call ''get_all_order_symbols'' # concat (map (cancel_symbol E info xa rid) symbs)"
  have count: "messages (concat (map (cancel_symbol E info xa rid) symbs))
      = length (List.map_filter cancelled_symbol (concat (map (cancel_symbol E info xa rid) symbs)))"
    by (induction symbs) (simp_all add: cancel_symbol_def map_filter_def)
  have "oe_action E (CancelAllOrders info xa rid) s = Normal (oee_stream_id E) (s\<lparr>trace := trace s @ ?as\<rparr>)"
    using assms by (simp add: symbs_def oe_action_def seqm_def bindm_def ret_def oe_cancel_all_orders_run Let_def)
  then show ?thesis
    using cancel_symbols [of E info xa rid symbs] count unfolding Let_def symbs_def [symmetric]
    by (intro exI [of _ ?as]) (simp add: map_filter_def)
qed

theorem cancel_all_reaches_matching_symbols_witness:
  "\<exists>as. oe_action sample_order_entry_env (CancelAllOrders \<lparr>msg_source = 1, msg_trace_info = sample_trace_info\<rparr>
        \<lparr>xa_account = ''A1'', xa_order_id = 0, xa_exchange = [], xa_symbol = ''ETHUSDTM'', xa_side = Side_UNDEFINED,
         xa_strategy_id = 0\<rparr> ''9'') (OrderEntryREST_create\<lparr>oe_connection_status := ConnectionStatus_READY\<rparr>)
      = Normal 2 (OrderEntryREST_create\<lparr>oe_connection_status := ConnectionStatus_READY, trace := as\<rparr>)
     \<and> List.map_filter cancelled_symbol as = [''ETHUSDTM''] \<and> messages as = 1"
proof -
  have "oe_is_ready (OrderEntryREST_create\<lparr>oe_connection_status := ConnectionStatus_READY\<rparr>)" by (simp add: oe_is_ready_def)
  from cancel_all_reaches_matching_symbols [OF this, where E = sample_order_entry_env and rid = "''9''"
      and info = "\<lparr>msg_source = 1, msg_trace_info = sample_trace_info\<rparr>"
      and xa = "\<lparr>xa_account = ''A1'', xa_order_id = 0, xa_exchange = [], xa_symbol = ''ETHUSDTM'',
        xa_side = Side_UNDEFINED, xa_strategy_id = 0\<rparr>"]
  show ?thesis by (auto simp: sample_order_entry_env_def OrderEntryREST_create_def)
qed

text \<open>
  Over any sequence of creates, cancels and modifications, with the verdicts of the stream on
  them, the number of messages sent is the number of actions that were taken: no order action is
  sent twice, and none that was refused is sent. A stream that is not ready takes none of them.
\<close>

theorem rest_orders_sent_once:
  assumes "run_actions (oe_action E) as s = Some (taken, t)" and "list_all on_one_order as"
  shows "length taken = length as
     \<and> messages (trace t) = messages (trace s) + length (filter (\<lambda>b. b) taken)
     \<and> (oe_is_ready s \<or> t = s \<and> taken = map (\<lambda>a. False) as)"
proof -
  have "t = s \<and> taken = map (\<lambda>a. False) as" if "\<not> oe_is_ready s"
    using assms(1) that
  proof (induction as arbitrary: taken)
    case (Cons a as)
    then obtain e where "oe_action E a s = Thrown e s"
      by (cases a) (auto simp: oe_action_def seqm_def bindm_def throw_def oe_create_order_run oe_cancel_order_run
        oe_cancel_all_orders_run)
    with Cons show ?case by auto
  qed simp
  moreover have "length taken = length as
     \<and> messages (trace t) = messages (trace s) + length (filter (\<lambda>b. b) taken)"
    by (rule oe_order_stream.run_sends_what_it_takes [OF assms(1)]) (use assms(2) in \<open>simp add: list_all_iff\<close>)
  ultimately show ?thesis by blast
qed

theorem rest_orders_sent_once_witness:
  "\<exists>t. run_actions (oe_action sample_order_entry_env) [ModifyOrder, CancelOrder \<lparr>msg_source = 1, msg_trace_info = sample_trace_info\<rparr>
        \<lparr>xo_account = ''A1'', xo_order_id = 7, xo_version = 2\<rparr> sample_oms_order ''9'']
        (OrderEntryREST_create\<lparr>oe_connection_status := ConnectionStatus_READY\<rparr>) = Some ([False, True], t)
     \<and> messages (trace t) = 1"
proof -
  let ?as = "[ModifyOrder, CancelOrder \<lparr>msg_source = 1, msg_trace_info = sample_trace_info\<rparr>
        \<lparr>xo_account = ''A1'', xo_order_id = 7, xo_version = 2\<rparr> sample_oms_order ''9'']"
  let ?s = "OrderEntryREST_create\<lparr>oe_connection_status := ConnectionStatus_READY\<rparr>"
  obtain t where t: "run_actions (oe_action sample_order_entry_env) ?as ?s = Some ([False, True], t)"
    by (auto simp: oe_action_def throw_def ret_def seqm_def bindm_def oe_cancel_order_run oe_is_ready_def)
  moreover from rest_orders_sent_once [OF t] have "messages (trace t) = 1"
    by (simp add: OrderEntryREST_create_def)
  ultimately show ?thesis by blast
qed

subsection \<open>What downloads report\<close>

lemma for_each_dispatch:
  "for_each items (\<lambda>item. dispatch (f item)) s
     = Normal () (s\<lparr>trace := trace s @ map (\<lambda>item. Dispatch (f item)) items\<rparr>)"
  by (induction items arbitrary: s) (simp_all add: exec_simps)



fun signed_as_sent :: "order_entry_env \<Rightarrow> effect \<Rightarrow> bool" where
  "signed_as_sent E (SendRequest r i c) = (private_path (oee_api E) (rq_path r)
     \<and> (\<exists>ti. rq_headers r = oee_headers E ti (rq_method r) (rq_path r) (rq_query r) (rq_body r)))"
| "signed_as_sent E (SendText m) = False"
| "signed_as_sent E _ = True"

lemma oe_built_signed: "oe_built E r \<Longrightarrow> signed_as_sent E (SendRequest r i c)"
  by (auto simp: oe_built_def oe_request_def)

lemma oe_allowed_signed: "oe_allowed E a \<Longrightarrow> signed_as_sent E a"
  by (cases a) (simp_all add: oe_built_signed del: signed_as_sent.simps(1))

lemma oe_safe_signed: "oe_safe E (grows (signed_as_sent E) [])"
  unfolding oe_safe_def
proof (intro conjI allI impI)
  show "keeps (grows (signed_as_sent E) []) (emit a :: oe_stmt)" if "oe_allowed E a" for a
    using oe_allowed_signed [OF that] by (rule keeps_grows_emit)
  show "keeps (grows (signed_as_sent E) []) (oe_report E ti st reason)" for ti st reason
    unfolding oe_report_def by (auto intro!: grows_rules)
  show "keeps (grows (signed_as_sent E) []) (counted_query E ti order)" for ti order
    unfolding counted_query_def get_order_def Let_def
    by (auto intro!: grows_rules oe_built_signed simp del: signed_as_sent.simps(1))
qed (rule keeps_grows_modify; simp)+

lemma signed_kept: "keeps (grows (signed_as_sent E) []) (order_entry_step E e)"
proof (cases "\<exists>ti response c. e = OE_OrderAck ti response c")
  case True
  then show ?thesis
    by (auto simp: order_entry_step_def get_order_ack_def log_error_def intro!: grows_rules)
next
  case False
  then show ?thesis by (intro order_entry_keeps [OF oe_safe_signed]) blast
qed

text \<open>
  Every request this stream ever sends, whatever happens in whatever order, is on one of the
  account's paths and carries headers that were made for exactly the method, path, query and body
  it sends.
\<close>

theorem requests_signed_as_sent:
  "list_all (signed_as_sent E) (trace (run_events (order_entry_step E) es OrderEntryREST_create))"
proof -
  have "grows (signed_as_sent E) [] (run_events (order_entry_step E) es OrderEntryREST_create)"
    by (rule run_events_keeps [OF signed_kept]) (simp add: grows_def OrderEntryREST_create_def)
  then show ?thesis by (simp add: grows_def)
qed

end
