(* ===== verification/Order_Entry_WS.thy ===== *)
theory Order_Entry_WS
  imports Order_Actions Parser Json_Utils
begin

text \<open>
  \<open>gateway/order_entry_ws.cpp\<close>: the private websocket stream that takes orders when the websocket
  API is enabled. It answers the exchange's login challenge, waits for the welcome, keeps the
  connection alive, and turns the exchange's answers into responses. The connection, the JSON
  decoders and the account's signatures are external: \<open>order_entry_ws_env\<close>.
\<close>

subsection \<open>State\<close>

record order_entry_ws = ctx +
  ow_welcome :: bool
  ow_ping_freq :: int
  ow_ready :: bool
  ow_connection_status :: connection_status
  ow_logon_timeout :: int
  ow_next_ping :: int

record order_entry_ws_env =
  owe_stream_id :: "16 word"
  owe_account_name :: string
  owe_settings :: settings
  owe_margin_mode :: margin_mode
  owe_connection :: connection_env
  owe_encoder :: encoder_env
  owe_decoders :: ws_decoders
  owe_ws_auth :: "string \<Rightarrow> string"
  owe_ws_query :: "trace_info \<Rightarrow> string"

definition OW_SUPPORTS :: "support_type set" where
  "OW_SUPPORTS = {}"

definition OW_SUPPORTS_WSAPI :: "support_type set" where
  "OW_SUPPORTS_WSAPI = {Support_CREATE_ORDER, Support_CANCEL_ORDER, Support_ORDER_ACK}"

type_synonym ow_stmt = "(order_entry_ws, exn, unit) stmt"

definition OrderEntryWS_create :: order_entry_ws where
  "OrderEntryWS_create = \<lparr>trace = [], ow_welcome = False, ow_ping_freq = 0, ow_ready = False,
     ow_connection_status = ConnectionStatus_UNDEFINED, ow_logon_timeout = 0, ow_next_ping = 0\<rparr>"

definition ow_report :: "order_entry_ws_env \<Rightarrow> trace_info \<Rightarrow> connection_status \<Rightarrow> string \<Rightarrow> ow_stmt" where
  "ow_report E ti status reason = block
     [modify (\<lambda>s. s\<lparr>ow_connection_status := status\<rparr>),
      reading id (\<lambda>s. dispatch (U_StreamStatus (make_stream_status (owe_connection E) (owe_stream_id E)
        (owe_account_name E) (if set_ws_api (owe_settings E) then OW_SUPPORTS_WSAPI else OW_SUPPORTS)
        Protocol_WS (ow_connection_status s) reason (trace s))))]"

text \<open>\<open>ready()\<close> is the connection's: it knows nothing of the welcome.\<close>

definition ow_is_ready :: "order_entry_ws_env \<Rightarrow> order_entry_ws \<Rightarrow> bool" where
  "ow_is_ready E s = conn_ready (owe_connection E) (trace s)"

definition ow_get_query :: "order_entry_ws_env \<Rightarrow> string" where
  "ow_get_query E = owe_ws_query E \<lparr>origin_create_time = 0, origin_create_time_utc = 0, source_receive_time = 0\<rparr>"

subsection \<open>Keep-alive\<close>

definition ow_ping_message :: "int \<Rightarrow> string" where
  \<open>ow_ping_message now = ''{'' @ ''"id":"'' @ fmt_int now @ ''",'' @ ''"op":"ping"'' @ ''}''\<close>

definition ow_send_ping :: "int \<Rightarrow> ow_stmt" where
  "ow_send_ping now = block
     [reading ow_ping_freq (\<lambda>freq. assert_that (0 < freq)),
      modify (\<lambda>s. s\<lparr>ow_next_ping := now + ow_ping_freq s div 2\<rparr>),
      emit (SendText (ow_ping_message now))]"

definition ow_timer :: "order_entry_ws_env \<Rightarrow> int \<Rightarrow> ow_stmt" where
  "ow_timer E now = ask ''refresh'' (conn_refresh (owe_connection E)) (\<lambda>refresh. whenm refresh
     (ask ''ready'' (conn_ready (owe_connection E)) (\<lambda>connected.
        if connected then reading id (\<lambda>s. whenm (ow_welcome s) (whenm (ow_next_ping s < now) (ow_send_ping now)))
        else reading id (\<lambda>s. whenm (ow_logon_timeout s \<noteq> 0 \<and> ow_logon_timeout s < now) (block
          [assert_that (\<not> ow_welcome s),
           emit ConnClose])))))"

subsection \<open>Order actions\<close>

text \<open>None of the actions asks whether the stream is ready.\<close>

definition ow_action :: "order_entry_ws_env \<Rightarrow> order_action \<Rightarrow> (order_entry_ws, exn, 16 word) stmt" where
  "ow_action E a = (case a of
     CreateOrder info co rf request_id \<Rightarrow>
       (case ws_add_order (owe_encoder E) co rf request_id (owe_margin_mode E) of
          None \<Rightarrow> fatal ''assert''
        | Some message \<Rightarrow> seqm (emit (SendText message)) (ret (owe_stream_id E)))
   | ModifyOrder \<Rightarrow> throw (OmsException NotSupported ''not supported'')
   | CancelOrder info xo order request_id \<Rightarrow>
       seqm (emit (SendText (ws_cancel_order order request_id))) (ret (owe_stream_id E))
   | CancelAllOrders info xa request_id \<Rightarrow> throw (OmsException NotSupported ''not supported''))"

subsection \<open>Messages\<close>

text \<open>A response to the request with the given id; the exchange's verdict and the order's ids, if it names them.\<close>

definition ow_response ::
    "request_type \<Rightarrow> request_status \<Rightarrow> error \<Rightarrow> string \<Rightarrow> string \<Rightarrow> string \<Rightarrow> string \<Rightarrow> response" where
  "ow_response type status err text request_id external_order_id client_order_id =
     \<lparr>rs_request_type = type, rs_origin = Origin_EXCHANGE, rs_request_status = status, rs_error = err, rs_text = text,
      rs_version = 0, rs_request_id = request_id, rs_external_order_id = external_order_id,
      rs_client_order_id = client_order_id\<rparr>"

definition ow_auth :: "order_entry_ws_env \<Rightarrow> trace_info \<Rightarrow> string \<Rightarrow> ow_stmt" where
  "ow_auth E ti message = block
     [emit (SendText (owe_ws_auth E message)),
      ow_report E ti ConnectionStatus_LOGIN_SENT []]"

definition ow_welcome_message :: "order_entry_ws_env \<Rightarrow> trace_info \<Rightarrow> int \<Rightarrow> ow_stmt" where
  "ow_welcome_message E ti ping_interval_ms = block
     [modify (\<lambda>s. s\<lparr>ow_welcome := True\<rparr>),
      assert_that (ping_interval_ms \<noteq> 0),
      modify (\<lambda>s. s\<lparr>ow_ping_freq := ns_of_ms ping_interval_ms\<rparr>),
      ow_report E ti ConnectionStatus_READY []]"

definition ow_error :: "order_entry_ws_env \<Rightarrow> ws_error \<Rightarrow> ow_stmt" where
  "ow_error E error = (let
       helper = (\<lambda>request_type. dispatch (U_RequestResponse (ow_response request_type RequestStatus_REJECTED
         (guess_error (we_code error)) (we_msg error) (we_id error) [] []) (owe_stream_id E)))
     in case we_op error of
       WSOp_UNDEFINED_INTERNAL \<Rightarrow>
         if is_auth_error (we_code error)
         then if set_retry_logon (owe_settings E) then emit ConnClose else fatal ''error''
         else skip
     | WSOp_UNKNOWN_INTERNAL \<Rightarrow> skip
     | WSOp_PONG \<Rightarrow> skip
     | WSOp_ADD_ORDER_ACK \<Rightarrow> helper RequestType_CREATE_ORDER
     | WSOp_CANCEL_ORDER_ACK \<Rightarrow> helper RequestType_CANCEL_ORDER)"

definition ow_add_order_ack :: "order_entry_ws_env \<Rightarrow> ws_order_ack \<Rightarrow> ow_stmt" where
  "ow_add_order_ack E ack = dispatch (U_RequestResponse (ow_response RequestType_CREATE_ORDER RequestStatus_ACCEPTED
     Error_UNDEFINED [] (wa_id ack) (wa_order_id ack) (wa_client_oid ack)) (owe_stream_id E))"

definition ow_cancel_order_ack :: "order_entry_ws_env \<Rightarrow> ws_order_ack \<Rightarrow> ow_stmt" where
  "ow_cancel_order_ack E ack = dispatch (U_RequestResponse (ow_response RequestType_CANCEL_ORDER RequestStatus_ACCEPTED
     Error_UNDEFINED [] (wa_id ack) [] (wa_client_oid ack)) (owe_stream_id E))"

definition ow_handle :: "order_entry_ws_env \<Rightarrow> trace_info \<Rightarrow> ws_api_event \<Rightarrow> ow_stmt" where
  "ow_handle E ti ev = (case ev of
     Ws_Auth message \<Rightarrow> ow_auth E ti message
   | Ws_Welcome ping_interval_ms \<Rightarrow> ow_welcome_message E ti ping_interval_ms
   | Ws_Error error \<Rightarrow> ow_error E error
   | Ws_Pong \<Rightarrow> skip
   | Ws_AddOrderAck ack \<Rightarrow> ow_add_order_ack E ack
   | Ws_CancelOrderAck ack \<Rightarrow> ow_cancel_order_ack E ack)"

text \<open>An exception that leaves the parser or a handler ends the process.\<close>

definition ow_parse :: "order_entry_ws_env \<Rightarrow> trace_info \<Rightarrow> string \<Rightarrow> ow_stmt" where
  "ow_parse E ti message = try_catch
     (bindm (ws_parser_dispatch (owe_decoders E) (ow_handle E ti) message
        (set_allow_unknown_event_types (owe_settings E))) (\<lambda>handled. skip))
     (\<lambda>e. fatal ''terminate'')"

subsection \<open>Events\<close>

datatype order_entry_ws_event =
    OW_Start | OW_Stop | OW_Timer trace_info int
  | OW_Connected trace_info | OW_Disconnected trace_info | OW_Ready trace_info | OW_Close
  | OW_Latency int | OW_Text trace_info string | OW_Binary
  | OW_Action order_action

definition ow_connected :: "order_entry_ws_env \<Rightarrow> trace_info \<Rightarrow> ow_stmt" where
  "ow_connected E ti = block
     [reading ow_logon_timeout (\<lambda>t. assert_that (t = 0)),
      modify (\<lambda>s. s\<lparr>ow_logon_timeout := origin_create_time ti + set_ws_request_timeout (owe_settings E)\<rparr>)]"

definition ow_disconnected :: "order_entry_ws_env \<Rightarrow> trace_info \<Rightarrow> ow_stmt" where
  "ow_disconnected E ti = block
     [emit CountDisconnect,
      ow_report E ti ConnectionStatus_DISCONNECTED [],
      modify (\<lambda>s. s\<lparr>ow_welcome := False\<rparr>),
      modify (\<lambda>s. s\<lparr>ow_ping_freq := 0\<rparr>),
      modify (\<lambda>s. s\<lparr>ow_ready := False\<rparr>),
      modify (\<lambda>s. s\<lparr>ow_logon_timeout := 0\<rparr>),
      modify (\<lambda>s. s\<lparr>ow_next_ping := 0\<rparr>)]"

definition order_entry_ws_step :: "order_entry_ws_env \<Rightarrow> order_entry_ws_event \<Rightarrow> ow_stmt" where
  "order_entry_ws_step E e = (case e of
     OW_Start \<Rightarrow> emit ConnStart
   | OW_Stop \<Rightarrow> emit ConnStop
   | OW_Timer ti now \<Rightarrow> ow_timer E now
   | OW_Connected ti \<Rightarrow> ow_connected E ti
   | OW_Disconnected ti \<Rightarrow> ow_disconnected E ti
   | OW_Ready ti \<Rightarrow> ow_report E ti ConnectionStatus_LOGIN_SENT []
   | OW_Close \<Rightarrow> skip
   | OW_Latency sample \<Rightarrow> dispatch (U_ExternalLatency (owe_stream_id E) (owe_account_name E) sample)
   | OW_Text ti payload \<Rightarrow> ow_parse E ti payload
   | OW_Binary \<Rightarrow> fatal ''Unexpected''
   | OW_Action a \<Rightarrow> bindm (ow_action E a) (\<lambda>stream_id. skip))"

subsection \<open>The contracts of a stream and an order stream\<close>

lemma ow_report_run:
  "ow_report E ti st reason s = Normal () (s\<lparr>ow_connection_status := st, trace := trace s @
     [Dispatch (U_StreamStatus (make_stream_status (owe_connection E) (owe_stream_id E) (owe_account_name E)
       (if set_ws_api (owe_settings E) then OW_SUPPORTS_WSAPI else OW_SUPPORTS) Protocol_WS st reason (trace s)))]\<rparr>)"
  by (simp add: ow_report_def exec_simps)

text \<open>The contract holds of the reported status; the stream's own \<open>ready()\<close> does not keep it.\<close>

interpretation ow_stream: stream ow_connection_status "\<lambda>s. ow_connection_status s = ConnectionStatus_READY" "ow_report E" for E
  by unfold_locales (auto simp: ow_report_run)

interpretation ow_order_stream: order_action_stream "owe_stream_id E" "ow_action E" for E
proof
  fix a s i t
  assume "ow_action E a s = Normal i t"
  then show "i = owe_stream_id E \<and> (\<exists>as. trace t = trace s @ as \<and> (on_one_order a \<longrightarrow> messages as = 1))"
    by (cases a) (auto simp: ow_action_def exec_simps split: option.splits)
next
  fix a s e t
  assume "ow_action E a s = Thrown e t"
  then show "t = s"
    by (cases a) (auto simp: ow_action_def exec_simps split: option.splits)
next
  fix s
  show "ow_action E ModifyOrder s = Thrown (OmsException NotSupported ''not supported'') s"
    by (simp add: ow_action_def exec_simps)
qed

subsection \<open>Invariants through every handler\<close>

text \<open>
  An invariant that survives every effect that is no report and no text, every report below READY,
  the texts (answers to a challenge, orders, pings), the welcome, the logon timeout and a disconnect
  survives every event.
\<close>

definition ow_safe :: "order_entry_ws_env \<Rightarrow> (order_entry_ws \<Rightarrow> bool) \<Rightarrow> bool" where
  "ow_safe E I \<longleftrightarrow> (\<forall>a. status_of_effect a = None \<longrightarrow> (\<forall>m. a \<noteq> SendText m) \<longrightarrow> keeps I (emit a))
     \<and> (\<forall>ti st reason. st \<noteq> ConnectionStatus_READY \<longrightarrow> keeps I (ow_report E ti st reason))
     \<and> (\<forall>ti p. keeps I (ow_welcome_message E ti p)) \<and> (\<forall>ti. keeps I (ow_disconnected E ti))
     \<and> (\<forall>f. keeps I (modify (\<lambda>s. s\<lparr>ow_logon_timeout := f s\<rparr>) :: ow_stmt))
     \<and> (\<forall>now. keeps I (ow_send_ping now)) \<and> (\<forall>ti message. keeps I (ow_auth E ti message))
     \<and> (\<forall>a. keeps I (ow_action E a))"

lemma ow_safe_emit: "ow_safe E I \<Longrightarrow> status_of_effect a = None \<Longrightarrow> (\<And>m. a \<noteq> SendText m) \<Longrightarrow> keeps I (emit a)"
  and ow_safe_report: "ow_safe E I \<Longrightarrow> st \<noteq> ConnectionStatus_READY \<Longrightarrow> keeps I (ow_report E ti st reason)"
  and ow_safe_welcome: "ow_safe E I \<Longrightarrow> keeps I (ow_welcome_message E ti p)"
  and ow_safe_disconnected: "ow_safe E I \<Longrightarrow> keeps I (ow_disconnected E ti)"
  and ow_safe_timeout: "ow_safe E I \<Longrightarrow> keeps I (modify (\<lambda>s. s\<lparr>ow_logon_timeout := f s\<rparr>) :: ow_stmt)"
  and ow_safe_ping: "ow_safe E I \<Longrightarrow> keeps I (ow_send_ping now)"
  and ow_safe_auth: "ow_safe E I \<Longrightarrow> keeps I (ow_auth E ti message)"
  and ow_safe_action: "ow_safe E I \<Longrightarrow> keeps I (ow_action E action)"
  by (auto simp: ow_safe_def)

text \<open>An invariant that does not look at what is sent.\<close>

lemma ow_safeI:
  assumes "\<And>a. status_of_effect a = None \<Longrightarrow> keeps I (emit a)"
    and "\<And>ti st reason. st \<noteq> ConnectionStatus_READY \<Longrightarrow> keeps I (ow_report E ti st reason)"
    and "\<And>ti p. keeps I (ow_welcome_message E ti p)" and "\<And>ti. keeps I (ow_disconnected E ti)"
    and "\<And>f. keeps I (modify (\<lambda>s. s\<lparr>ow_logon_timeout := f s\<rparr>) :: ow_stmt)"
    and "\<And>f. keeps I (modify (\<lambda>s. s\<lparr>ow_next_ping := f s\<rparr>) :: ow_stmt)"
  shows "ow_safe E I"
  using assms by (auto simp: ow_safe_def ow_send_ping_def ow_auth_def ow_action_def intro!: keeps_intros keeps_block
    split: option.split order_action.split)

lemma ow_safe_dispatch: "ow_safe E I \<Longrightarrow> status_of_effect (Dispatch u) = None \<Longrightarrow> keeps I (dispatch u)"
  unfolding dispatch_def by (rule ow_safe_emit) simp_all

lemma ow_safe_ask: "ow_safe E I \<Longrightarrow> (\<And>b. keeps I (k b)) \<Longrightarrow> keeps I (ask name answer k)"
  by (rule keeps_ask [OF ow_safe_emit]) simp_all

lemmas ow_safe_rules = ow_safe_ask keeps_intros keeps_block ow_safe_emit ow_safe_dispatch ow_safe_report ow_safe_welcome
  ow_safe_disconnected ow_safe_timeout ow_safe_ping ow_safe_auth ow_safe_action

lemma ow_safe_handle: "ow_safe E I \<Longrightarrow> keeps I (ow_handle E ti ev)"
  unfolding ow_handle_def ow_error_def ow_add_order_ack_def ow_cancel_order_ack_def Let_def
  by (cases ev) (auto intro!: ow_safe_rules split: json_ws_op.splits)

lemma keeps_ws_parser_dispatch:
  assumes "\<And>ev. keeps I (h ev)"
  shows "keeps I (ws_parser_dispatch D h message allow)"
  unfolding ws_parser_dispatch_def dispatch_helper_def
  by (auto intro!: keeps_intros assms split: json_ws_op.splits)

lemma ow_safe_parse: "ow_safe E I \<Longrightarrow> keeps I (ow_parse E ti message)"
  unfolding ow_parse_def by (intro keeps_intros keeps_ws_parser_dispatch ow_safe_handle)

lemma ow_safe_timer: "ow_safe E I \<Longrightarrow> keeps I (ow_timer E now)"
  unfolding ow_timer_def by (auto intro!: ow_safe_rules)

lemma order_entry_ws_keeps: "ow_safe E I \<Longrightarrow> keeps I (order_entry_ws_step E e)"
  by (cases e) (auto simp: order_entry_ws_step_def ow_connected_def
    intro!: ow_safe_rules ow_safe_parse ow_safe_timer)

text \<open>The session: what is published is what the stream holds, and READY means welcomed, with a ping period.\<close>

definition ow_session :: "order_entry_ws \<Rightarrow> bool" where
  "ow_session s \<longleftrightarrow> agrees ow_connection_status s \<and> (ow_ping_freq s \<noteq> 0 \<longrightarrow> ow_welcome s)
     \<and> (ow_connection_status s = ConnectionStatus_READY \<longrightarrow> ow_ping_freq s \<noteq> 0)"

lemma ow_safe_session: "ow_safe E ow_session"
proof (rule ow_safeI)
  show "keeps ow_session (emit a :: ow_stmt)" if "status_of_effect a = None" for a
    by (rule keeps_emit) (simp add: ow_session_def agrees_def that)
  show "keeps ow_session (ow_report E ti st reason)" if "st \<noteq> ConnectionStatus_READY" for ti st reason
    using that by (intro keepsI) (simp add: ow_report_run ow_session_def agrees_def)
  show "keeps ow_session (ow_welcome_message E ti p)" for ti p
    by (rule keepsI) (simp add: ow_welcome_message_def ow_session_def agrees_def ow_report_def ns_of_ms_def exec_simps)
  show "keeps ow_session (ow_disconnected E ti)" for ti
    by (rule keepsI) (simp add: ow_disconnected_def ow_session_def agrees_def ow_report_def published_append exec_simps)
qed (rule keeps_modify; simp add: ow_session_def agrees_def)+

lemma order_entry_ws_session: "ow_session (run_events (order_entry_ws_step E) es OrderEntryWS_create)"
  by (rule run_events_keeps [OF order_entry_ws_keeps [OF ow_safe_session]])
    (simp add: ow_session_def agrees_def OrderEntryWS_create_def)

subsection \<open>Properties\<close>

text \<open>
  C30. The session of the websocket order API: whatever happens in whatever order, the status the
  server was last told is the one the stream holds, and it is READY only while the exchange's
  welcome stands, with a ping period; and no timer sends anything before the welcome.
\<close>

theorem ws_session_ready_means_welcomed:
  "let s = run_events (order_entry_ws_step E) es OrderEntryWS_create in
     published (trace s) = ow_connection_status s
     \<and> (ow_welcome s \<and> ow_ping_freq s \<noteq> 0 \<or> published (trace s) \<noteq> ConnectionStatus_READY)
     \<and> (ow_welcome s \<or> messages (trace (final_state (order_entry_ws_step E (OW_Timer ti now) s))) = messages (trace s))"
proof -
  define s where "s = run_events (order_entry_ws_step E) es OrderEntryWS_create"
  have "ow_session s" unfolding s_def by (rule order_entry_ws_session)
  moreover have "messages (trace (final_state (order_entry_ws_step E (OW_Timer ti now) s))) = messages (trace s)"
    if "\<not> ow_welcome s"
    using that by (simp add: order_entry_ws_step_def ow_timer_def exec_simps)
  ultimately show ?thesis
    unfolding s_def [symmetric] Let_def by (auto simp: ow_session_def agrees_def)
qed

text \<open>
  C11. Answers of the websocket order API: a text that answers an add or a cancel gets exactly one
  response, of that kind and to the request of that id, and it is an acceptance exactly if the
  code is the success code; otherwise it is a rejection. (The decoders read the same text, so they
  agree on the operation and the id.)
\<close>

theorem ws_answers_matched:
  fixes E :: order_entry_ws_env
  assumes "dec_ws_message (owe_decoders E) m = Inr w" and "wm_session_id w = []"
    and "wm_op w = WSOp_ADD_ORDER_ACK \<or> wm_op w = WSOp_CANCEL_ORDER_ACK"
    and "dec_ws_error (owe_decoders E) m = Inr e" and "we_op e = wm_op w" and "we_id e = rid"
    and "dec_ws_add_order_ack (owe_decoders E) m = Inr a" and "wa_id a = rid"
    and "dec_ws_cancel_order_ack (owe_decoders E) m = Inr c" and "wa_id c = rid"
  shows "\<exists>r. order_entry_ws_step E (OW_Text ti m) s
        = Normal () (s\<lparr>trace := trace s @ [Dispatch (U_RequestResponse r (owe_stream_id E))]\<rparr>)
     \<and> rs_request_id r = rid \<and> rs_origin r = Origin_EXCHANGE
     \<and> rs_request_type r = (if wm_op w = WSOp_ADD_ORDER_ACK then RequestType_CREATE_ORDER else RequestType_CANCEL_ORDER)
     \<and> rs_request_status r = (if wm_code w = CODE_SUCCESS then RequestStatus_ACCEPTED else RequestStatus_REJECTED)"
proof -
  have parse: "ow_parse E ti m s = (case ow_handle E ti (if wm_code w \<noteq> CODE_SUCCESS then Ws_Error e
      else if wm_op w = WSOp_ADD_ORDER_ACK then Ws_AddOrderAck a else Ws_CancelOrderAck c) s of
        Normal u t \<Rightarrow> Normal () t | Thrown x t \<Rightarrow> Fatal ''terminate'' t | Fatal msg t \<Rightarrow> Fatal msg t)"
    using assms(3) by (elim disjE; cases "wm_code w = CODE_SUCCESS")
      (simp_all add: assms(1,2,4,7,9) ow_parse_def ws_parser_dispatch_def dispatch_helper_def bindm_def seqm_def ret_def
        try_catch_def fatal_def skip_def split: outcome.split)
  show ?thesis
    unfolding order_entry_ws_step_def order_entry_ws_event.case parse using assms(3,5,6,8,10)
    by (auto simp: ow_handle_def ow_error_def ow_add_order_ack_def ow_cancel_order_ack_def ow_response_def exec_simps)
qed

definition sample_order_entry_ws_env :: order_entry_ws_env where
  "sample_order_entry_ws_env = \<lparr>owe_stream_id = 3, owe_account_name = ''A1'', owe_settings = sample_settings,
     owe_margin_mode = MarginMode_CROSS, owe_connection = sample_connection, owe_encoder = sample_env,
     owe_decoders = no_ws_decoders, owe_ws_auth = (\<lambda>m. m), owe_ws_query = (\<lambda>ti. ''?apikey=k'')\<rparr>"

theorem ws_answers_matched_witness:
  "\<exists>r. order_entry_ws_step sample_order_entry_ws_env (OW_Text sample_trace_info ''high'') OrderEntryWS_create
        = Normal () (OrderEntryWS_create\<lparr>trace := [] @ [Dispatch (U_RequestResponse r 3)]\<rparr>)
     \<and> rs_request_id r = ''1'' \<and> rs_request_status r = RequestStatus_REJECTED"
proof -
  let ?D = "owe_decoders sample_order_entry_ws_env"
  let ?a = "\<lparr>wa_id = ''1'', wa_order_id = ''x'', wa_client_oid = ''1''\<rparr>"
  have D: "?D = no_ws_decoders" by (simp add: sample_order_entry_ws_env_def)
  have dec: "dec_ws_message ?D ''high'' = Inr \<lparr>wm_session_id = [], wm_ping_interval_ms = 0, wm_code = 330008, wm_op = WSOp_ADD_ORDER_ACK\<rparr>"
    "dec_ws_error ?D ''high'' = Inr \<lparr>we_code = 330008, we_msg = ''too high'', we_id = ''1'', we_op = WSOp_ADD_ORDER_ACK\<rparr>"
    "dec_ws_add_order_ack ?D ''high'' = Inr ?a" "dec_ws_cancel_order_ack ?D ''high'' = Inr ?a"
    unfolding D by (simp_all add: no_ws_decoders_def)
  from ws_answers_matched [OF dec(1) _ _ dec(2) _ _ dec(3) _ dec(4), of "''1''" sample_trace_info OrderEntryWS_create]
  show ?thesis by (auto simp: CODE_SUCCESS_def OrderEntryWS_create_def sample_order_entry_ws_env_def)
qed

text \<open>
  C34. Logging in over the websocket: a text that carries a session but no ping interval is a
  challenge, and is answered with the signature of exactly that text, once, and the status
  LOGIN_SENT; an error of no operation with an authentication code closes the connection if logon
  is to be retried, and ends the process if not; other errors of no operation do nothing.
\<close>

theorem ws_login:
  assumes "dec_ws_message (owe_decoders E) m = Inr w"
  shows "(if wm_session_id w \<noteq> [] \<and> wm_ping_interval_ms w = 0 \<and> dec_ws_auth (owe_decoders E) m = Inr () then
       \<exists>ss t. order_entry_ws_step E (OW_Text ti m) s = Normal () t
         \<and> trace t = trace s @ [SendText (owe_ws_auth E m), Dispatch (U_StreamStatus ss)]
         \<and> ss_connection_status ss = ConnectionStatus_LOGIN_SENT \<and> ow_connection_status t = ConnectionStatus_LOGIN_SENT
     else if wm_session_id w = [] \<and> wm_op w = WSOp_UNDEFINED_INTERNAL \<and> dec_ws_error (owe_decoders E) m = Inr e
       \<and> we_op e = WSOp_UNDEFINED_INTERNAL then
       order_entry_ws_step E (OW_Text ti m) s =
         (if is_auth_error (we_code e) then
            if set_retry_logon (owe_settings E) then Normal () (s\<lparr>trace := trace s @ [ConnClose]\<rparr>) else Fatal ''error'' s
          else Normal () s)
     else True)"
  using assms
  by (simp add: order_entry_ws_step_def ow_parse_def ws_parser_dispatch_def dispatch_helper_def ow_handle_def ow_auth_def
    ow_error_def ow_report_run exec_simps)

theorem ws_login_witness:
  "order_entry_ws_step (sample_order_entry_ws_env\<lparr>owe_decoders := no_ws_decoders
      \<lparr>dec_ws_message := (\<lambda>_. Inr \<lparr>wm_session_id = [], wm_ping_interval_ms = 0, wm_code = 400003, wm_op = WSOp_UNDEFINED_INTERNAL\<rparr>),
       dec_ws_error := (\<lambda>_. Inr \<lparr>we_code = 400003, we_msg = [], we_id = [], we_op = WSOp_UNDEFINED_INTERNAL\<rparr>)\<rparr>\<rparr>)
      (OW_Text sample_trace_info ''denied'') OrderEntryWS_create = Fatal ''error'' OrderEntryWS_create"
proof -
  let ?E = "sample_order_entry_ws_env\<lparr>owe_decoders := no_ws_decoders
      \<lparr>dec_ws_message := (\<lambda>_. Inr \<lparr>wm_session_id = [], wm_ping_interval_ms = 0, wm_code = 400003, wm_op = WSOp_UNDEFINED_INTERNAL\<rparr>),
       dec_ws_error := (\<lambda>_. Inr \<lparr>we_code = 400003, we_msg = [], we_id = [], we_op = WSOp_UNDEFINED_INTERNAL\<rparr>)\<rparr>\<rparr>"
  have "dec_ws_message (owe_decoders ?E) ''denied'' = Inr \<lparr>wm_session_id = [], wm_ping_interval_ms = 0, wm_code = 400003,
      wm_op = WSOp_UNDEFINED_INTERNAL\<rparr>" by simp
  from ws_login [OF this, where e = "\<lparr>we_code = 400003, we_msg = [], we_id = [], we_op = WSOp_UNDEFINED_INTERNAL\<rparr>"]
  show ?thesis by (simp add: is_auth_error_def sample_order_entry_ws_env_def sample_settings_def)
qed

theorem ws_session_ready_means_welcomed_witness:
  "published (trace (run_events (order_entry_ws_step (sample_order_entry_ws_env\<lparr>owe_decoders := no_ws_decoders
      \<lparr>dec_ws_message := (\<lambda>_. Inr \<lparr>wm_session_id = ''s1'', wm_ping_interval_ms = 18000, wm_code = 0, wm_op = WSOp_UNDEFINED_INTERNAL\<rparr>)\<rparr>\<rparr>))
      [OW_Text sample_trace_info ''welcome''] OrderEntryWS_create)) = ConnectionStatus_READY
   \<and> ow_welcome (run_events (order_entry_ws_step (sample_order_entry_ws_env\<lparr>owe_decoders := no_ws_decoders
      \<lparr>dec_ws_message := (\<lambda>_. Inr \<lparr>wm_session_id = ''s1'', wm_ping_interval_ms = 18000, wm_code = 0, wm_op = WSOp_UNDEFINED_INTERNAL\<rparr>)\<rparr>\<rparr>))
      [OW_Text sample_trace_info ''welcome''] OrderEntryWS_create)"
proof -
  let ?E = "sample_order_entry_ws_env\<lparr>owe_decoders := no_ws_decoders
      \<lparr>dec_ws_message := (\<lambda>_. Inr \<lparr>wm_session_id = ''s1'', wm_ping_interval_ms = 18000, wm_code = 0, wm_op = WSOp_UNDEFINED_INTERNAL\<rparr>)\<rparr>\<rparr>"
  let ?s = "run_events (order_entry_ws_step ?E) [OW_Text sample_trace_info ''welcome''] OrderEntryWS_create"
  have "published (trace ?s) = ConnectionStatus_READY"
    by (simp add: order_entry_ws_step_def ow_parse_def ws_parser_dispatch_def dispatch_helper_def ow_handle_def
      ow_welcome_message_def ow_report_run OrderEntryWS_create_def no_ws_decoders_def published_def exec_simps)
  with ws_session_ready_means_welcomed [of ?E "[OW_Text sample_trace_info ''welcome'']"] show ?thesis
    unfolding Let_def by blast
qed

fun is_create_or_cancel :: "order_action \<Rightarrow> bool" where
  "is_create_or_cancel (CreateOrder info co rf request_id) = True"
| "is_create_or_cancel (CancelOrder info xo order request_id) = True"
| "is_create_or_cancel _ = False"

fun has_order_type :: "order_action \<Rightarrow> bool" where
  "has_order_type (CreateOrder info co rf request_id) = (co_order_type co \<noteq> OrderType_UNDEFINED)"
| "has_order_type _ = True"



end
