(* ===== verification/Controller.thy ===== *)
theory Controller
  imports Drop_Copy Market_Data Rest_Stream Order_Requests Order_Entry_WS
begin

text \<open>
  \<open>gateway/controller.cpp\<close>: the object that owns the streams. It numbers and creates them, sends
  the server's events to all of them, routes order actions to the stream of the account, and reacts
  to what the streams tell it: a public token (the address of the public websocket), new symbols
  (create the market data streams they need and subscribe), a private token (create the account's
  drop copy, or give it the new token).

  The streams are the models of the other theories, and an event of the gateway runs them. A stream
  that notifies the controller in the middle of a handler is modelled by a notification at the end
  of the handler. The set of symbols is kept with the REST stream that fills it; the stale
  orders, shared by the two streams of an account, are kept here and lent to each of them for the
  time of a handler. The table of symbols (\<open>core::Symbols\<close>) and the connections are external.
\<close>

subsection \<open>Running a component\<close>

definition zoom :: "'c \<Rightarrow> ('c \<Rightarrow> 's \<Rightarrow> 's) \<Rightarrow> ('c, 'e, 'a) stmt \<Rightarrow> ('s, 'e, 'a) stmt" where
  "zoom c put m = (\<lambda>s. case m c of
     Normal a c' \<Rightarrow> Normal a (put c' s)
   | Thrown e c' \<Rightarrow> Thrown e (put c' s)
   | Fatal msg c' \<Rightarrow> Fatal msg (put c' s))"

lemma final_state_zoom: "final_state (zoom c put m s) = put (final_state (m c)) s"
  by (cases "m c") (simp_all add: zoom_def)

subsection \<open>State\<close>

record controller = ctx +
  gc_accounts :: "string list"
  gc_details :: "string \<Rightarrow> (8 word \<times> 64 word) list"
  gc_stream_id :: "16 word"
  gc_rest :: "rest_env \<times> rest"
  gc_order_entry_rest :: "string \<rightharpoonup> order_entry_env \<times> order_entry"
  gc_order_entry_ws :: "string \<rightharpoonup> order_entry_ws_env \<times> order_entry_ws"
  gc_drop_copy :: "string \<rightharpoonup> drop_copy_env \<times> drop_copy"
  gc_market_data :: "(market_data_env \<times> market_data) list"
  gc_public_ws_uri :: string
  gc_public_ws_query :: string
  gc_public_ws_ping_frequency :: int

text \<open>
  The external objects of each stream, and what the public websocket's ping frequency holds before
  anything is assigned to it: the member has no initialiser.
\<close>

record controller_env =
  ge_settings :: settings
  ge_rest :: rest_env
  ge_order_entry_rest :: "string \<Rightarrow> order_entry_env"
  ge_order_entry_ws :: "string \<Rightarrow> order_entry_ws_env"
  ge_drop_copy :: "string \<Rightarrow> string \<Rightarrow> drop_copy_env"
  ge_market_data :: "string \<Rightarrow> string \<Rightarrow> market_data_env"
  ge_symbols :: "string list \<Rightarrow> effect list \<Rightarrow> nat \<times> nat"
  ge_ping_frequency_uninitialised :: int

type_synonym gc_stmt = "(controller, exn, unit) stmt"

definition rest_stream :: "controller_env \<Rightarrow> 16 word \<Rightarrow> rest_env" where
  "rest_stream G stream_id = (ge_rest G)\<lparr>ree_stream_id := stream_id, ree_settings := ge_settings G\<rparr>"

definition order_entry_rest_stream :: "controller_env \<Rightarrow> 16 word \<Rightarrow> string \<Rightarrow> order_entry_env" where
  "order_entry_rest_stream G stream_id account = (ge_order_entry_rest G account)
     \<lparr>oee_stream_id := stream_id, oee_account_name := account, oee_settings := ge_settings G\<rparr>"

definition order_entry_ws_stream :: "controller_env \<Rightarrow> 16 word \<Rightarrow> string \<Rightarrow> order_entry_ws_env" where
  "order_entry_ws_stream G stream_id account = (ge_order_entry_ws G account)
     \<lparr>owe_stream_id := stream_id, owe_account_name := account, owe_settings := ge_settings G\<rparr>"

definition drop_copy_stream :: "controller_env \<Rightarrow> 16 word \<Rightarrow> string \<Rightarrow> string \<Rightarrow> int \<Rightarrow> drop_copy_env" where
  "drop_copy_stream G stream_id account uri ping_frequency = (ge_drop_copy G account uri)
     \<lparr>dce_stream_id := stream_id, dce_account_name := account, dce_settings := ge_settings G,
      dce_ping_frequency := ping_frequency\<rparr>"

definition market_data_stream ::
    "controller_env \<Rightarrow> 16 word \<Rightarrow> nat \<Rightarrow> string \<Rightarrow> string \<Rightarrow> int \<Rightarrow> market_data_env" where
  "market_data_stream G stream_id index uri query ping_frequency = (ge_market_data G uri query)
     \<lparr>mde_stream_id := stream_id, mde_index := index, mde_settings := ge_settings G,
      mde_ping_frequency := ping_frequency\<rparr>"

subsection \<open>Creation\<close>

text \<open>\<open>try_emplace\<close>: an account that is already there keeps its stream (the id is used up all the same).\<close>

primrec create_order_entry_rest ::
    "controller_env \<Rightarrow> string list \<Rightarrow> 16 word \<times> (string \<rightharpoonup> order_entry_env \<times> order_entry)
       \<Rightarrow> 16 word \<times> (string \<rightharpoonup> order_entry_env \<times> order_entry)" where
  "create_order_entry_rest G [] r = r"
| "create_order_entry_rest G (account # accounts) r = create_order_entry_rest G accounts
     (let stream_id = fst r + 1; streams = snd r in
       (stream_id, if account \<in> dom streams then streams
          else streams(account \<mapsto> (order_entry_rest_stream G stream_id account, OrderEntryREST_create))))"

primrec create_order_entry_ws_loop ::
    "controller_env \<Rightarrow> string list \<Rightarrow> 16 word \<times> (string \<rightharpoonup> order_entry_ws_env \<times> order_entry_ws)
       \<Rightarrow> 16 word \<times> (string \<rightharpoonup> order_entry_ws_env \<times> order_entry_ws)" where
  "create_order_entry_ws_loop G [] r = r"
| "create_order_entry_ws_loop G (account # accounts) r = create_order_entry_ws_loop G accounts
     (let stream_id = fst r + 1; streams = snd r in
       (stream_id, if account \<in> dom streams then streams
          else streams(account \<mapsto> (order_entry_ws_stream G stream_id account, OrderEntryWS_create))))"

definition create_order_entry_ws ::
    "controller_env \<Rightarrow> string list \<Rightarrow> 16 word \<Rightarrow> 16 word \<times> (string \<rightharpoonup> order_entry_ws_env \<times> order_entry_ws)" where
  "create_order_entry_ws G accounts stream_id =
     (if set_ws_api (ge_settings G) \<and> set_ws_uri (ge_settings G) \<noteq> []
      then create_order_entry_ws_loop G accounts (stream_id, Map.empty) else (stream_id, Map.empty))"

definition Controller_create :: "controller_env \<Rightarrow> ('sy, 'us, 'rl) config \<Rightarrow> controller" where
  "Controller_create G config = (let
       accounts = map fst (cfg_accounts config);
       stream_id = 0 + 1;
       rest = (rest_stream G stream_id, Rest_create);
       (stream_id, order_entry_rest) = create_order_entry_rest G accounts (stream_id, Map.empty);
       (stream_id, order_entry_ws) = create_order_entry_ws G accounts stream_id
     in \<lparr>trace = [], gc_accounts = accounts, gc_details = (\<lambda>account. []), gc_stream_id = stream_id,
         gc_rest = rest, gc_order_entry_rest = order_entry_rest, gc_order_entry_ws = order_entry_ws,
         gc_drop_copy = Map.empty, gc_market_data = [], gc_public_ws_uri = [], gc_public_ws_query = [],
         gc_public_ws_ping_frequency = ge_ping_frequency_uninitialised G\<rparr>)"

definition parse_api :: "settings \<Rightarrow> 8 word" where
  "parse_api settings = 0"

subsection \<open>Events for the streams\<close>

text \<open>
  A component runs where it is kept. The two streams of an account find the account's stale orders
  in their own state while they run; after that, the field is as before and the orders are here.
\<close>

definition put_rest :: "rest_env \<Rightarrow> rest \<Rightarrow> controller \<Rightarrow> controller" where
  "put_rest E c s = s\<lparr>gc_rest := (E, c)\<rparr>"

definition put_order_entry_ws :: "string \<Rightarrow> order_entry_ws_env \<Rightarrow> order_entry_ws \<Rightarrow> controller \<Rightarrow> controller" where
  "put_order_entry_ws account E c s = s\<lparr>gc_order_entry_ws := (gc_order_entry_ws s)(account \<mapsto> (E, c))\<rparr>"

definition put_market_data :: "nat \<Rightarrow> market_data_env \<Rightarrow> market_data \<Rightarrow> controller \<Rightarrow> controller" where
  "put_market_data i E c s = s\<lparr>gc_market_data := (gc_market_data s)[i := (E, c)]\<rparr>"

definition lend :: "string \<Rightarrow> controller \<Rightarrow> 'z request_ctx_scheme \<Rightarrow> 'z request_ctx_scheme" where
  "lend account s c = c\<lparr>details_stale_orders := gc_details s account\<rparr>"

definition put_drop_copy :: "string \<Rightarrow> drop_copy_env \<Rightarrow> drop_copy \<Rightarrow> drop_copy \<Rightarrow> controller \<Rightarrow> controller" where
  "put_drop_copy account E c c' s = s\<lparr>gc_drop_copy := (gc_drop_copy s)
       (account \<mapsto> (E, c'\<lparr>details_stale_orders := details_stale_orders c\<rparr>)),
     gc_details := (gc_details s)(account := details_stale_orders c')\<rparr>"

definition put_order_entry_rest ::
    "string \<Rightarrow> order_entry_env \<Rightarrow> order_entry \<Rightarrow> order_entry \<Rightarrow> controller \<Rightarrow> controller" where
  "put_order_entry_rest account E c c' s = s\<lparr>gc_order_entry_rest := (gc_order_entry_rest s)
       (account \<mapsto> (E, c'\<lparr>details_stale_orders := details_stale_orders c\<rparr>)),
     gc_details := (gc_details s)(account := details_stale_orders c')\<rparr>"

definition on_order_entry_ws :: "string \<Rightarrow> (order_entry_ws_env \<Rightarrow> (order_entry_ws, exn, 'a) stmt)
    \<Rightarrow> (controller, exn, 'a) stmt \<Rightarrow> (controller, exn, 'a) stmt" where
  "on_order_entry_ws account m absent = reading (\<lambda>s. gc_order_entry_ws s account) (\<lambda>found. case found of
     None \<Rightarrow> absent
   | Some (E, c) \<Rightarrow> zoom c (put_order_entry_ws account E) (m E))"

definition on_drop_copy :: "string \<Rightarrow> (drop_copy_env \<Rightarrow> dc_stmt) \<Rightarrow> gc_stmt \<Rightarrow> gc_stmt" where
  "on_drop_copy account m absent = reading id (\<lambda>s. case gc_drop_copy s account of
     None \<Rightarrow> absent
   | Some (E, c) \<Rightarrow> zoom (lend account s c) (put_drop_copy account E c) (m E))"

definition on_market_data :: "nat \<Rightarrow> (market_data_env \<Rightarrow> md_stmt) \<Rightarrow> gc_stmt" where
  "on_market_data i m = reading gc_market_data (\<lambda>streams. if i < length streams
     then (case streams ! i of (E, c) \<Rightarrow> zoom c (put_market_data i E) (m E))
     else skip)"

definition all_market_data :: "(market_data_env \<Rightarrow> md_stmt) \<Rightarrow> gc_stmt" where
  "all_market_data m = reading (\<lambda>s. length (gc_market_data s)) (\<lambda>n. for_each [0..<n] (\<lambda>i. on_market_data i m))"

subsection \<open>Market data streams\<close>

text \<open>The body of the loop of \<open>ensure_symbol_slices\<close>: the next stream, started.\<close>

definition create_slice :: "controller_env \<Rightarrow> gc_stmt" where
  "create_slice G = block
     [modify (\<lambda>s. s\<lparr>gc_stream_id := gc_stream_id s + 1\<rparr>),
      reading id (\<lambda>s. let
          E = market_data_stream G (gc_stream_id s) (length (gc_market_data s)) (gc_public_ws_uri s)
            (gc_public_ws_query s) (gc_public_ws_ping_frequency s)
        in case MarketData_create E of
          None \<Rightarrow> fatal ''Unexpected: ping_frequency''
        | Some c \<Rightarrow> zoom c (\<lambda>c s. s\<lparr>gc_market_data := gc_market_data s @ [(E, c)]\<rparr>) (market_data_step E MD_Start))]"

lemma create_slice_run:
  "create_slice G s = (let
       t = s\<lparr>gc_stream_id := gc_stream_id s + 1\<rparr>;
       E = market_data_stream G (gc_stream_id t) (length (gc_market_data t)) (gc_public_ws_uri t)
            (gc_public_ws_query t) (gc_public_ws_ping_frequency t)
     in case MarketData_create E of
          None \<Rightarrow> Fatal ''Unexpected: ping_frequency'' t
        | Some c \<Rightarrow> Normal () (t\<lparr>gc_market_data := gc_market_data t @ [(E, c\<lparr>trace := trace c @ [ConnStart]\<rparr>)]\<rparr>))"
  by (simp add: create_slice_def market_data_step_def zoom_def exec_simps Let_def split: option.splits)

lemma create_slice_grows:
  "create_slice G s = Normal u t \<Longrightarrow> length (gc_market_data t) = Suc (length (gc_market_data s))"
  by (auto simp: create_slice_run Let_def split: option.splits)

function ensure_symbol_slices :: "controller_env \<Rightarrow> nat \<Rightarrow> gc_stmt" where
  "ensure_symbol_slices G n s = (if length (gc_market_data s) < n
     then (case create_slice G s of
         Normal u t \<Rightarrow> ensure_symbol_slices G n t
       | Thrown e t \<Rightarrow> Thrown e t
       | Fatal msg t \<Rightarrow> Fatal msg t)
     else Normal () s)"
  by auto

termination
  by (relation "measure (\<lambda>(G, n, s). n - length (gc_market_data s))") (auto dest: create_slice_grows)

declare ensure_symbol_slices.simps [simp del]

definition on_symbols_update :: "controller_env \<Rightarrow> string list \<Rightarrow> gc_stmt" where
  "on_symbols_update G symbols = ask ''symbols'' (ge_symbols G symbols) (\<lambda>(n, start_from). block
     [ensure_symbol_slices G n,
      all_market_data (\<lambda>E. market_data_step E (MD_Subscribe start_from))])"

subsection \<open>Notifications\<close>

definition on_public_token :: "string \<Rightarrow> string \<Rightarrow> int \<Rightarrow> gc_stmt" where
  "on_public_token uri query ping_frequency = modify (\<lambda>s. s\<lparr>gc_public_ws_uri := uri, gc_public_ws_query := query,
     gc_public_ws_ping_frequency := ping_frequency\<rparr>)"

text \<open>The first token of an account creates its drop copy; the stale orders of the account are its own.\<close>

definition create_drop_copy :: "controller_env \<Rightarrow> string \<Rightarrow> string \<Rightarrow> string \<Rightarrow> int \<Rightarrow> gc_stmt" where
  "create_drop_copy G account uri query ping_frequency = block
     [modify (\<lambda>s. s\<lparr>gc_stream_id := gc_stream_id s + 1\<rparr>),
      reading gc_stream_id (\<lambda>stream_id. let
          E = drop_copy_stream G stream_id account uri ping_frequency
        in zoom (DropCopy_create E query) (\<lambda>c s. s\<lparr>gc_drop_copy := (gc_drop_copy s)(account \<mapsto> (E, c))\<rparr>)
             (drop_copy_step E DC_Start))]"

lemma create_drop_copy_run:
  "create_drop_copy G account uri query f s = (let
       E = drop_copy_stream G (gc_stream_id s + 1) account uri f; c = DropCopy_create E query
     in Normal () (s\<lparr>gc_stream_id := gc_stream_id s + 1,
          gc_drop_copy := (gc_drop_copy s)(account \<mapsto> (E, c\<lparr>trace := trace c @ [ConnStart]\<rparr>))\<rparr>))"
  by (simp add: create_drop_copy_def drop_copy_step_def zoom_def exec_simps Let_def)

definition on_private_token :: "controller_env \<Rightarrow> string \<Rightarrow> string \<Rightarrow> string \<Rightarrow> int \<Rightarrow> gc_stmt" where
  "on_private_token G account uri query ping_frequency = on_drop_copy account
     (\<lambda>E. drop_copy_step E (DC_PrivateToken query))
     (reading gc_accounts (\<lambda>accounts. if account \<notin> set accounts then fatal ''Unexpected''
        else create_drop_copy G account uri query ping_frequency))"

definition on_notification :: "controller_env \<Rightarrow> notification \<Rightarrow> gc_stmt" where
  "on_notification G n = (case n of
     PublicToken uri query ping_frequency \<Rightarrow> on_public_token uri query ping_frequency
   | SymbolsUpdate symbols \<Rightarrow> on_symbols_update G symbols
   | PrivateToken account uri query ping_frequency \<Rightarrow> on_private_token G account uri query ping_frequency)"

text \<open>
  A handler of a stream with trace \<open>tr\<close>, and then what it told the controller. An exception
  leaves after the notifications that preceded it.
\<close>

definition attempt :: "('s, exn, 'a) stmt \<Rightarrow> ('s, exn, exn + 'a) stmt" where
  "attempt m = try_catch (bindm m (\<lambda>a. ret (Inr a))) (\<lambda>e. ret (Inl e))"

definition relaying :: "controller_env \<Rightarrow> (controller \<Rightarrow> effect list) \<Rightarrow> (controller, exn, 'a) stmt \<Rightarrow> (controller, exn, 'a) stmt" where
  "relaying G tr m = reading tr (\<lambda>before. bindm (attempt m) (\<lambda>r.
     seqm (reading tr (\<lambda>after. for_each (seen notified_by (drop (length before) after)) (on_notification G)))
       (lift_sum r)))"

definition on_rest :: "controller_env \<Rightarrow> (rest_env \<Rightarrow> (rest, exn, 'a) stmt) \<Rightarrow> (controller, exn, 'a) stmt" where
  "on_rest G m = relaying G (\<lambda>s. trace (snd (gc_rest s))) (reading gc_rest (\<lambda>(E, c).
     zoom c (put_rest E) (m E)))"

definition on_order_entry_rest :: "controller_env \<Rightarrow> string \<Rightarrow> (order_entry_env \<Rightarrow> (order_entry, exn, 'a) stmt)
    \<Rightarrow> (controller, exn, 'a) stmt \<Rightarrow> (controller, exn, 'a) stmt" where
  "on_order_entry_rest G account m absent = relaying G
     (\<lambda>s. case gc_order_entry_rest s account of None \<Rightarrow> [] | Some (E, c) \<Rightarrow> trace c)
     (reading id (\<lambda>s. case gc_order_entry_rest s account of
        None \<Rightarrow> absent
      | Some (E, c) \<Rightarrow> zoom (lend account s c) (put_order_entry_rest account E c) (m E)))"

subsection \<open>Events\<close>

text \<open>\<open>dispatch_helper\<close>: an event for every stream there is, in this order.\<close>

definition gc_dispatch :: "controller_env \<Rightarrow> rest_event \<Rightarrow> order_entry_event \<Rightarrow> order_entry_ws_event
    \<Rightarrow> drop_copy_event \<Rightarrow> market_data_event \<Rightarrow> gc_stmt" where
  "gc_dispatch G re oe ow dc md = reading gc_accounts (\<lambda>accounts. block
     [on_rest G (\<lambda>E. rest_step E re),
      for_each accounts (\<lambda>account. on_order_entry_rest G account (\<lambda>E. order_entry_step E oe) skip),
      for_each accounts (\<lambda>account. on_order_entry_ws account (\<lambda>E. order_entry_ws_step E ow) skip),
      for_each accounts (\<lambda>account. on_drop_copy account (\<lambda>E. drop_copy_step E dc) skip),
      all_market_data (\<lambda>E. market_data_step E md)])"

text \<open>The loop over the symbols of a subscription, with the list it fills.\<close>

primrec subscribe_loop :: "controller_env \<Rightarrow> string list \<Rightarrow> string list \<Rightarrow> (controller, exn, string list) stmt" where
  "subscribe_loop G [] symbols = ret symbols"
| "subscribe_loop G (item # items) symbols = reading (\<lambda>s. re_all_symbols (snd (gc_rest s))) (\<lambda>all_symbols.
     if item \<in> all_symbols then subscribe_loop G items symbols
     else seqm (on_rest G (\<lambda>E. rest_step E (RE_Subscribed [item]))) (subscribe_loop G items (symbols @ [item])))"

definition gc_subscribe :: "controller_env \<Rightarrow> string list \<Rightarrow> gc_stmt" where
  "gc_subscribe G items = bindm (subscribe_loop G items []) (on_symbols_update G)"

datatype control_action = Action_UNDEFINED | Action_ENABLE | Action_DISABLE

definition gc_control :: "control_action \<Rightarrow> gc_stmt" where
  "gc_control action = (case action of
     Action_UNDEFINED \<Rightarrow> fatal ''assert''
   | Action_ENABLE \<Rightarrow> emit (DispatcherEnabled True)
   | Action_DISABLE \<Rightarrow> emit (DispatcherEnabled False))"

subsection \<open>Order actions\<close>

definition unknown_account :: "string \<Rightarrow> exn" where
  \<open>unknown_account account = RuntimeError (''Unknown account="'' @ account @ ''"'')\<close>

definition get_order_entry_rest :: "controller_env \<Rightarrow> string \<Rightarrow> order_action \<Rightarrow> (controller, exn, 16 word) stmt" where
  "get_order_entry_rest G account a =
     on_order_entry_rest G account (\<lambda>E. oe_action E a) (throw (unknown_account account))"

definition get_order_entry_ws :: "string \<Rightarrow> order_action \<Rightarrow> (controller, exn, 16 word) stmt" where
  "get_order_entry_ws account a = on_order_entry_ws account (\<lambda>E. ow_action E a) (throw (unknown_account account))"

definition get_order_entry :: "controller_env \<Rightarrow> string \<Rightarrow> order_action \<Rightarrow> (controller, exn, 16 word) stmt" where
  "get_order_entry G account a =
     (if set_ws_api (ge_settings G) then get_order_entry_ws account a else get_order_entry_rest G account a)"

datatype order_request =
    Do_CreateOrder message_info create_order ref_data string
  | Do_ModifyOrder string oms_order
  | Do_CancelOrder message_info cancel_order oms_order string
  | Do_CancelAllOrders message_info cancel_all_orders string
  | Do_MassQuote
  | Do_CancelQuotes

definition gc_order :: "controller_env \<Rightarrow> order_request \<Rightarrow> (controller, exn, 16 word) stmt" where
  "gc_order G r = (case r of
     Do_CreateOrder info co rf request_id \<Rightarrow> seqm (assert_that (co_account co \<noteq> []))
       (get_order_entry G (co_account co) (CreateOrder info co rf request_id))
   | Do_ModifyOrder account order \<Rightarrow> seqm (block [assert_that (account \<noteq> []), assert_that (account = or_account order)])
       (get_order_entry G account ModifyOrder)
   | Do_CancelOrder info xo order request_id \<Rightarrow>
       seqm (block [assert_that (xo_account xo \<noteq> []), assert_that (xo_account xo = or_account order)])
         (get_order_entry G (xo_account xo) (CancelOrder info xo order request_id))
   | Do_CancelAllOrders info xa request_id \<Rightarrow> seqm (assert_that (xa_account xa \<noteq> []))
       (get_order_entry_rest G (xa_account xa) (CancelAllOrders info xa request_id))
   | Do_MassQuote \<Rightarrow> throw (OmsException NotSupported ''not supported'')
   | Do_CancelQuotes \<Rightarrow> throw (OmsException NotSupported ''not supported''))"

subsection \<open>The gateway\<close>

text \<open>
  Of a stream's own events are those of its connection and its requests. The others reach it
  through the controller, or, for the stale orders, through what the streams share.
\<close>

fun rest_own :: "rest_event \<Rightarrow> bool" where
  "rest_own RE_Start = False"
| "rest_own RE_Stop = False"
| "rest_own (RE_Timer ti) = False"
| "rest_own (RE_Subscribed symbols) = False"
| "rest_own _ = True"

fun order_entry_rest_own :: "order_entry_event \<Rightarrow> bool" where
  "order_entry_rest_own OE_Start = False"
| "order_entry_rest_own OE_Stop = False"
| "order_entry_rest_own (OE_Timer ti) = False"
| "order_entry_rest_own (OE_Action a) = False"
| "order_entry_rest_own (OE_StaleOrders keys) = False"
| "order_entry_rest_own _ = True"

fun order_entry_ws_own :: "order_entry_ws_event \<Rightarrow> bool" where
  "order_entry_ws_own OW_Start = False"
| "order_entry_ws_own OW_Stop = False"
| "order_entry_ws_own (OW_Timer ti now) = False"
| "order_entry_ws_own (OW_Action a) = False"
| "order_entry_ws_own _ = True"

fun drop_copy_own :: "drop_copy_event \<Rightarrow> bool" where
  "drop_copy_own DC_Start = False"
| "drop_copy_own DC_Stop = False"
| "drop_copy_own (DC_Timer ti now) = False"
| "drop_copy_own (DC_PrivateToken query) = False"
| "drop_copy_own _ = True"

fun market_data_own :: "market_data_event \<Rightarrow> bool" where
  "market_data_own MD_Start = False"
| "market_data_own MD_Stop = False"
| "market_data_own (MD_Timer ti now) = False"
| "market_data_own (MD_Subscribe start_from) = False"
| "market_data_own _ = True"

datatype controller_event =
    GC_Start | GC_Stop | GC_Timer trace_info int
  | GC_Connected | GC_Disconnected
  | GC_Subscribe "string list"
  | GC_Control control_action
  | GC_Order order_request
  | GC_Rest rest_event
  | GC_OrderEntryREST string order_entry_event
  | GC_OrderEntryWS string order_entry_ws_event
  | GC_DropCopy string drop_copy_event
  | GC_MarketData nat market_data_event

definition gc_start :: "controller_env \<Rightarrow> gc_stmt" where
  "gc_start G = block
     [reading gc_market_data (\<lambda>market_data. assert_that (market_data = [])),
      gc_dispatch G RE_Start OE_Start OW_Start DC_Start MD_Start]"

definition gc_stop :: "controller_env \<Rightarrow> gc_stmt" where
  "gc_stop G = gc_dispatch G RE_Stop OE_Stop OW_Stop DC_Stop MD_Stop"

definition gc_timer :: "controller_env \<Rightarrow> trace_info \<Rightarrow> int \<Rightarrow> gc_stmt" where
  "gc_timer G ti now = gc_dispatch G (RE_Timer ti) (OE_Timer ti) (OW_Timer ti now) (DC_Timer ti now) (MD_Timer ti now)"

definition controller_step :: "controller_env \<Rightarrow> controller_event \<Rightarrow> gc_stmt" where
  "controller_step G e = (case e of
     GC_Start \<Rightarrow> gc_start G
   | GC_Stop \<Rightarrow> gc_stop G
   | GC_Timer ti now \<Rightarrow> gc_timer G ti now
   | GC_Connected \<Rightarrow> skip
   | GC_Disconnected \<Rightarrow> skip
   | GC_Subscribe symbols \<Rightarrow> gc_subscribe G symbols
   | GC_Control action \<Rightarrow> gc_control action
   | GC_Order r \<Rightarrow> bindm (gc_order G r) (\<lambda>stream_id. skip)
   | GC_Rest e \<Rightarrow> if rest_own e then on_rest G (\<lambda>E. rest_step E e) else skip
   | GC_OrderEntryREST account e \<Rightarrow> if order_entry_rest_own e
       then on_order_entry_rest G account (\<lambda>E. order_entry_step E e) skip else skip
   | GC_OrderEntryWS account e \<Rightarrow> if order_entry_ws_own e
       then on_order_entry_ws account (\<lambda>E. order_entry_ws_step E e) skip else skip
   | GC_DropCopy account e \<Rightarrow> if drop_copy_own e then on_drop_copy account (\<lambda>E. drop_copy_step E e) skip else skip
   | GC_MarketData i e \<Rightarrow> if market_data_own e then on_market_data i (\<lambda>E. market_data_step E e) else skip)"

subsection \<open>Concrete parameters\<close>

definition sample_controller_env :: controller_env where
  "sample_controller_env = \<lparr>ge_settings = sample_settings, ge_rest = sample_rest_env,
     ge_order_entry_rest = (\<lambda>account. sample_order_entry_env),
     ge_order_entry_ws = (\<lambda>account. sample_order_entry_ws_env),
     ge_drop_copy = (\<lambda>account uri. sample_drop_copy_env),
     ge_market_data = (\<lambda>uri query. sample_market_data_env),
     ge_symbols = (\<lambda>symbols tr. (2, 0)), ge_ping_frequency_uninitialised = 0\<rparr>"

definition sample_config :: "(unit, unit, unit) config" where
  "sample_config = \<lparr>cfg_exchange = ''kucoin-futures'', cfg_gateway_settings = create_gateway_settings sample_settings,
     cfg_users = [()], cfg_symbols = (),
     cfg_accounts = [(''A1'', \<lparr>ac_name = ''A1'', ac_master = True, ac_login = ''k1'', ac_password = ''p1'', ac_secret = ''s1''\<rparr>)],
     cfg_master_account = ''A1'', cfg_rate_limits = []\<rparr>"

lemma sample_config_loads: "Config_create sample_settings () sample_entries = Normal () sample_config"
  by (simp add: Config_create_def sample_entries_def config_handle_def sample_config_def emplace_def exec_simps
    sample_settings_def)

end
