(* ===== verification/Gateway.thy ===== *)
theory Gateway
  imports Controller
begin

text \<open>
  The gateway as a whole: the states it can reach, and what they all satisfy. The interface
  \<open>gateway_invariant\<close> asks of an invariant only that it survives a step of one component, a new
  component and a new public token; its consequence is that the invariant survives every event of
  the gateway. \<open>streams_invariant\<close>, built on it, is the contract between the streams and the
  controller that runs them: what every stream keeps, the gateway keeps.
\<close>

subsection \<open>Surviving a statement\<close>

text \<open>An invariant need not hold where the process ends.\<close>

definition survives :: "('s \<Rightarrow> bool) \<Rightarrow> ('s, 'e, 'a) stmt \<Rightarrow> bool" where
  "survives I m \<longleftrightarrow> (\<forall>s. I s \<longrightarrow> \<not> is_fatal (m s) \<longrightarrow> I (final_state (m s)))"

lemma survivesI: "(\<And>s. I s \<Longrightarrow> \<not> is_fatal (m s) \<Longrightarrow> I (final_state (m s))) \<Longrightarrow> survives I m"
  by (simp add: survives_def)

lemma survivesD: "survives I m \<Longrightarrow> I s \<Longrightarrow> \<not> is_fatal (m s) \<Longrightarrow> I (final_state (m s))"
  by (simp add: survives_def)

named_theorems survives_intros "rules that carry an invariant through a statement that may end the process"

lemma survives_keeps: "keeps I m \<Longrightarrow> survives I m"
  by (simp add: survives_def keeps_def)

lemma survives_leaf [survives_intros]:
  "survives I (ret a)" "survives I skip" "survives I (throw e)" "survives I (fatal msg)" "survives I (assert_that c)"
  "survives I (lift_sum r)"
  by (intro survives_keeps keeps_intros)+

lemma survives_bindm [survives_intros]:
  assumes "survives I m" and "\<And>a. survives I (f a)"
  shows "survives I (bindm m f)"
proof (rule survivesI)
  fix s assume "I s" and "\<not> is_fatal (bindm m f s)"
  with survivesD [OF assms(1), of s] survivesD [OF assms(2)] show "I (final_state (bindm m f s))"
    by (cases "m s") (auto simp: bindm_def)
qed

lemma survives_seqm [survives_intros]: "survives I m \<Longrightarrow> survives I n \<Longrightarrow> survives I (seqm m n)"
  unfolding seqm_def by (rule survives_bindm)

lemma survives_reading [survives_intros]: "(\<And>b. survives I (k b)) \<Longrightarrow> survives I (reading f k)"
  by (simp add: survives_def reading_def)

lemma survives_if [survives_intros]: "survives I m \<Longrightarrow> survives I n \<Longrightarrow> survives I (if c then m else n)"
  by simp

lemma survives_block: "(\<And>c. c \<in> set cs \<Longrightarrow> survives I c) \<Longrightarrow> survives I (block cs)"
  by (induction cs) (auto intro!: survives_intros)

lemma survives_for_each [survives_intros]:
  "(\<And>x. x \<in> set xs \<Longrightarrow> survives I (body x)) \<Longrightarrow> survives I (for_each xs body)"
  by (induction xs) (auto intro!: survives_intros)

lemma survives_try_catch [survives_intros]:
  assumes "survives I m" and "\<And>e. survives I (h e)"
  shows "survives I (try_catch m h)"
proof (rule survivesI)
  fix s assume "I s" and "\<not> is_fatal (try_catch m h s)"
  with survivesD [OF assms(1), of s] survivesD [OF assms(2)] show "I (final_state (try_catch m h s))"
    by (cases "m s") (auto simp: try_catch_def)
qed

lemma survives_modify: "(\<And>s. I s \<Longrightarrow> I (f s)) \<Longrightarrow> survives I (modify f)"
  by (intro survives_keeps keeps_modify)

lemma survives_relaying:
  assumes "survives I m" and "\<And>n. survives I (on_notification G n)"
  shows "survives I (relaying G tr m)"
  unfolding relaying_def attempt_def using assms by (intro survives_intros) auto

lemma survives_zoom:
  assumes "\<not> is_fatal (m c) \<Longrightarrow> I (put (final_state (m c)) s)" and "\<not> is_fatal (zoom c put m s)"
  shows "I (final_state (zoom c put m s))"
  using assms by (cases "m c") (auto simp: zoom_def)

subsection \<open>Reachable states\<close>

inductive gc_reach :: "controller_env \<Rightarrow> controller \<Rightarrow> controller \<Rightarrow> bool" for G s where
  gc_created: "gc_reach G s s"
| gc_event: "gc_reach G s t \<Longrightarrow> \<not> is_fatal (controller_step G e t) \<Longrightarrow> gc_reach G s (final_state (controller_step G e t))"

subsection \<open>Invariants of the gateway\<close>

text \<open>An order action is a step of its stream.\<close>

lemma final_state_bindm_skip: "final_state (bindm m (\<lambda>a. skip) s) = final_state (m s)"
  by (cases "m s") (simp_all add: bindm_def skip_def)

locale gateway_invariant =
  fixes G :: controller_env and I :: "controller \<Rightarrow> bool"
  assumes effect: "I s \<Longrightarrow> I (s\<lparr>trace := tr\<rparr>)"
    and token: "I s \<Longrightarrow> I (s\<lparr>gc_public_ws_uri := uri, gc_public_ws_query := query, gc_public_ws_ping_frequency := f\<rparr>)"
    and ran_rest: "I s \<Longrightarrow> gc_rest s = (E1, c1) \<Longrightarrow> I (put_rest E1 (final_state (rest_step E1 re c1)) s)"
    and ran_order_entry_rest: "I s \<Longrightarrow> gc_order_entry_rest s account = Some (E2, c2) \<Longrightarrow>
      I (put_order_entry_rest account E2 c2 (final_state (order_entry_step E2 oe (lend account s c2))) s)"
    and ran_order_entry_ws: "I s \<Longrightarrow> gc_order_entry_ws s account = Some (E3, c3) \<Longrightarrow>
      I (put_order_entry_ws account E3 (final_state (order_entry_ws_step E3 ow c3)) s)"
    and ran_drop_copy: "I s \<Longrightarrow> gc_drop_copy s account = Some (E4, c4) \<Longrightarrow>
      I (put_drop_copy account E4 c4 (final_state (drop_copy_step E4 dc (lend account s c4))) s)"
    and ran_market_data: "I s \<Longrightarrow> i < length (gc_market_data s) \<Longrightarrow> gc_market_data s ! i = (E5, c5) \<Longrightarrow>
      I (put_market_data i E5 (final_state (market_data_step E5 md c5)) s)"
    and new_slice: "I s \<Longrightarrow> create_slice G s = Normal () t \<Longrightarrow> I t"
    and new_drop_copy: "I s \<Longrightarrow> gc_drop_copy s account = None \<Longrightarrow> account \<in> set (gc_accounts s) \<Longrightarrow>
      create_drop_copy G account uri query f s = Normal () t \<Longrightarrow> I t"
begin

lemma survives_emit: "survives I (emit a)"
  unfolding emit_def by (intro survives_modify effect)

lemma survives_ask: "(\<And>b. survives I (k b)) \<Longrightarrow> survives I (ask name answer k)"
  unfolding ask_def by (intro survives_intros survives_emit)

lemma survives_market_data: "survives I (on_market_data i (\<lambda>E. market_data_step E md))"
proof (rule survivesI)
  fix s assume "I s" and "\<not> is_fatal (on_market_data i (\<lambda>E. market_data_step E md) s)"
  then show "I (final_state (on_market_data i (\<lambda>E. market_data_step E md) s))"
    using ran_market_data [of s i] by (auto simp: on_market_data_def reading_def skip_def final_state_zoom split: prod.split)
qed

lemma survives_all_market_data: "survives I (all_market_data (\<lambda>E. market_data_step E md))"
  unfolding all_market_data_def by (intro survives_intros survives_market_data)

lemma survives_order_entry_ws:
  "survives I absent \<Longrightarrow> survives I (on_order_entry_ws account (\<lambda>E. order_entry_ws_step E ow) absent)"
  unfolding survives_def
  by (auto simp: on_order_entry_ws_def reading_def final_state_zoom ran_order_entry_ws split: option.split prod.split)

lemma survives_drop_copy:
  "(\<And>s. I s \<Longrightarrow> gc_drop_copy s account = None \<Longrightarrow> \<not> is_fatal (absent s) \<Longrightarrow> I (final_state (absent s))) \<Longrightarrow>
     survives I (on_drop_copy account (\<lambda>E. drop_copy_step E dc) absent)"
  unfolding survives_def
  by (auto simp: on_drop_copy_def reading_def final_state_zoom ran_drop_copy split: option.split prod.split)

lemma survives_drop_copy_event: "survives I (on_drop_copy account (\<lambda>E. drop_copy_step E dc) skip)"
  by (rule survives_drop_copy) (simp add: skip_def)

lemma survives_ensure_symbol_slices: "survives I (ensure_symbol_slices G n)"
proof (rule survivesI)
  fix s assume "I s" and "\<not> is_fatal (ensure_symbol_slices G n s)"
  then show "I (final_state (ensure_symbol_slices G n s))"
  proof (induction "n - length (gc_market_data s)" arbitrary: s rule: less_induct)
    case less
    show ?case
    proof (cases "length (gc_market_data s) < n")
      case False
      with less.prems show ?thesis by (simp add: ensure_symbol_slices.simps)
    next
      case True
      show ?thesis
      proof (cases "create_slice G s")
        case (Normal u t)
        then have "I t" by (intro new_slice [OF less.prems(1)]) simp
        moreover from True create_slice_grows [OF Normal] have "n - length (gc_market_data t) < n - length (gc_market_data s)"
          by simp
        moreover have "ensure_symbol_slices G n s = ensure_symbol_slices G n t"
          using True Normal by (subst ensure_symbol_slices.simps) simp
        ultimately show ?thesis using less.hyps less.prems(2) by simp
      next
        case (Thrown e t)
        then show ?thesis by (auto simp: create_slice_run Let_def split: option.splits)
      next
        case (Fatal msg t)
        with True have "ensure_symbol_slices G n s = Fatal msg t"
          by (subst ensure_symbol_slices.simps) simp
        with less.prems(2) show ?thesis by simp
      qed
    qed
  qed
qed

lemma survives_symbols_update: "survives I (on_symbols_update G symbols)"
  unfolding on_symbols_update_def
  by (rule survives_ask)
    (auto intro!: survives_intros survives_block survives_ensure_symbol_slices survives_all_market_data)

lemma survives_private_token: "survives I (on_private_token G account uri query f)"
  unfolding on_private_token_def
proof (rule survives_drop_copy)
  fix s assume a: "I s" "gc_drop_copy s account = None"
    "\<not> is_fatal (reading gc_accounts (\<lambda>accounts. if account \<notin> set accounts then fatal ''Unexpected''
        else create_drop_copy G account uri query f) s)"
  then have known: "account \<in> set (gc_accounts s)" by (auto simp: reading_def fatal_def split: if_splits)
  obtain t where "create_drop_copy G account uri query f s = Normal () t"
    by (simp add: create_drop_copy_def Let_def drop_copy_step_def zoom_def exec_simps)
  with new_drop_copy [OF a(1,2) known] known
  show "I (final_state (reading gc_accounts (\<lambda>accounts. if account \<notin> set accounts then fatal ''Unexpected''
        else create_drop_copy G account uri query f) s))"
    by (simp add: reading_def)
qed

lemma survives_notification: "survives I (on_notification G n)"
  by (cases n) (auto simp: on_notification_def on_public_token_def
    intro!: survives_modify token survives_symbols_update survives_private_token)

lemma survives_rest: "survives I (on_rest G (\<lambda>E. rest_step E re))"
proof -
  have "survives I (reading gc_rest (\<lambda>(E, c). zoom c (put_rest E) (rest_step E re)))"
    unfolding survives_def by (auto simp: reading_def final_state_zoom ran_rest split: prod.split)
  then show ?thesis
    unfolding on_rest_def by (rule survives_relaying [OF _ survives_notification])
qed

lemma survives_order_entry_rest:
  assumes m: "\<And>E. \<exists>oe. \<forall>c. final_state (m E c) = final_state (order_entry_step E oe c)" and absent: "survives I absent"
  shows "survives I (on_order_entry_rest G account m absent)"
  unfolding on_order_entry_rest_def
proof (rule survives_relaying [OF _ survives_notification], rule survivesI)
  fix s assume s: "I s" and calm: "\<not> is_fatal (reading id (\<lambda>s. case gc_order_entry_rest s account of None \<Rightarrow> absent
      | Some (E, c) \<Rightarrow> zoom (lend account s c) (put_order_entry_rest account E c) (m E)) s)"
  show "I (final_state (reading id (\<lambda>s. case gc_order_entry_rest s account of None \<Rightarrow> absent
      | Some (E, c) \<Rightarrow> zoom (lend account s c) (put_order_entry_rest account E c) (m E)) s))"
  proof (cases "gc_order_entry_rest s account")
    case None
    with survivesD [OF absent s] calm show ?thesis by (simp add: reading_def)
  next
    case (Some Ec)
    obtain E c where Ec: "Ec = (E, c)" by (cases Ec)
    obtain oe where "\<And>c. final_state (m E c) = final_state (order_entry_step E oe c)" using m by blast
    with Some Ec ran_order_entry_rest [OF s, of account E c oe] show ?thesis
      by (simp add: reading_def final_state_zoom)
  qed
qed

lemma survives_dispatch: "survives I (gc_dispatch G re oe ow dc md)"
  unfolding gc_dispatch_def
  by (auto intro!: survives_intros survives_block survives_rest survives_order_entry_rest survives_order_entry_ws
    survives_drop_copy_event survives_all_market_data)

lemma survives_subscribe_loop: "survives I (subscribe_loop G items symbols)"
  by (induction items arbitrary: symbols) (auto intro!: survives_intros survives_rest)

lemma survives_get_order_entry_rest: "survives I (get_order_entry_rest G account a)"
proof -
  have "\<exists>oe. \<forall>c. final_state (oe_action E a c) = final_state (order_entry_step E oe c)" for E
    by (rule exI [of _ "OE_Action a"]) (simp add: order_entry_step_def final_state_bindm_skip)
  then show ?thesis
    unfolding get_order_entry_rest_def by (intro survives_order_entry_rest survives_intros)
qed

lemma survives_get_order_entry_ws: "survives I (get_order_entry_ws account a)"
proof (rule survivesI)
  fix s assume "I s"
  then show "I (final_state (get_order_entry_ws account a s))"
    using ran_order_entry_ws [of s account _ _ "OW_Action a"]
    by (auto simp: get_order_entry_ws_def on_order_entry_ws_def reading_def final_state_zoom throw_def
      order_entry_ws_step_def final_state_bindm_skip split: option.split prod.split)
qed

lemma survives_order: "survives I (gc_order G r)"
  by (cases r) (auto simp: gc_order_def get_order_entry_def
    intro!: survives_intros survives_block survives_get_order_entry_rest survives_get_order_entry_ws)

lemma survives_step: "survives I (controller_step G e)"
  by (cases e) (auto simp: controller_step_def gc_start_def gc_stop_def gc_timer_def gc_subscribe_def gc_control_def
    intro!: survives_intros survives_block survives_emit survives_dispatch survives_order survives_subscribe_loop
      survives_symbols_update survives_rest survives_order_entry_rest survives_order_entry_ws survives_drop_copy_event
      survives_market_data
    split: control_action.splits)

lemma reached: "gc_reach G s t \<Longrightarrow> I s \<Longrightarrow> I t"
  by (induction rule: gc_reach.induct) (auto intro: survivesD [OF survives_step])

end

subsection \<open>Invariants of the streams\<close>

locale streams_invariant =
  fixes rest_ok :: "rest_env \<Rightarrow> rest \<Rightarrow> bool"
    and oe_ok :: "order_entry_env \<Rightarrow> order_entry \<Rightarrow> bool"
    and ow_ok :: "order_entry_ws_env \<Rightarrow> order_entry_ws \<Rightarrow> bool"
    and dc_ok :: "drop_copy_env \<Rightarrow> drop_copy \<Rightarrow> bool"
    and md_ok :: "market_data_env \<Rightarrow> market_data \<Rightarrow> bool"
  assumes rest_created: "rest_ok E1 Rest_create"
    and rest_kept: "keeps (rest_ok E1) (rest_step E1 re)"
    and oe_created: "oe_ok E2 OrderEntryREST_create"
    and oe_kept: "keeps (oe_ok E2) (order_entry_step E2 oe)"
    and oe_shared: "oe_ok E2 c2 \<Longrightarrow> oe_ok E2 (c2\<lparr>details_stale_orders := keys\<rparr>)"
    and ow_created: "ow_ok E3 OrderEntryWS_create"
    and ow_kept: "keeps (ow_ok E3) (order_entry_ws_step E3 ow)"
    and dc_created: "dc_ok E4 (DropCopy_create E4 query)"
    and dc_kept: "keeps (dc_ok E4) (drop_copy_step E4 dc)"
    and dc_shared: "dc_ok E4 c4 \<Longrightarrow> dc_ok E4 (c4\<lparr>details_stale_orders := keys\<rparr>)"
    and md_created: "MarketData_create E5 = Some c5 \<Longrightarrow> md_ok E5 c5"
    and md_kept: "keeps (md_ok E5) (market_data_step E5 md)"
begin

definition all_ok :: "controller \<Rightarrow> bool" where
  "all_ok s \<longleftrightarrow> (case gc_rest s of (E, c) \<Rightarrow> rest_ok E c)
     \<and> (\<forall>account E c. gc_order_entry_rest s account = Some (E, c) \<longrightarrow> oe_ok E c)
     \<and> (\<forall>account E c. gc_order_entry_ws s account = Some (E, c) \<longrightarrow> ow_ok E c)
     \<and> (\<forall>account E c. gc_drop_copy s account = Some (E, c) \<longrightarrow> dc_ok E c)
     \<and> (\<forall>E c. (E, c) \<in> set (gc_market_data s) \<longrightarrow> md_ok E c)"

lemma create_rest_ok:
  assumes "\<forall>account E c. snd r account = Some (E, c) \<longrightarrow> oe_ok E c"
  shows "\<forall>account E c. snd (create_order_entry_rest G accounts r) account = Some (E, c) \<longrightarrow> oe_ok E c"
  using assms
proof (induction accounts arbitrary: r)
  case (Cons a accounts)
  show ?case
    unfolding create_order_entry_rest.simps
    by (rule Cons.IH) (use Cons.prems in \<open>auto simp: Let_def oe_created\<close>)
qed simp

lemma create_ws_ok:
  assumes "\<forall>account E c. snd r account = Some (E, c) \<longrightarrow> ow_ok E c"
  shows "\<forall>account E c. snd (create_order_entry_ws_loop G accounts r) account = Some (E, c) \<longrightarrow> ow_ok E c"
  using assms
proof (induction accounts arbitrary: r)
  case (Cons a accounts)
  show ?case
    unfolding create_order_entry_ws_loop.simps
    by (rule Cons.IH) (use Cons.prems in \<open>auto simp: Let_def ow_created\<close>)
qed simp

lemma all_ok_create: "all_ok (Controller_create G config)"
proof -
  let ?accounts = "map fst (cfg_accounts config)"
  obtain i oe where oe: "create_order_entry_rest G ?accounts (0 + 1, Map.empty) = (i, oe)"
    by (cases "create_order_entry_rest G ?accounts (0 + 1, Map.empty)")
  obtain j ow where ow: "create_order_entry_ws G ?accounts i = (j, ow)"
    by (cases "create_order_entry_ws G ?accounts i")
  have "\<forall>account E c. oe account = Some (E, c) \<longrightarrow> oe_ok E c"
    using create_rest_ok [of "(0 + 1, Map.empty)" G ?accounts] oe by simp
  moreover have "\<forall>account E c. ow account = Some (E, c) \<longrightarrow> ow_ok E c"
    using create_ws_ok [of "(i, Map.empty)" G ?accounts] ow by (auto simp: create_order_entry_ws_def split: if_splits)
  ultimately show ?thesis
    using oe ow by (simp add: Controller_create_def Let_def all_ok_def rest_created)
qed

end

sublocale streams_invariant \<subseteq> whole: gateway_invariant G all_ok for G
proof
  fix s account E2 c2 oe
  assume "all_ok s" and "gc_order_entry_rest s account = Some (E2, c2)"
  moreover from this have "oe_ok E2 (final_state (order_entry_step E2 oe (lend account s c2)))"
    unfolding lend_def by (intro keepsD [OF oe_kept] oe_shared) (auto simp: all_ok_def)
  ultimately show "all_ok (put_order_entry_rest account E2 c2 (final_state (order_entry_step E2 oe (lend account s c2))) s)"
    by (auto simp: all_ok_def put_order_entry_rest_def oe_shared)
next
  fix s account E4 c4 dc
  assume "all_ok s" and "gc_drop_copy s account = Some (E4, c4)"
  moreover from this have "dc_ok E4 (final_state (drop_copy_step E4 dc (lend account s c4)))"
    unfolding lend_def by (intro keepsD [OF dc_kept] dc_shared) (auto simp: all_ok_def)
  ultimately show "all_ok (put_drop_copy account E4 c4 (final_state (drop_copy_step E4 dc (lend account s c4))) s)"
    by (auto simp: all_ok_def put_drop_copy_def dc_shared)
next
  fix s :: controller and i E5 c5 md
  assume ok: "all_ok s" and i: "i < length (gc_market_data s)" "gc_market_data s ! i = (E5, c5)"
  then have "(E5, c5) \<in> set (gc_market_data s)" by (metis nth_mem)
  with ok have "md_ok E5 (final_state (market_data_step E5 md c5))"
    by (intro keepsD [OF md_kept]) (auto simp: all_ok_def)
  with ok show "all_ok (put_market_data i E5 (final_state (market_data_step E5 md c5)) s)"
    by (auto simp: all_ok_def put_market_data_def dest!: set_update_subset_insert [THEN subsetD])
next
  fix s t
  assume "all_ok s" and "create_slice G s = Normal () t"
  moreover have "md_ok E (c\<lparr>trace := trace c @ [ConnStart]\<rparr>)" if "MarketData_create E = Some c" for E c
    using keepsD [OF md_kept [of E MD_Start] md_created [OF that]] by (simp add: market_data_step_def exec_simps)
  ultimately show "all_ok t"
    by (auto simp: create_slice_run Let_def all_ok_def split: option.splits)
next
  fix s account uri query f t
  assume "all_ok s" and "create_drop_copy G account uri query f s = Normal () t"
  moreover have "dc_ok E ((DropCopy_create E query)\<lparr>trace := trace (DropCopy_create E query) @ [ConnStart]\<rparr>)" for E
    using keepsD [OF dc_kept [of E DC_Start] dc_created] by (simp add: drop_copy_step_def exec_simps)
  ultimately show "all_ok t"
    by (auto simp: create_drop_copy_run all_ok_def Let_def split: if_splits)
qed (auto simp: all_ok_def put_rest_def put_order_entry_ws_def intro: keepsD [OF rest_kept] keepsD [OF ow_kept])

subsection \<open>The streams' invariants\<close>

definition drop_copy_ok :: "drop_copy_env \<Rightarrow> drop_copy \<Rightarrow> bool" where
  "drop_copy_ok E s \<longleftrightarrow> agrees dc_connection_status s \<and> dc_token_inv s \<and> dc_ready_downloaded s"

lemma drop_copy_ok_kept: "keeps (drop_copy_ok E) (drop_copy_step E e)"
  using keepsD [OF dc_step_agrees] keepsD [OF dc_step_token_inv] keepsD [OF dc_step_ready]
  by (auto simp: drop_copy_ok_def intro!: keepsI)

interpretation gw: streams_invariant "\<lambda>E. agrees re_connection_status" "\<lambda>E. agrees oe_connection_status" "\<lambda>E. ow_session"
  drop_copy_ok "\<lambda>E. md_consistent"
proof
  show "keeps (agrees re_connection_status) (rest_step E e)" for E e
    by (rule rest_keeps [OF re_safe_agrees])
  show "keeps (agrees oe_connection_status) (order_entry_step E e)" for E e
    by (rule order_entry_step_agrees)
  show "keeps ow_session (order_entry_ws_step E e)" for E e
    by (rule order_entry_ws_keeps [OF ow_safe_session])
  show "keeps (drop_copy_ok E) (drop_copy_step E e)" for E e
    by (rule drop_copy_ok_kept)
  show "keeps md_consistent (market_data_step E e)" for E e
    by (rule market_data_consistent_kept)
  show "md_consistent c" if "MarketData_create E = Some c" for E c
    using market_data_consistent [OF that, of "[]"] by simp
qed (simp_all add: agrees_def Rest_create_def OrderEntryREST_create_def ow_session_def OrderEntryWS_create_def
  drop_copy_ok_def DropCopy_create_def dc_token_inv_def dc_ready_downloaded_def)




subsection \<open>What a stream is given\<close>

text \<open>A stream keeps the parameters it was created with: those of the gateway, and its own number, account or slice.\<close>

definition stream_parameters :: "controller_env \<Rightarrow> controller \<Rightarrow> bool" where
  "stream_parameters G s \<longleftrightarrow> (\<exists>i. fst (gc_rest s) = rest_stream G i)
     \<and> (\<forall>account E c. gc_order_entry_rest s account = Some (E, c) \<longrightarrow> (\<exists>i. E = order_entry_rest_stream G i account))
     \<and> (\<forall>account E c. gc_order_entry_ws s account = Some (E, c) \<longrightarrow> (\<exists>i. E = order_entry_ws_stream G i account))
     \<and> (\<forall>account E c. gc_drop_copy s account = Some (E, c) \<longrightarrow> (\<exists>i uri f. E = drop_copy_stream G i account uri f))
     \<and> (\<forall>n < length (gc_market_data s). \<exists>i uri query f. fst (gc_market_data s ! n) = market_data_stream G i n uri query f)"

interpretation params: gateway_invariant G "stream_parameters G" for G
proof
  fix s :: controller and n E c c'
  assume "stream_parameters G s" and "n < length (gc_market_data s)" and "gc_market_data s ! n = (E, c)"
  then show "stream_parameters G (put_market_data n E c' s)" for c'
    by (fastforce simp: stream_parameters_def put_market_data_def nth_list_update)
next
  fix s t
  assume "stream_parameters G s" and "create_slice G s = Normal () t"
  then show "stream_parameters G t"
    by (auto simp: create_slice_run Let_def stream_parameters_def nth_append less_Suc_eq split: option.splits) blast
next
  fix s account uri query f t
  assume "stream_parameters G s" and "create_drop_copy G account uri query f s = Normal () t"
  then show "stream_parameters G t"
    by (auto simp: create_drop_copy_run stream_parameters_def Let_def split: if_splits) blast
qed (auto simp: stream_parameters_def put_rest_def put_order_entry_rest_def put_order_entry_ws_def put_drop_copy_def)

lemma created_order_entry_rest:
  assumes "\<forall>account E c. snd r account = Some (E, c) \<longrightarrow> (\<exists>i. E = order_entry_rest_stream G i account)"
  shows "\<forall>account E c. snd (create_order_entry_rest G accounts r) account = Some (E, c) \<longrightarrow>
    (\<exists>i. E = order_entry_rest_stream G i account)"
  using assms
proof (induction accounts arbitrary: r)
  case (Cons a accounts)
  show ?case
    unfolding create_order_entry_rest.simps by (rule Cons.IH) (use Cons.prems in \<open>auto simp: Let_def\<close>)
qed simp

lemma created_order_entry_ws:
  assumes "\<forall>account E c. snd r account = Some (E, c) \<longrightarrow> (\<exists>i. E = order_entry_ws_stream G i account)"
  shows "\<forall>account E c. snd (create_order_entry_ws_loop G accounts r) account = Some (E, c) \<longrightarrow>
    (\<exists>i. E = order_entry_ws_stream G i account)"
  using assms
proof (induction accounts arbitrary: r)
  case (Cons a accounts)
  show ?case
    unfolding create_order_entry_ws_loop.simps by (rule Cons.IH) (use Cons.prems in \<open>auto simp: Let_def\<close>)
qed simp

lemma created_parameters: "stream_parameters G (Controller_create G config)"
proof -
  let ?accounts = "map fst (cfg_accounts config)"
  obtain i oe where oe: "create_order_entry_rest G ?accounts (0 + 1, Map.empty) = (i, oe)"
    by (cases "create_order_entry_rest G ?accounts (0 + 1, Map.empty)")
  obtain j ow where ow: "create_order_entry_ws G ?accounts i = (j, ow)"
    by (cases "create_order_entry_ws G ?accounts i")
  have "\<forall>account E c. oe account = Some (E, c) \<longrightarrow> (\<exists>i. E = order_entry_rest_stream G i account)"
    using created_order_entry_rest [of "(0 + 1, Map.empty)" G ?accounts] oe by simp
  moreover have "\<forall>account E c. ow account = Some (E, c) \<longrightarrow> (\<exists>i. E = order_entry_ws_stream G i account)"
    using created_order_entry_ws [of "(i, Map.empty)" G ?accounts] ow by (auto simp: create_order_entry_ws_def split: if_splits)
  ultimately show ?thesis
    using oe ow by (auto simp: Controller_create_def Let_def stream_parameters_def)
qed

lemma reached_parameters: "gc_reach G (Controller_create G config) s \<Longrightarrow> stream_parameters G s"
  by (rule params.reached [OF _ created_parameters])

subsection \<open>Stream numbers\<close>

text \<open>The id of every stream there is. Ids are 16 bit numbers, handed out one after the other.\<close>

datatype stream_key =
    Key_Rest | Key_OrderEntryREST string | Key_OrderEntryWS string | Key_DropCopy string | Key_MarketData nat

definition stream_ids :: "controller \<Rightarrow> stream_key \<Rightarrow> 16 word option" where
  "stream_ids s k = (case k of
     Key_Rest \<Rightarrow> Some (ree_stream_id (fst (gc_rest s)))
   | Key_OrderEntryREST account \<Rightarrow> map_option (\<lambda>(E, c). oee_stream_id E) (gc_order_entry_rest s account)
   | Key_OrderEntryWS account \<Rightarrow> map_option (\<lambda>(E, c). owe_stream_id E) (gc_order_entry_ws s account)
   | Key_DropCopy account \<Rightarrow> map_option (\<lambda>(E, c). dce_stream_id E) (gc_drop_copy s account)
   | Key_MarketData i \<Rightarrow> if i < length (gc_market_data s) then Some (mde_stream_id (fst (gc_market_data s ! i))) else None)"

definition numbering :: "16 word \<Rightarrow> (stream_key \<rightharpoonup> 16 word) \<Rightarrow> bool" where
  "numbering n M \<longleftrightarrow> finite (dom M) \<and> (card (dom M) < 2 ^ 16 \<longrightarrow>
     unat n = card (dom M) \<and> inj_on M (dom M) \<and> (\<forall>k i. M k = Some i \<longrightarrow> 0 < unat i \<and> unat i \<le> card (dom M)))"

lemma numbering_new:
  assumes "numbering n M" and "M k = None"
  shows "numbering (n + 1) (M(k \<mapsto> n + 1))"
proof -
  have card: "card (dom (M(k \<mapsto> n + 1))) = Suc (card (dom M))"
    using assms by (simp add: numbering_def domIff)
  show ?thesis
  proof (cases "Suc (card (dom M)) < 2 ^ 16")
    case False
    with assms card show ?thesis by (simp add: numbering_def)
  next
    case True
    with assms(1) have old: "unat n = card (dom M)" "inj_on M (dom M)"
      "\<And>l i. M l = Some i \<Longrightarrow> 0 < unat i \<and> unat i \<le> card (dom M)"
      by (auto simp: numbering_def)
    have new: "unat (n + 1) = Suc (card (dom M))"
      using True old(1) by (simp add: unat_word_ariths)
    have "M l \<noteq> Some (n + 1)" for l
      using old(3) [of l "n + 1"] new by auto
    then have "inj_on (M(k \<mapsto> n + 1)) (dom (M(k \<mapsto> n + 1)))"
      using old(2) by (auto simp: inj_on_def dom_def)
    moreover have "0 < unat i \<and> unat i \<le> Suc (card (dom M))" if "(M(k \<mapsto> n + 1)) l = Some i" for l i
      using that old(3) [of l i] new by (auto split: if_splits)
    ultimately show ?thesis
      using assms(1) card new by (simp add: numbering_def)
  qed
qed

definition well_numbered :: "controller \<Rightarrow> bool" where
  "well_numbered s \<longleftrightarrow> numbering (gc_stream_id s) (stream_ids s)"

text \<open>A step of a stream changes no number, a new stream gets the next one.\<close>

lemma numbered_same: "gc_stream_id t = gc_stream_id s \<Longrightarrow> stream_ids t = stream_ids s \<Longrightarrow> well_numbered s \<Longrightarrow> well_numbered t"
  by (simp add: well_numbered_def)

lemma numbered_new:
  "gc_stream_id t = gc_stream_id s + 1 \<Longrightarrow> stream_ids t = (stream_ids s)(k \<mapsto> gc_stream_id s + 1) \<Longrightarrow>
     stream_ids s k = None \<Longrightarrow> well_numbered s \<Longrightarrow> well_numbered t"
  by (simp add: well_numbered_def numbering_new)

interpretation ids: gateway_invariant G well_numbered for G
proof
  fix s account E c c'
  assume "well_numbered s" and "gc_order_entry_rest s account = Some (E, c)"
  then show "well_numbered (put_order_entry_rest account E c c' s)" for c'
    by (elim numbered_same [rotated 2]) (auto simp: put_order_entry_rest_def stream_ids_def fun_eq_iff split: stream_key.split)
next
  fix s account E c
  assume "well_numbered s" and "gc_order_entry_ws s account = Some (E, c)"
  then show "well_numbered (put_order_entry_ws account E c' s)" for c'
    by (elim numbered_same [rotated 2]) (auto simp: put_order_entry_ws_def stream_ids_def fun_eq_iff split: stream_key.split)
next
  fix s account E c
  assume "well_numbered s" and "gc_drop_copy s account = Some (E, c)"
  then show "well_numbered (put_drop_copy account E c c' s)" for c'
    by (elim numbered_same [rotated 2]) (auto simp: put_drop_copy_def stream_ids_def fun_eq_iff split: stream_key.split)
next
  fix s :: controller and i E c
  assume "well_numbered s" and "i < length (gc_market_data s)" and "gc_market_data s ! i = (E, c)"
  then show "well_numbered (put_market_data i E c' s)" for c'
    by (elim numbered_same [rotated 2])
      (auto simp: put_market_data_def stream_ids_def fun_eq_iff nth_list_update split: stream_key.split)
next
  fix s t
  assume "well_numbered s" and "create_slice G s = Normal () t"
  then show "well_numbered t"
    by (elim numbered_new [where k = "Key_MarketData (length (gc_market_data s))", rotated 3])
      (auto simp: create_slice_run Let_def stream_ids_def fun_eq_iff nth_append market_data_stream_def
        split: stream_key.split option.splits)
next
  fix s account uri query f t
  assume "well_numbered s" and "gc_drop_copy s account = None" and "create_drop_copy G account uri query f s = Normal () t"
  then show "well_numbered t"
    by (elim numbered_new [where k = "Key_DropCopy account", rotated 3])
      (auto simp: create_drop_copy_run Let_def stream_ids_def fun_eq_iff drop_copy_stream_def split: stream_key.split)
qed (elim numbered_same [rotated 2]; auto simp: stream_ids_def put_rest_def fun_eq_iff split: stream_key.split)+

text \<open>The streams of the constructor: the REST stream is number 1, then those of the accounts.\<close>

definition created_ids :: "(string \<rightharpoonup> order_entry_env \<times> order_entry) \<Rightarrow> (string \<rightharpoonup> order_entry_ws_env \<times> order_entry_ws)
    \<Rightarrow> stream_key \<Rightarrow> 16 word option" where
  "created_ids oe ow k = (case k of
     Key_Rest \<Rightarrow> Some 1
   | Key_OrderEntryREST account \<Rightarrow> map_option (\<lambda>(E, c). oee_stream_id E) (oe account)
   | Key_OrderEntryWS account \<Rightarrow> map_option (\<lambda>(E, c). owe_stream_id E) (ow account)
   | Key_DropCopy account \<Rightarrow> None
   | Key_MarketData i \<Rightarrow> None)"

lemma created_ids_upd:
  "created_ids (oe(account \<mapsto> (E, c))) ow = (created_ids oe ow)(Key_OrderEntryREST account \<mapsto> oee_stream_id E)"
  "created_ids oe (ow(account \<mapsto> (F, d))) = (created_ids oe ow)(Key_OrderEntryWS account \<mapsto> owe_stream_id F)"
  by (auto simp: created_ids_def fun_eq_iff split: stream_key.split)

lemma numbering_order_entry_rest:
  assumes "distinct accounts" and "\<forall>account\<in>set accounts. snd r account = None"
    and "numbering (fst r) (created_ids (snd r) Map.empty)"
  shows "numbering (fst (create_order_entry_rest G accounts r)) (created_ids (snd (create_order_entry_rest G accounts r)) Map.empty)
    \<and> dom (snd (create_order_entry_rest G accounts r)) = dom (snd r) \<union> set accounts"
  using assms
proof (induction accounts arbitrary: r)
  case (Cons a accounts)
  let ?r = "(fst r + 1, (snd r)(a \<mapsto> (order_entry_rest_stream G (fst r + 1) a, OrderEntryREST_create)))"
  have ids: "numbering (fst ?r) (created_ids (snd ?r) Map.empty)"
    using Cons.prems numbering_new [of "fst r" "created_ids (snd r) Map.empty" "Key_OrderEntryREST a"]
    by (simp add: created_ids_upd order_entry_rest_stream_def) (simp add: created_ids_def)
  then have "numbering (fst (create_order_entry_rest G accounts ?r))
      (created_ids (snd (create_order_entry_rest G accounts ?r)) Map.empty)
    \<and> dom (snd (create_order_entry_rest G accounts ?r)) = dom (snd ?r) \<union> set accounts"
    using Cons.prems by (intro Cons.IH [OF _ _ ids]) auto
  with Cons.prems show ?case by (simp add: Let_def domIff insert_commute)
qed simp

lemma numbering_order_entry_ws:
  assumes "distinct accounts" and "\<forall>account\<in>set accounts. snd r account = None"
    and "numbering (fst r) (created_ids oe (snd r))"
  shows "numbering (fst (create_order_entry_ws_loop G accounts r)) (created_ids oe (snd (create_order_entry_ws_loop G accounts r)))
    \<and> dom (snd (create_order_entry_ws_loop G accounts r)) = dom (snd r) \<union> set accounts"
  using assms
proof (induction accounts arbitrary: r)
  case (Cons a accounts)
  let ?r = "(fst r + 1, (snd r)(a \<mapsto> (order_entry_ws_stream G (fst r + 1) a, OrderEntryWS_create)))"
  have ids: "numbering (fst ?r) (created_ids oe (snd ?r))"
    using Cons.prems numbering_new [of "fst r" "created_ids oe (snd r)" "Key_OrderEntryWS a"]
    by (simp add: created_ids_upd order_entry_ws_stream_def) (simp add: created_ids_def)
  then have "numbering (fst (create_order_entry_ws_loop G accounts ?r))
      (created_ids oe (snd (create_order_entry_ws_loop G accounts ?r)))
    \<and> dom (snd (create_order_entry_ws_loop G accounts ?r)) = dom (snd ?r) \<union> set accounts"
    using Cons.prems by (intro Cons.IH [OF _ _ ids]) auto
  with Cons.prems show ?case by (simp add: Let_def domIff insert_commute)
qed simp

text \<open>Which accounts have which streams.\<close>

definition ws_orders :: "settings \<Rightarrow> bool" where
  "ws_orders settings \<longleftrightarrow> set_ws_api settings \<and> set_ws_uri settings \<noteq> []"

definition accounts_served :: "controller_env \<Rightarrow> string set \<Rightarrow> controller \<Rightarrow> bool" where
  "accounts_served G accounts s \<longleftrightarrow> set (gc_accounts s) = accounts \<and> dom (gc_order_entry_rest s) = accounts
     \<and> dom (gc_order_entry_ws s) = (if ws_orders (ge_settings G) then accounts else {})
     \<and> dom (gc_drop_copy s) \<subseteq> accounts"

lemma accounts_served_same:
  "gc_accounts t = gc_accounts s \<Longrightarrow> dom (gc_order_entry_rest t) = dom (gc_order_entry_rest s) \<Longrightarrow>
     dom (gc_order_entry_ws t) = dom (gc_order_entry_ws s) \<Longrightarrow> dom (gc_drop_copy t) \<subseteq> dom (gc_drop_copy s) \<union> set (gc_accounts s) \<Longrightarrow>
     accounts_served G accounts s \<Longrightarrow> accounts_served G accounts t"
  unfolding accounts_served_def by (simp only:) blast

interpretation served: gateway_invariant G "accounts_served G accounts" for G accounts
proof
  fix s t
  assume "accounts_served G accounts s" and "create_slice G s = Normal () t"
  then show "accounts_served G accounts t"
    by (elim accounts_served_same [rotated 4]) (auto simp: create_slice_run Let_def split: option.splits)
next
  fix s account uri query f t
  assume "accounts_served G accounts s" and "account \<in> set (gc_accounts s)"
    and "create_drop_copy G account uri query f s = Normal () t"
  then show "accounts_served G accounts t"
    by (elim accounts_served_same [rotated 4]) (auto simp: create_drop_copy_run Let_def split: if_splits)
qed (elim accounts_served_same [rotated 4]; auto simp: put_rest_def put_order_entry_rest_def put_order_entry_ws_def
  put_drop_copy_def put_market_data_def)+

lemma created_numbered:
  assumes "distinct (map fst (cfg_accounts config))"
  shows "well_numbered (Controller_create G config) \<and> accounts_served G (fst ` set (cfg_accounts config)) (Controller_create G config)"
proof -
  let ?accounts = "map fst (cfg_accounts config)"
  obtain i oe where oe: "create_order_entry_rest G ?accounts (0 + 1, Map.empty) = (i, oe)"
    by (cases "create_order_entry_rest G ?accounts (0 + 1, Map.empty)")
  obtain j ow where ow: "create_order_entry_ws G ?accounts i = (j, ow)"
    by (cases "create_order_entry_ws G ?accounts i")
  have "k \<in> dom (created_ids Map.empty Map.empty) \<longleftrightarrow> k \<in> {Key_Rest}" for k
    by (cases k) (auto simp: created_ids_def)
  then have "dom (created_ids Map.empty Map.empty) = {Key_Rest}" by blast
  then have "numbering 1 (created_ids Map.empty Map.empty)"
    by (auto simp: numbering_def created_ids_def split: stream_key.splits)
  with numbering_order_entry_rest [OF assms, of "(0 + 1, Map.empty)" G] oe
  have 1: "numbering i (created_ids oe Map.empty)" and d1: "dom oe = fst ` set (cfg_accounts config)"
    by auto
  have 2: "numbering j (created_ids oe ow)"
    and d2: "dom ow = (if ws_orders (ge_settings G) then fst ` set (cfg_accounts config) else {})"
    using numbering_order_entry_ws [OF assms, of "(i, Map.empty)" oe G] 1 ow
    by (auto simp: create_order_entry_ws_def ws_orders_def split: if_splits)
  have "stream_ids (Controller_create G config) = created_ids oe ow"
    using oe ow by (auto simp: Controller_create_def Let_def stream_ids_def created_ids_def rest_stream_def fun_eq_iff
      split: stream_key.split)
  with 2 d1 d2 oe ow show ?thesis
    by (simp add: well_numbered_def accounts_served_def Controller_create_def Let_def)
qed

lemma loaded_accounts:
  assumes "Config_create setting sy entries = Normal () config"
  shows "distinct (map fst (cfg_accounts config)) \<and> fst ` set (cfg_accounts config) = ac_name ` set (entry_accounts entries)"
proof -
  have accs: "cfg_accounts config = fold (\<lambda>a. emplace (ac_name a) a) (entry_accounts entries) []"
    using load_accounts [OF assms [unfolded Config_create_def]] by simp
  have keys: "fst ` set (emplace k v m) = insert k (fst ` set m)" for k :: string and v :: account_config and m
    by (auto simp: emplace_def map_of_eq_None_iff image_iff split: if_splits)
  have "fst ` set (fold (\<lambda>a. emplace (ac_name a) a) as m) = fst ` set m \<union> ac_name ` set as" for as and m :: "(string \<times> account_config) list"
    by (induction as arbitrary: m) (auto simp: keys)
  with accs distinct_fold_emplace [of "[]" "entry_accounts entries"] show ?thesis by simp
qed

lemma reached_ids:
  assumes "Config_create setting sy entries = Normal () config" and "gc_reach G (Controller_create G config) s"
    and "card (dom (stream_ids s)) < 2 ^ 16"
  shows "inj_on (stream_ids s) (dom (stream_ids s))" and "unat (gc_stream_id s) = card (dom (stream_ids s))"
    and "stream_ids s k = Some i \<Longrightarrow> 0 < unat i \<and> unat i \<le> card (dom (stream_ids s))"
proof -
  have "well_numbered s"
    using ids.reached [OF assms(2)] created_numbered loaded_accounts [OF assms(1)] by blast
  with assms(3) show "inj_on (stream_ids s) (dom (stream_ids s))" and "unat (gc_stream_id s) = card (dom (stream_ids s))"
    and "stream_ids s k = Some i \<Longrightarrow> 0 < unat i \<and> unat i \<le> card (dom (stream_ids s))"
    by (auto simp: well_numbered_def numbering_def)
qed

text \<open>
  C22. For a configuration that loads, in every state the gateway can reach with fewer than 65536
  streams, no two streams have the same id (of 16 bits), ids are handed out without gaps, and the
  accounts that are served are those of the configuration: each has its REST order stream, each
  has a websocket order stream exactly if the websocket API is on and has an address, and only
  they have a drop copy, at most one each.
\<close>

theorem stream_ids_distinct:
  assumes "Config_create setting sy entries = Normal () config" and "gc_reach G (Controller_create G config) s"
    and "card (dom (stream_ids s)) < 2 ^ 16"
  shows "inj_on (stream_ids s) (dom (stream_ids s)) \<and> unat (gc_stream_id s) = card (dom (stream_ids s))
    \<and> (\<forall>k i. stream_ids s k = Some i \<longrightarrow> 0 < unat i \<and> unat i \<le> card (dom (stream_ids s)))
    \<and> dom (gc_order_entry_rest s) = ac_name ` set (entry_accounts entries)
    \<and> dom (gc_order_entry_ws s) = (if ws_orders (ge_settings G) then ac_name ` set (entry_accounts entries) else {})
    \<and> dom (gc_drop_copy s) \<subseteq> ac_name ` set (entry_accounts entries)"
proof -
  have "accounts_served G (ac_name ` set (entry_accounts entries)) s"
    using served.reached [OF assms(2)] created_numbered [of config G] loaded_accounts [OF assms(1)] by simp
  then show ?thesis
    using reached_ids [OF assms] by (simp add: accounts_served_def)
qed

theorem stream_ids_distinct_witness:
  "stream_ids (Controller_create sample_controller_env sample_config) (Key_OrderEntryREST ''A1'') = Some 2
   \<and> unat (gc_stream_id (Controller_create sample_controller_env sample_config)) = 2
   \<and> dom (gc_order_entry_rest (Controller_create sample_controller_env sample_config)) = {''A1''}"
proof -
  let ?s = "Controller_create sample_controller_env sample_config"
  note run = Controller_create_def create_order_entry_ws_def sample_config_def sample_controller_env_def
    sample_settings_def order_entry_rest_stream_def rest_stream_def stream_ids_def
  have "k \<in> dom (stream_ids ?s) \<longleftrightarrow> k \<in> {Key_Rest, Key_OrderEntryREST ''A1''}" for k
    by (cases k) (auto simp: run Let_def dom_def)
  then have "dom (stream_ids ?s) = {Key_Rest, Key_OrderEntryREST ''A1''}" by blast
  then have card: "card (dom (stream_ids ?s)) = 2" by simp
  moreover have "stream_ids ?s (Key_OrderEntryREST ''A1'') = Some 2"
    by (simp add: run Let_def)
  ultimately show ?thesis
    using stream_ids_distinct [OF sample_config_loads gc_created, of sample_controller_env]
    by (simp add: sample_entries_def)
qed

end
