(* ===== verification/Order_Routing.thy ===== *)
theory Order_Routing
  imports Gateway
begin

text \<open>
  The way of an order request through the controller: to the stream of its account and to no other,
  over the websocket if the websocket API is on (cancelling all orders is REST only).
\<close>

subsection \<open>A request and its stream\<close>

text \<open>The account a request names and what is asked of its stream; quotes are never asked of any.\<close>

fun asked_of :: "order_request \<Rightarrow> (string \<times> order_action) option" where
  "asked_of (Do_CreateOrder info co rf request_id) = Some (co_account co, CreateOrder info co rf request_id)"
| "asked_of (Do_ModifyOrder account order) = Some (account, ModifyOrder)"
| "asked_of (Do_CancelOrder info xo order request_id) = Some (xo_account xo, CancelOrder info xo order request_id)"
| "asked_of (Do_CancelAllOrders info xa request_id) = Some (xa_account xa, CancelAllOrders info xa request_id)"
| "asked_of Do_MassQuote = None"
| "asked_of Do_CancelQuotes = None"

text \<open>What the server guarantees of its requests: an account, and it is the order's.\<close>

fun well_addressed :: "order_request \<Rightarrow> bool" where
  "well_addressed (Do_CreateOrder info co rf request_id) = (co_account co \<noteq> [])"
| "well_addressed (Do_ModifyOrder account order) = (account \<noteq> [] \<and> account = or_account order)"
| "well_addressed (Do_CancelOrder info xo order request_id) = (xo_account xo \<noteq> [] \<and> xo_account xo = or_account order)"
| "well_addressed (Do_CancelAllOrders info xa request_id) = (xa_account xa \<noteq> [])"
| "well_addressed Do_MassQuote = True"
| "well_addressed Do_CancelQuotes = True"

definition over_ws :: "controller_env \<Rightarrow> order_action \<Rightarrow> bool" where
  "over_ws G a \<longleftrightarrow> set_ws_api (ge_settings G) \<and> on_one_order a"

lemma gc_order_asked:
  "asked_of r = Some (account, a) \<Longrightarrow> well_addressed r \<Longrightarrow>
     gc_order G r s = (if over_ws G a then get_order_entry_ws account a s else get_order_entry_rest G account a s)"
  by (cases r) (auto simp: gc_order_def get_order_entry_def over_ws_def exec_simps)

text \<open>An order action tells the controller nothing.\<close>

lemma oe_action_silent:
  "case oe_action E a c of
     Normal i c' \<Rightarrow> \<exists>as. trace c' = trace c @ as \<and> seen notified_by as = []
   | Thrown e c' \<Rightarrow> c' = c
   | Fatal msg c' \<Rightarrow> True"
proof -
  have "seen notified_by (cancel_symbol E info xa request_id symb) = []" for info xa request_id symb
    by (simp add: cancel_symbol_def)
  then have "seen notified_by (concat (map (cancel_symbol E info xa request_id) symbols)) = []" for info xa request_id symbols
    by (induction symbols) simp_all
  then show ?thesis
    by (cases a) (auto simp: oe_action_def seqm_def bindm_def ret_def throw_def oe_create_order_run oe_cancel_order_run
      oe_cancel_all_orders_run Let_def split: option.splits)
qed

lemma relaying_silent:
  assumes "\<And>t. m s = Normal a t \<or> m s = Thrown e t \<Longrightarrow> seen notified_by (drop (length (tr s)) (tr t)) = []"
    and "returns (m s) \<Longrightarrow> \<exists>t. m s = Normal a t" and "\<not> returns (m s) \<Longrightarrow> \<not> is_fatal (m s) \<Longrightarrow> \<exists>t. m s = Thrown e t"
  shows "relaying G tr m s = m s"
proof (cases "m s")
  case (Normal b t)
  with assms(2) have "b = a" by simp
  with Normal assms(1) show ?thesis by (simp add: relaying_def attempt_def exec_simps)
next
  case (Thrown x t)
  with assms(3) have "x = e" by simp
  with Thrown assms(1) show ?thesis by (simp add: relaying_def attempt_def exec_simps)
next
  case (Fatal msg t)
  then show ?thesis by (simp add: relaying_def attempt_def exec_simps)
qed

lemma get_order_entry_rest_run:
  "get_order_entry_rest G account a s = (case gc_order_entry_rest s account of
     None \<Rightarrow> Thrown (unknown_account account) s
   | Some (E, c) \<Rightarrow> zoom (lend account s c) (put_order_entry_rest account E c) (oe_action E a) s)"
proof (cases "gc_order_entry_rest s account")
  case None
  then show ?thesis
    by (simp add: get_order_entry_rest_def on_order_entry_rest_def relaying_def attempt_def exec_simps)
next
  case (Some Ec)
  obtain E c where Ec: "Ec = (E, c)" by (cases Ec)
  let ?tr = "\<lambda>s. case gc_order_entry_rest s account of None \<Rightarrow> [] | Some (E, c) \<Rightarrow> trace c"
  let ?m = "zoom (lend account s c) (put_order_entry_rest account E c) (oe_action E a)"
  have "get_order_entry_rest G account a s = relaying G ?tr
      (reading id (\<lambda>s. case gc_order_entry_rest s account of None \<Rightarrow> throw (unknown_account account)
        | Some (E, c) \<Rightarrow> zoom (lend account s c) (put_order_entry_rest account E c) (oe_action E a))) s"
    by (simp add: get_order_entry_rest_def on_order_entry_rest_def)
  also have "\<dots> = reading id (\<lambda>s. case gc_order_entry_rest s account of None \<Rightarrow> throw (unknown_account account)
        | Some (E, c) \<Rightarrow> zoom (lend account s c) (put_order_entry_rest account E c) (oe_action E a)) s"
  proof -
    have run: "reading id (\<lambda>s. case gc_order_entry_rest s account of None \<Rightarrow> throw (unknown_account account)
        | Some (E, c) \<Rightarrow> zoom (lend account s c) (put_order_entry_rest account E c) (oe_action E a)) s = ?m s"
      using Some Ec by (simp add: reading_def)
    show ?thesis
    proof (cases "oe_action E a (lend account s c)")
      case (Normal i c')
      with oe_action_silent [where E = E and a = a and c = "lend account s c"] obtain as
        where "trace c' = trace c @ as" "seen notified_by as = []"
        by (auto simp: lend_def)
      with Normal Some Ec show ?thesis
        by (intro relaying_silent [where a = i]) (auto simp: run zoom_def put_order_entry_rest_def)
    next
      case (Thrown e c')
      with oe_action_silent [where E = E and a = a and c = "lend account s c"] have "c' = lend account s c" by simp
      with Thrown Some Ec show ?thesis
        by (intro relaying_silent [where e = e]) (auto simp: run zoom_def put_order_entry_rest_def lend_def)
    next
      case (Fatal msg c')
      then show ?thesis by (intro relaying_silent) (auto simp: run zoom_def)
    qed
  qed
  finally show ?thesis using Some Ec by (simp add: reading_def)
qed

lemma get_order_entry_ws_run:
  "get_order_entry_ws account a s = (case gc_order_entry_ws s account of
     None \<Rightarrow> Thrown (unknown_account account) s
   | Some (E, c) \<Rightarrow> zoom c (put_order_entry_ws account E) (ow_action E a) s)"
  by (simp add: get_order_entry_ws_def on_order_entry_ws_def reading_def throw_def split: option.split)

lemma put_back [simp]:
  "gc_order_entry_rest s account = Some (E, c) \<Longrightarrow> put_order_entry_rest account E c (lend account s c) s = s"
  "gc_order_entry_ws s account = Some (F, d) \<Longrightarrow> put_order_entry_ws account F d s = s"
  by (simp_all add: put_order_entry_rest_def put_order_entry_ws_def lend_def fun_upd_idem)

lemma action_refusal:
  "oe_action E a c = Thrown e t \<Longrightarrow> e \<noteq> unknown_account account"
  "ow_action F a d = Thrown e u \<Longrightarrow> e \<noteq> unknown_account account"
  by (cases a; auto simp: oe_action_def ow_action_def unknown_account_def seqm_def bindm_def ret_def throw_def
    oe_create_order_run oe_cancel_order_run oe_cancel_all_orders_run emit_def modify_def fatal_def Let_def
    split: if_splits option.splits)+

lemma unencodable:
  "add_order F co rf request_id mode = None \<Longrightarrow> co_order_type co = OrderType_UNDEFINED"
  "ws_add_order F co rf request_id mode = None \<Longrightarrow> co_order_type co = OrderType_UNDEFINED"
  using add_order_renders [of co F rf request_id mode] ws_add_order_renders [of co F rf request_id mode] by fastforce+

text \<open>Whether the account has the stream that the action goes to.\<close>

definition has_stream :: "controller_env \<Rightarrow> controller \<Rightarrow> string \<Rightarrow> order_action \<Rightarrow> bool" where
  "has_stream G s account a \<longleftrightarrow>
     (if over_ws G a then gc_order_entry_ws s account \<noteq> None else gc_order_entry_rest s account \<noteq> None)"

lemma no_stream_unknown:
  assumes "asked_of r = Some (account, a)" and "well_addressed r" and "\<not> has_stream G s account a"
  shows "gc_order G r s = Thrown (unknown_account account) s"
  using assms
  by (auto simp: gc_order_asked get_order_entry_ws_run get_order_entry_rest_run has_stream_def split: if_splits)

lemma routed_over_ws:
  assumes "gc_order_entry_ws s account = Some (E, c)"
  shows "case get_order_entry_ws account a s of
     Normal i t \<Rightarrow> \<exists>c'. i = owe_stream_id E \<and> t = put_order_entry_ws account E c' s
        \<and> (on_one_order a \<longrightarrow> messages (trace c') = Suc (messages (trace c)))
   | Thrown e t \<Rightarrow> t = s \<and> e \<noteq> unknown_account account
   | Fatal msg t \<Rightarrow> \<exists>info co rf request_id. a = CreateOrder info co rf request_id \<and> co_order_type co = OrderType_UNDEFINED"
proof (cases "ow_action E a c")
  case (Normal i c')
  with assms show ?thesis
    using ow_order_stream.taken_by_self [OF Normal] ow_order_stream.sent_once [OF Normal]
    by (auto simp: get_order_entry_ws_run zoom_def)
next
  case (Thrown e c')
  with assms ow_order_stream.refused [OF Thrown] action_refusal(2) [OF Thrown] show ?thesis
    by (simp add: get_order_entry_ws_run zoom_def)
next
  case (Fatal msg c')
  then have "\<exists>info co rf request_id. a = CreateOrder info co rf request_id \<and> co_order_type co = OrderType_UNDEFINED"
    by (cases a) (auto simp: ow_action_def exec_simps dest: unencodable split: option.splits)
  with Fatal assms show ?thesis by (simp add: get_order_entry_ws_run zoom_def)
qed

lemma routed_over_rest:
  assumes "gc_order_entry_rest s account = Some (E, c)"
  shows "case get_order_entry_rest G account a s of
     Normal i t \<Rightarrow> \<exists>c'. i = oee_stream_id E \<and> t = put_order_entry_rest account E c c' s
        \<and> (on_one_order a \<longrightarrow> messages (trace c') = Suc (messages (trace c)))
   | Thrown e t \<Rightarrow> t = s \<and> e \<noteq> unknown_account account
   | Fatal msg t \<Rightarrow> \<exists>info co rf request_id. a = CreateOrder info co rf request_id \<and> co_order_type co = OrderType_UNDEFINED"
proof (cases "oe_action E a (lend account s c)")
  case (Normal i c')
  have "trace (lend account s c) = trace c" by (simp add: lend_def)
  with Normal assms show ?thesis
    using oe_order_stream.taken_by_self [OF Normal] oe_order_stream.sent_once [OF Normal]
    by (auto simp: get_order_entry_rest_run zoom_def)
next
  case (Thrown e c')
  with assms oe_order_stream.refused [OF Thrown] action_refusal(1) [OF Thrown] show ?thesis
    by (simp add: get_order_entry_rest_run zoom_def)
next
  case (Fatal msg c')
  then have "\<exists>info co rf request_id. a = CreateOrder info co rf request_id \<and> co_order_type co = OrderType_UNDEFINED"
    by (cases a) (auto simp: oe_action_def seqm_def bindm_def ret_def throw_def oe_create_order_run oe_cancel_order_run
      oe_cancel_all_orders_run Let_def dest: unencodable split: if_splits option.splits)
  with Fatal assms show ?thesis by (simp add: get_order_entry_rest_run zoom_def)
qed

subsection \<open>Properties\<close>

text \<open>
  C5. An order request is taken by the stream of its account and by no other: over the websocket
  if the websocket API is on, except that cancelling all orders is REST only. A request that is
  taken returns that stream's id and has sent one message (if it is on one order); one that is
  refused leaves the whole gateway as it was, and it is refused for an unknown account exactly if
  the account has no such stream. Only a create without an order type ends the process.
\<close>

theorem orders_routed:
  assumes "asked_of r = Some (account, a)" and "well_addressed r"
  shows "case gc_order G r s of
     Normal i t \<Rightarrow> if over_ws G a
       then \<exists>E c c'. gc_order_entry_ws s account = Some (E, c) \<and> i = owe_stream_id E
         \<and> t = put_order_entry_ws account E c' s \<and> messages (trace c') = Suc (messages (trace c))
       else \<exists>E c c'. gc_order_entry_rest s account = Some (E, c) \<and> i = oee_stream_id E
         \<and> t = put_order_entry_rest account E c c' s
         \<and> (on_one_order a \<longrightarrow> messages (trace c') = Suc (messages (trace c)))
   | Thrown e t \<Rightarrow> t = s \<and> (e = unknown_account account \<longleftrightarrow> \<not> has_stream G s account a)
   | Fatal msg t \<Rightarrow> \<exists>info co rf request_id. a = CreateOrder info co rf request_id \<and> co_order_type co = OrderType_UNDEFINED"
proof (cases "has_stream G s account a")
  case False
  then show ?thesis by (simp add: no_stream_unknown [OF assms])
next
  case True
  show ?thesis
  proof (cases "over_ws G a")
    case ws: True
    with True obtain E c where E: "gc_order_entry_ws s account = Some (E, c)" by (auto simp: has_stream_def)
    from ws have "on_one_order a" by (simp add: over_ws_def)
    with routed_over_ws [OF E, of a] E ws True show ?thesis
      by (auto simp: gc_order_asked [OF assms] split: outcome.splits)
  next
    case rest: False
    with True obtain E c where E: "gc_order_entry_rest s account = Some (E, c)" by (auto simp: has_stream_def)
    with routed_over_rest [OF E, where G = G and a = a] rest True show ?thesis
      by (auto simp: gc_order_asked [OF assms] split: outcome.splits)
  qed
qed

definition sample_ws_controller_env :: controller_env where
  "sample_ws_controller_env = sample_controller_env\<lparr>ge_settings := sample_settings\<lparr>set_ws_api := True\<rparr>\<rparr>"

definition sample_cancel :: order_request where
  "sample_cancel = Do_CancelOrder \<lparr>msg_source = 1, msg_trace_info = sample_trace_info\<rparr>
     \<lparr>xo_account = ''A1'', xo_order_id = 7, xo_version = 2\<rparr> (sample_oms_order\<lparr>or_account := ''A1''\<rparr>) ''9''"

theorem orders_routed_witness:
  "\<exists>t E c c'. gc_order sample_ws_controller_env sample_cancel (Controller_create sample_ws_controller_env sample_config) = Normal 3 t
     \<and> gc_order_entry_ws (Controller_create sample_ws_controller_env sample_config) ''A1'' = Some (E, c)
     \<and> t = put_order_entry_ws ''A1'' E c' (Controller_create sample_ws_controller_env sample_config)
     \<and> messages (trace c') = Suc (messages (trace c))"
proof -
  let ?G = sample_ws_controller_env
  let ?s = "Controller_create ?G sample_config"
  let ?a = "CancelOrder \<lparr>msg_source = 1, msg_trace_info = sample_trace_info\<rparr>
     \<lparr>xo_account = ''A1'', xo_order_id = 7, xo_version = 2\<rparr> (sample_oms_order\<lparr>or_account := ''A1''\<rparr>) ''9''"
  have asked: "asked_of sample_cancel = Some (''A1'', ?a)" "well_addressed sample_cancel"
    by (simp_all add: sample_cancel_def)
  have ws: "over_ws ?G ?a" by (simp add: over_ws_def sample_ws_controller_env_def)
  have "gc_order_entry_ws ?s ''A1'' = Some (order_entry_ws_stream ?G 3 ''A1'', OrderEntryWS_create)"
    by (simp add: Controller_create_def create_order_entry_ws_def sample_config_def Let_def)
      (simp add: sample_ws_controller_env_def sample_settings_def)
  then obtain t where "gc_order ?G sample_cancel ?s = Normal 3 t"
    by (simp add: gc_order_asked [OF asked] ws get_order_entry_ws_run zoom_def ow_action_def exec_simps
      order_entry_ws_stream_def)
  with orders_routed [OF asked, of ?G ?s] ws show ?thesis by auto
qed

text \<open>
  C31. In every state the gateway can reach, an order request is refused for an unknown account
  exactly if its account is not configured, or the websocket API is on without the address that
  its streams need; then no order of any account can be created, changed or canceled one by one.
\<close>

theorem configured_accounts_reachable:
  assumes "Config_create setting sy entries = Normal () config" and "gc_reach G (Controller_create G config) s"
    and "asked_of r = Some (account, a)" and "well_addressed r"
  shows "gc_order G r s = Thrown (unknown_account account) s \<longleftrightarrow>
     account \<notin> ac_name ` set (entry_accounts entries) \<or> over_ws G a \<and> set_ws_uri (ge_settings G) = []"
proof -
  note loaded = loaded_accounts [OF assms(1)]
  have "accounts_served G (ac_name ` set (entry_accounts entries)) s"
    using served.reached [OF assms(2)] created_numbered [of config G] loaded by simp
  then have served: "dom (gc_order_entry_rest s) = ac_name ` set (entry_accounts entries)"
    "dom (gc_order_entry_ws s) = (if ws_orders (ge_settings G) then ac_name ` set (entry_accounts entries) else {})"
    by (auto simp: accounts_served_def)
  have "has_stream G s account a \<longleftrightarrow> account \<in> ac_name ` set (entry_accounts entries)
      \<and> \<not> (over_ws G a \<and> set_ws_uri (ge_settings G) = [])"
    unfolding has_stream_def over_ws_def domIff [symmetric] served ws_orders_def by auto
  moreover have "gc_order G r s \<noteq> Thrown (unknown_account account) s" if has: "has_stream G s account a"
  proof (cases "over_ws G a")
    case ws: True
    with has obtain E c where E: "gc_order_entry_ws s account = Some (E, c)" by (auto simp: has_stream_def)
    with routed_over_ws [OF E, of a] ws show ?thesis by (auto simp: gc_order_asked [OF assms(3,4)])
  next
    case rest: False
    with has obtain E c where E: "gc_order_entry_rest s account = Some (E, c)" by (auto simp: has_stream_def)
    with routed_over_rest [OF E, where G = G and a = a] rest show ?thesis by (auto simp: gc_order_asked [OF assms(3,4)])
  qed
  ultimately show ?thesis using no_stream_unknown [OF assms(3,4)] by blast
qed

theorem configured_accounts_reachable_witness:
  "let G = sample_ws_controller_env\<lparr>ge_settings := (ge_settings sample_ws_controller_env)\<lparr>set_ws_uri := []\<rparr>\<rparr>
   in gc_order G sample_cancel (Controller_create G sample_config)
     = Thrown (unknown_account ''A1'') (Controller_create G sample_config)"
proof -
  let ?G = "sample_ws_controller_env\<lparr>ge_settings := (ge_settings sample_ws_controller_env)\<lparr>set_ws_uri := []\<rparr>\<rparr>"
  let ?a = "CancelOrder \<lparr>msg_source = 1, msg_trace_info = sample_trace_info\<rparr>
     \<lparr>xo_account = ''A1'', xo_order_id = 7, xo_version = 2\<rparr> (sample_oms_order\<lparr>or_account := ''A1''\<rparr>) ''9''"
  have asked: "asked_of sample_cancel = Some (''A1'', ?a)" "well_addressed sample_cancel"
    by (simp_all add: sample_cancel_def)
  have "over_ws ?G ?a" by (simp add: over_ws_def sample_ws_controller_env_def)
  with configured_accounts_reachable [OF sample_config_loads gc_created asked, of ?G] show ?thesis
    by (simp add: Let_def)
qed

end
