(* ===== verification/Symbol_Slices.thy ===== *)
theory Symbol_Slices
  imports Gateway
begin

text \<open>
  The symbols of the gateway: a subscription or a download tells the controller which symbols are
  new, the table of symbols says how many market data streams there must be and from which symbol
  on they have something to subscribe, and the controller creates the missing streams and tells all
  of them.
\<close>

subsection \<open>Creating streams\<close>

text \<open>The stream of slice \<open>i\<close>, created in state \<open>s\<close> together with those of the slices before it.\<close>

definition slice_env :: "controller_env \<Rightarrow> controller \<Rightarrow> nat \<Rightarrow> market_data_env" where
  "slice_env G s i = market_data_stream G (gc_stream_id s + of_nat (Suc i - length (gc_market_data s))) i
     (gc_public_ws_uri s) (gc_public_ws_query s) (gc_public_ws_ping_frequency s)"

definition new_market_data :: "market_data_env \<Rightarrow> market_data" where
  "new_market_data E = \<lparr>trace = [ConnStart], md_request_id = ucast (mde_stream_id E) * MD_REQUEST_ID, md_welcome = False,
      md_connection_status = ConnectionStatus_UNDEFINED, md_logon_timeout = 0, md_next_ping = 0\<rparr>"

definition slice_stream :: "controller_env \<Rightarrow> controller \<Rightarrow> nat \<Rightarrow> market_data_env \<times> market_data" where
  "slice_stream G s i = (slice_env G s i, new_market_data (slice_env G s i))"

lemma create_slice_slice:
  "create_slice G s = (let t = s\<lparr>gc_stream_id := gc_stream_id s + 1\<rparr> in
     if gc_public_ws_ping_frequency s = 0 then Fatal ''Unexpected: ping_frequency'' t
     else Normal () (t\<lparr>gc_market_data := gc_market_data s @ [slice_stream G s (length (gc_market_data s))]\<rparr>))"
  by (simp add: create_slice_run MarketData_create_def slice_stream_def slice_env_def new_market_data_def Let_def
    market_data_stream_def)

text \<open>The loop, without the loop.\<close>

lemma ensure_symbol_slices_closed:
  "ensure_symbol_slices G n s = (let k = length (gc_market_data s) in
     if n \<le> k then Normal () s
     else if gc_public_ws_ping_frequency s = 0
       then Fatal ''Unexpected: ping_frequency'' (s\<lparr>gc_stream_id := gc_stream_id s + 1\<rparr>)
     else Normal () (s\<lparr>gc_stream_id := gc_stream_id s + of_nat (n - k),
       gc_market_data := gc_market_data s @ map (slice_stream G s) [k..<n]\<rparr>))"
proof (induction "n - length (gc_market_data s)" arbitrary: s)
  case 0
  then show ?case by (simp add: ensure_symbol_slices.simps)
next
  case (Suc d)
  let ?k = "length (gc_market_data s)"
  from Suc.hyps(2) have k: "?k < n" by simp
  show ?case
  proof (cases "gc_public_ws_ping_frequency s = 0")
    case True
    with k show ?thesis by (subst ensure_symbol_slices.simps) (simp add: create_slice_slice Let_def)
  next
    case False
    let ?t = "s\<lparr>gc_stream_id := gc_stream_id s + 1, gc_market_data := gc_market_data s @ [slice_stream G s ?k]\<rparr>"
    have step: "ensure_symbol_slices G n s = ensure_symbol_slices G n ?t"
      using k False by (subst ensure_symbol_slices.simps) (simp add: create_slice_slice Let_def)
    have same: "slice_stream G ?t i = slice_stream G s i" if "?k < i" for i
    proof -
      from that obtain j where "i = Suc (?k + j)" using less_imp_Suc_add by blast
      then show ?thesis by (simp add: slice_stream_def slice_env_def add.assoc)
    qed
    have "map (slice_stream G s) [?k..<n] = slice_stream G s ?k # map (slice_stream G ?t) [Suc ?k..<n]"
      using k same by (simp add: upt_conv_Cons)
    moreover have "of_nat (n - ?k) = (1 + of_nat (n - Suc ?k) :: 16 word)"
      using k by (metis Suc_diff_Suc of_nat_Suc)
    moreover have "d = n - length (gc_market_data ?t)" using Suc.hyps(2) by simp
    ultimately show ?thesis
      unfolding step using Suc.hyps(1) [of ?t] k False by (simp add: Let_def Suc_le_eq le_Suc_eq add.assoc)
  qed
qed

subsection \<open>Telling every stream\<close>

lemma all_market_data_run:
  assumes "\<And>E c. returns (m E c)"
  shows "all_market_data m s = Normal () (s\<lparr>gc_market_data := map (\<lambda>(E, c). (E, final_state (m E c))) (gc_market_data s)\<rparr>)"
proof -
  let ?f = "\<lambda>(E, c). (E, final_state (m E c))"
  have "k \<le> length xs \<Longrightarrow> for_each [k..<length xs] (\<lambda>i. on_market_data i m)
      (s\<lparr>gc_market_data := map ?f (take k xs) @ drop k xs\<rparr>) = Normal () (s\<lparr>gc_market_data := map ?f xs\<rparr>)" for k xs
  proof (induction "length xs - k" arbitrary: k)
    case 0
    then show ?case by (simp add: exec_simps)
  next
    case (Suc d)
    then have k: "k < length xs" by simp
    obtain E c where E: "xs ! k = (E, c)" by (cases "xs ! k")
    obtain u where "m E c = Normal () u" using assms [of E c] by (cases "m E c") auto
    then have "on_market_data k m (s\<lparr>gc_market_data := map ?f (take k xs) @ drop k xs\<rparr>)
        = Normal () (s\<lparr>gc_market_data := (map ?f (take k xs) @ drop k xs)[k := (E, u)]\<rparr>)"
      using k E by (simp add: on_market_data_def reading_def zoom_def put_market_data_def nth_append)
    moreover have "(map ?f (take k xs) @ drop k xs)[k := (E, u)] = map ?f (take (Suc k) xs) @ drop (Suc k) xs"
      using k E \<open>m E c = Normal () u\<close>
      by (simp add: list_update_append take_Suc_conv_app_nth Cons_nth_drop_Suc [symmetric])
    ultimately show ?case
      using Suc.hyps(1) [of "Suc k"] Suc.hyps(2) k by (simp add: upt_conv_Cons seqm_Normal del: upt_Suc)
  qed
  from this [of 0 "gc_market_data s"] show ?thesis
    by (simp add: all_market_data_def reading_def)
qed

lemma md_subscribe_step_returns: "returns (market_data_step E (MD_Subscribe n) c)"
  by (simp add: market_data_step_def md_subscribe_returns)

lemma new_stream_does_not_subscribe:
  "final_state (market_data_step E (MD_Subscribe n) (new_market_data E)) = new_market_data E"
  by (simp add: market_data_step_def md_subscribe_def md_is_ready_def new_market_data_def exec_simps)

subsection \<open>New symbols\<close>

text \<open>The symbols of a subscription that are new, in order, each once.\<close>

fun new_symbols :: "string set \<Rightarrow> string list \<Rightarrow> string list" where
  "new_symbols known [] = []"
| "new_symbols known (x # xs) = (if x \<in> known then new_symbols known xs else x # new_symbols (insert x known) xs)"

lemma new_symbols_spec: "set (new_symbols known xs) = set xs - known \<and> distinct (new_symbols known xs)"
  by (induction known xs rule: new_symbols.induct) auto

lemma rest_subscribed_run:
  assumes "gc_rest s = (E, c)"
  shows "on_rest G (\<lambda>E. rest_step E (RE_Subscribed xs)) s = Normal () (put_rest E (c\<lparr>re_all_symbols := re_all_symbols c \<union> set xs\<rparr>) s)"
  using assms by (simp add: on_rest_def relaying_def attempt_def rest_step_def zoom_def put_rest_def exec_simps)

lemma subscribe_loop_run:
  assumes "gc_rest s = (E, c)"
  shows "subscribe_loop G items acc s = Normal (acc @ new_symbols (re_all_symbols c) items)
     (put_rest E (c\<lparr>re_all_symbols := re_all_symbols c \<union> set items\<rparr>) s)"
  using assms
proof (induction items arbitrary: s c acc)
  case Nil
  then show ?case by (simp add: ret_def put_rest_def)
next
  case (Cons item items)
  show ?case
  proof (cases "item \<in> re_all_symbols c")
    case True
    with Cons show ?thesis by (simp add: reading_def insert_absorb)
  next
    case False
    let ?c = "c\<lparr>re_all_symbols := insert item (re_all_symbols c)\<rparr>"
    have "subscribe_loop G (item # items) acc s = subscribe_loop G items (acc @ [item]) (put_rest E ?c s)"
      using False Cons.prems by (simp add: reading_def seqm_Normal [OF rest_subscribed_run])
    with Cons.IH [of "put_rest E ?c s" ?c "acc @ [item]"] False show ?thesis
      by (simp add: put_rest_def)
  qed
qed

lemma known_symbols_not_new: "set items \<subseteq> known \<Longrightarrow> new_symbols known items = []"
  by (induction known items rule: new_symbols.induct) auto

text \<open>Every market data stream serves the slice of its position, and has a ping frequency.\<close>

definition slices_indexed :: "controller \<Rightarrow> bool" where
  "slices_indexed s \<longleftrightarrow> map (\<lambda>(E, c). mde_index E) (gc_market_data s) = [0..<length (gc_market_data s)]
     \<and> list_all (\<lambda>(E, c). mde_ping_frequency E \<noteq> 0) (gc_market_data s)"

lemma slices_indexed_same:
  "map fst (gc_market_data t) = map fst (gc_market_data s) \<Longrightarrow> slices_indexed s \<Longrightarrow> slices_indexed t"
proof -
  assume same: "map fst (gc_market_data t) = map fst (gc_market_data s)" and s: "slices_indexed s"
  have "map (\<lambda>(E, c). mde_index E) xs = map mde_index (map fst xs)"
    "list_all (\<lambda>(E, c). mde_ping_frequency E \<noteq> 0) xs = list_all (\<lambda>E. mde_ping_frequency E \<noteq> 0) (map fst xs)"
    for xs :: "(market_data_env \<times> market_data) list"
    by (auto simp: list.pred_map split_def o_def)
  moreover have "length (gc_market_data t) = length (gc_market_data s)"
    using same by (metis length_map)
  ultimately show "slices_indexed t" using same s by (simp only: slices_indexed_def)
qed

interpretation sliced: gateway_invariant G slices_indexed for G
proof
  fix s t
  assume "slices_indexed s" and "create_slice G s = Normal () t"
  then show "slices_indexed t"
    by (auto simp: create_slice_slice slices_indexed_def slice_stream_def slice_env_def market_data_stream_def Let_def split: if_splits)
next
  fix s :: controller and i E c c'
  assume "slices_indexed s" and "i < length (gc_market_data s)" and "gc_market_data s ! i = (E, c)"
  then show "slices_indexed (put_market_data i E c' s)" for c'
    by (elim slices_indexed_same [rotated]) (simp add: put_market_data_def map_update list_update_same_conv)
qed (elim slices_indexed_same [rotated]; auto simp: put_rest_def put_order_entry_rest_def put_order_entry_ws_def
  put_drop_copy_def create_drop_copy_run Let_def)+

subsection \<open>Properties\<close>

text \<open>
  C18. When the controller hears of symbols, the creation of market data streams ends: it leaves at
  least as many streams as the table of symbols asks for, the old ones first and unchanged but for
  what the subscription does to them, the new ones with consecutive ids and indices, started, with
  the current public token, and with nothing sent; only if a stream is missing while no ping
  frequency is known does the process end. In every reachable state, the streams serve exactly the
  slices from 0 on, one each.
\<close>

theorem symbols_update_completes_streams:
  assumes "gc_reach G (Controller_create G config) s"
  shows "let (n, start_from) = ge_symbols G symbols (trace s @ [Call ''symbols'']);
       k = length (gc_market_data s); t = s\<lparr>trace := trace s @ [Call ''symbols'']\<rparr>
     in on_symbols_update G symbols s =
       (if k < n \<and> gc_public_ws_ping_frequency s = 0
        then Fatal ''Unexpected: ping_frequency'' (t\<lparr>gc_stream_id := gc_stream_id s + 1\<rparr>)
        else Normal () (t\<lparr>gc_stream_id := gc_stream_id s + of_nat (n - k),
          gc_market_data := map (\<lambda>(E, c). (E, final_state (market_data_step E (MD_Subscribe start_from) c))) (gc_market_data s)
            @ map (slice_stream G s) [k..<n]\<rparr>))
     \<and> map (\<lambda>(E, c). mde_index E) (gc_market_data s) = [0..<k]"
proof -
  obtain n start_from where n: "ge_symbols G symbols (trace s @ [Call ''symbols'']) = (n, start_from)"
    by (cases "ge_symbols G symbols (trace s @ [Call ''symbols''])")
  let ?t = "s\<lparr>trace := trace s @ [Call ''symbols'']\<rparr>"
  let ?tell = "\<lambda>(E, c). (E, final_state (market_data_step E (MD_Subscribe start_from) c))"
  have slice: "slice_stream G ?t i = slice_stream G s i" for i
    by (simp add: slice_stream_def slice_env_def)
  have new: "?tell (slice_stream G s i) = slice_stream G s i" for i
    by (simp add: slice_stream_def new_stream_does_not_subscribe)
  have "on_symbols_update G symbols s = block [ensure_symbol_slices G n,
      all_market_data (\<lambda>E. market_data_step E (MD_Subscribe start_from))] ?t"
    by (simp add: on_symbols_update_def ask_run n)
  also have "\<dots> = (if length (gc_market_data s) < n \<and> gc_public_ws_ping_frequency s = 0
        then Fatal ''Unexpected: ping_frequency'' (?t\<lparr>gc_stream_id := gc_stream_id s + 1\<rparr>)
        else Normal () (?t\<lparr>gc_stream_id := gc_stream_id s + of_nat (n - length (gc_market_data s)),
          gc_market_data := map ?tell (gc_market_data s) @ map (slice_stream G s) [length (gc_market_data s)..<n]\<rparr>))"
    by (auto simp: seqm_def bindm_def ensure_symbol_slices_closed Let_def slice
      all_market_data_run [OF md_subscribe_step_returns] new o_def skip_def)
  finally have "on_symbols_update G symbols s = (if length (gc_market_data s) < n \<and> gc_public_ws_ping_frequency s = 0
        then Fatal ''Unexpected: ping_frequency'' (?t\<lparr>gc_stream_id := gc_stream_id s + 1\<rparr>)
        else Normal () (?t\<lparr>gc_stream_id := gc_stream_id s + of_nat (n - length (gc_market_data s)),
          gc_market_data := map ?tell (gc_market_data s) @ map (slice_stream G s) [length (gc_market_data s)..<n]\<rparr>))" .
  moreover have "slices_indexed (Controller_create G config)"
    by (simp add: slices_indexed_def Controller_create_def Let_def split: prod.split)
  then have "slices_indexed s" by (rule sliced.reached [OF assms])
  ultimately show ?thesis by (simp add: n Let_def slices_indexed_def)
qed

theorem symbols_update_completes_streams_witness:
  "\<exists>t. on_symbols_update sample_controller_env [''XBTUSDTM''] (Controller_create sample_controller_env sample_config) = Fatal ''Unexpected: ping_frequency'' t"
  using symbols_update_completes_streams [OF gc_created, where G = sample_controller_env and config = sample_config
    and symbols = "[''XBTUSDTM'']"]
  by (simp add: sample_controller_env_def Controller_create_def Let_def create_order_entry_ws_def sample_settings_def
    split: prod.splits)

text \<open>
  A subscription announces exactly its symbols that were not known, in order and each once, to
  the table of symbols and so to the streams, and remembers all of them: the same subscription
  again, at any later time, announces nothing.
\<close>

theorem subscription_announces_new_symbols:
  assumes "gc_rest s = (E, c)" and "gc_rest u = (E, d)" and "re_all_symbols c \<union> set items \<subseteq> re_all_symbols d"
  shows "\<exists>fresh. gc_subscribe G items s = on_symbols_update G fresh (put_rest E (c\<lparr>re_all_symbols := re_all_symbols c \<union> set items\<rparr>) s)
     \<and> set fresh = set items - re_all_symbols c \<and> distinct fresh
     \<and> gc_subscribe G items u = on_symbols_update G [] u"
proof -
  have known: "re_all_symbols d \<union> set items = re_all_symbols d" "set items \<subseteq> re_all_symbols d"
    using assms(3) by auto
  have "gc_subscribe G items u = on_symbols_update G [] (put_rest E d u)"
    by (simp add: gc_subscribe_def bindm_def subscribe_loop_run [OF assms(2)] known_symbols_not_new known)
  also have "put_rest E d u = u"
    using assms(2) by (simp add: put_rest_def)
  finally show ?thesis
    using new_symbols_spec [of "re_all_symbols c" items]
    by (intro exI [of _ "new_symbols (re_all_symbols c) items"])
      (simp add: gc_subscribe_def bindm_def subscribe_loop_run [OF assms(1)])
qed

theorem subscription_announces_new_symbols_witness:
  "\<exists>fresh t. gc_subscribe sample_controller_env [''XBTUSDTM'', ''XBTUSDTM''] (Controller_create sample_controller_env sample_config)
      = on_symbols_update sample_controller_env fresh t \<and> set fresh = {''XBTUSDTM''} \<and> distinct fresh"
proof -
  let ?s = "Controller_create sample_controller_env sample_config"
  obtain E c where c: "gc_rest ?s = (E, c)" by (cases "gc_rest ?s")
  have "re_all_symbols c = {}"
    using c by (auto simp: Controller_create_def Let_def Rest_create_def split: prod.splits)
  moreover have "gc_rest (put_rest E (c\<lparr>re_all_symbols := {''XBTUSDTM''}\<rparr>) ?s) = (E, c\<lparr>re_all_symbols := {''XBTUSDTM''}\<rparr>)"
    by (simp add: put_rest_def)
  ultimately show ?thesis
    using subscription_announces_new_symbols [OF c, of "put_rest E (c\<lparr>re_all_symbols := {''XBTUSDTM''}\<rparr>) ?s"
      "c\<lparr>re_all_symbols := {''XBTUSDTM''}\<rparr>" "[''XBTUSDTM'', ''XBTUSDTM'']" sample_controller_env] by auto
qed

end
