(* ===== verification/Token_Renewal.thy ===== *)
theory Token_Renewal
  imports Gateway
begin

text \<open>
  The way of a private token through the gateway: the exchange's answer to the account's REST
  stream, the notification of the controller, and the account's drop copy, which is created by the
  first token and resumed by every later one.
\<close>

subsection \<open>What an answer tells the controller\<close>

text \<open>The notification that a token stands for, if it is usable.\<close>

definition announces :: "order_entry_env \<Rightarrow> rest_response \<Rightarrow> notification \<Rightarrow> bool" where
  "announces E response n \<longleftrightarrow> (\<exists>token server servers. decoded response (oee_token E) = Some token
     \<and> tk_code token = OE_SYSTEM_CODE_SUCCESS \<and> tk_instance_servers token = server # servers
     \<and> is_ping_interval_ms server \<noteq> 0
     \<and> n = PrivateToken (oee_account_name E) (is_endpoint server) (''?token='' @ tk_token token)
         (ns_of_ms (is_ping_interval_ms server)))"

lemma seen_none: "list_all (\<lambda>a. f a = []) as \<Longrightarrow> seen f as = []"
  by (induction as) simp_all

lemma seqm_assoc: "seqm (seqm l m) n = seqm l (seqm m n)"
proof
  fix s show "seqm (seqm l m) n s = seqm l (seqm m n) s"
    by (cases "l s") (simp_all add: seqm_def bindm_def)
qed

lemma block_head: "m s = n s \<Longrightarrow> block (m # ms) s = block (n # ms) s"
  by (simp add: seqm_def bindm_def)

lemma oe_download_call_silent:
  assumes "notified_by a = []"
  shows "keeps (grows (\<lambda>a. notified_by a = []) tr) (oe_download_call E ti a)"
proof -
  have "keeps (grows (\<lambda>a. notified_by a = []) tr) (oe_download E ti st)" for st
    by (cases st) (auto simp: oe_download_def oe_report_def get_private_token_def intro!: grows_rules)
  then show ?thesis unfolding oe_download_call_def using assms by (intro grows_rules)
qed

lemma token_ack_notifies:
  assumes "announces E response n" and "get_private_token_ack E ti response c = Normal () c'"
  shows "\<exists>as. trace c' = trace c @ as \<and> seen notified_by as = [n]"
proof -
  obtain token server servers where tok: "decoded response (oee_token E) = Some token"
    "tk_code token = OE_SYSTEM_CODE_SUCCESS" "tk_instance_servers token = server # servers"
    "is_ping_interval_ms server \<noteq> 0"
    and n: "n = PrivateToken (oee_account_name E) (is_endpoint server) (''?token='' @ tk_token token)
         (ns_of_ms (is_ping_interval_ms server))"
    using assms(1) by (auto simp: announces_def)
  let ?ok = "\<lambda>token. block
           [if tk_code token = OE_SYSTEM_CODE_SUCCESS then oe_token E token else fatal ''Unexpected: token'',
            oe_download_call E ti (DlCheckRelaxed (oe_state_index PRIVATE_TOKEN)),
            modify (\<lambda>s. s\<lparr>oe_has_downloaded_private_token := True\<rparr>)]"
  let ?err = "\<lambda>orig status err text. ask ''download.downloading'' (oee_downloading E) (\<lambda>downloading.
           whenm downloading (emit (DlRetry (oe_state_index PRIVATE_TOKEN))))"
  have calm: "nothrow (?ok a)" "nothrow (?err b d e f :: oe_stmt)" for a b d e f
    by (auto intro!: nothrow_intros nothrow_oe_download_call nothrow_oe_token)
  have reply: "reply_of (oee_oms_fields E) response (oee_token E) = Data token"
    using tok(1) by (auto simp: reply_of_def decoded_def split: sum.splits if_splits)
  have notify: "oe_token E token c = Normal () (c\<lparr>trace := trace c @ [Notify n]\<rparr>)"
    using tok(3,4) by (simp add: oe_token_def Let_def n emit_def modify_def ns_of_ms_def)
  have "process_response (oee_oms_fields E) response ?err (\<lambda>body. bindm (lift_sum (oee_token E body)) ?ok) c = ?ok token c"
    by (simp only: process_response_reply [where ok = ?ok, OF calm] reply reply.case)
  then have "get_private_token_ack E ti response c = block [?ok token, emit (ReqCommit Req_PrivateToken)] c"
    unfolding get_private_token_ack_def by (rule block_head)
  also have "\<dots> = block [oe_download_call E ti (DlCheckRelaxed (oe_state_index PRIVATE_TOKEN)),
       modify (\<lambda>s. s\<lparr>oe_has_downloaded_private_token := True\<rparr>), emit (ReqCommit Req_PrivateToken)]
     (c\<lparr>trace := trace c @ [Notify n]\<rparr>)"
    using tok(2) by (simp add: seqm_assoc seqm_Normal [where m = "oe_token E token" and s = c, OF notify])
  finally have run: "block [oe_download_call E ti (DlCheckRelaxed (oe_state_index PRIVATE_TOKEN)),
       modify (\<lambda>s. s\<lparr>oe_has_downloaded_private_token := True\<rparr>), emit (ReqCommit Req_PrivateToken)]
     (c\<lparr>trace := trace c @ [Notify n]\<rparr>) = Normal () c'"
    using assms(2) by simp
  have "keeps (grows (\<lambda>a. notified_by a = []) tr) (block [oe_download_call E ti (DlCheckRelaxed (oe_state_index PRIVATE_TOKEN)),
       modify (\<lambda>s. s\<lparr>oe_has_downloaded_private_token := True\<rparr>), emit (ReqCommit Req_PrivateToken)])" for tr
    by (auto intro!: grows_rules oe_download_call_silent)
  from keepsD [OF this grows_refl, of "c\<lparr>trace := trace c @ [Notify n]\<rparr>"] run obtain as
    where "trace c' = trace c @ [Notify n] @ as" "list_all (\<lambda>a. notified_by a = []) as"
    by (auto simp: grows_def)
  then show ?thesis by (intro exI [of _ "Notify n # as"]) (simp add: seen_none)
qed

subsection \<open>The drop copy\<close>

lemma on_private_token_run:
  "on_private_token G account uri query f s = (case gc_drop_copy s account of
     Some (D, d) \<Rightarrow> Normal () (put_drop_copy account D d (if query \<noteq> [] \<and> dc_query d \<noteq> query
         then (lend account s d)\<lparr>dc_query := query, trace := trace d @ [ConnResume]\<rparr> else lend account s d) s)
   | None \<Rightarrow> if account \<notin> set (gc_accounts s) then Fatal ''Unexpected'' s
       else create_drop_copy G account uri query f s)"
  by (auto simp: on_private_token_def on_drop_copy_def reading_def zoom_def drop_copy_step_def dc_private_token_run
    lend_def fatal_def split: option.split)

text \<open>
  C17. A usable private token, answered to an account's REST stream, reaches the account's drop copy
  within the same event, whatever else the answer sets off: the first one creates and starts the
  drop copy with the token's address, query and ping frequency and the next stream id; a later one
  replaces the query of the drop copy that is there, and if it is another one, resumes its suspended
  connection. No other drop copy is touched, and the account's token request is completed.
\<close>

theorem token_reaches_drop_copy:
  assumes "gc_order_entry_rest s account = Some (E, c)" and "oee_account_name E = account" and "account \<in> set (gc_accounts s)"
    and "announces E response (PrivateToken account uri query f)"
    and "controller_step G (GC_OrderEntryREST account (OE_PrivateTokenAck ti response)) s = Normal () t"
  shows "\<exists>D d. gc_drop_copy t = (gc_drop_copy s)(account \<mapsto> (D, d)) \<and> dc_query d = query
     \<and> (case gc_drop_copy s account of
          None \<Rightarrow> dce_stream_id D = gc_stream_id s + 1 \<and> dce_account_name D = account \<and> dce_ping_frequency D = f
            \<and> trace d = [ConnStart]
        | Some (D', d') \<Rightarrow> D = D' \<and> trace d = trace d' @ (if dc_query d' = query then [] else [ConnResume]))
     \<and> (\<exists>c' as. gc_order_entry_rest t account = Some (E, c') \<and> trace c' = trace c @ as \<and> commits as = [Req_PrivateToken])"
proof -
  let ?n = "PrivateToken account uri query f"
  let ?tr = "\<lambda>s. case gc_order_entry_rest s account of None \<Rightarrow> [] | Some (E, c) \<Rightarrow> trace c"
  have query: "query \<noteq> []"
    using assms(4) by (auto simp: announces_def)
  have "get_private_token_ack E ti response (lend account s c) \<noteq> Thrown e u" for e u
    by (rule oe_token_ack.catches)
  moreover have step: "controller_step G (GC_OrderEntryREST account (OE_PrivateTokenAck ti response)) s
      = relaying G ?tr (zoom (lend account s c) (put_order_entry_rest account E c) (get_private_token_ack E ti response)) s"
    using assms(1) by (simp add: controller_step_def on_order_entry_rest_def relaying_def reading_def bindm_def attempt_def
      order_entry_step_def try_catch_def)
  ultimately obtain c' where ack: "get_private_token_ack E ti response (lend account s c) = Normal () c'"
    using assms(5) by (cases "get_private_token_ack E ti response (lend account s c)")
      (auto simp: relaying_def reading_def bindm_def attempt_def try_catch_def zoom_def)
  from token_ack_notifies [OF assms(4) ack] obtain as where as: "trace c' = trace c @ as" "seen notified_by as = [?n]"
    by (auto simp: lend_def)
  from oe_token_ack.completes [OF ack] as(1) have commits: "commits as = [Req_PrivateToken]"
    by (auto simp: lend_def)
  let ?u = "put_order_entry_rest account E c c' s"
  have "controller_step G (GC_OrderEntryREST account (OE_PrivateTokenAck ti response)) s = on_notification G ?n ?u"
    unfolding step using assms(1) ack as
    by (simp add: relaying_def attempt_def zoom_def exec_simps put_order_entry_rest_def split: outcome.split)
  with assms(5) have run: "on_private_token G account uri query f ?u = Normal () t"
    by (simp add: on_notification_def)
  have u: "gc_drop_copy ?u = gc_drop_copy s" "gc_accounts ?u = gc_accounts s" "gc_stream_id ?u = gc_stream_id s"
    by (simp_all add: put_order_entry_rest_def)
  have "gc_order_entry_rest t account = Some (E, c'\<lparr>details_stale_orders := details_stale_orders c\<rparr>)"
    using run by (auto simp: on_private_token_run create_drop_copy_run Let_def put_drop_copy_def put_order_entry_rest_def
      split: option.splits if_splits)
  moreover have "\<exists>D d. gc_drop_copy t = (gc_drop_copy s)(account \<mapsto> (D, d)) \<and> dc_query d = query
     \<and> (case gc_drop_copy s account of
          None \<Rightarrow> dce_stream_id D = gc_stream_id s + 1 \<and> dce_account_name D = account \<and> dce_ping_frequency D = f
            \<and> trace d = [ConnStart]
        | Some (D', d') \<Rightarrow> D = D' \<and> trace d = trace d' @ (if dc_query d' = query then [] else [ConnResume]))"
  proof (cases "gc_drop_copy s account")
    case None
    let ?D = "drop_copy_stream G (gc_stream_id s + 1) account uri f"
    let ?d = "(DropCopy_create ?D query)\<lparr>trace := [ConnStart]\<rparr>"
    have "trace (DropCopy_create ?D query) = []" by (simp add: DropCopy_create_def)
    with None run assms(3) u have "gc_drop_copy t = (gc_drop_copy s)(account \<mapsto> (?D, ?d))"
      by (auto simp: on_private_token_run create_drop_copy_run Let_def)
    moreover have "dc_query ?d = query \<and> dce_stream_id ?D = gc_stream_id s + 1 \<and> dce_account_name ?D = account
        \<and> dce_ping_frequency ?D = f \<and> trace ?d = [ConnStart]"
      by (simp add: DropCopy_create_def drop_copy_stream_def)
    ultimately show ?thesis using None by (intro exI [of _ ?D] exI [of _ ?d]) simp
  next
    case (Some Dd)
    with run query u show ?thesis
      by (cases Dd) (auto simp: on_private_token_run put_drop_copy_def lend_def)
  qed
  ultimately show ?thesis using as(1) commits by auto
qed

definition token_controller_env :: controller_env where
  "token_controller_env = sample_controller_env\<lparr>ge_order_entry_rest := (\<lambda>account. sample_order_entry_env
     \<lparr>oee_token := (\<lambda>body. Inr \<lparr>tk_code = 200000, tk_instance_servers = [\<lparr>is_ping_interval_ms = 18000, is_endpoint = ''wss''\<rparr>],
        tk_token = body\<rparr>)\<rparr>)\<rparr>"

theorem token_reaches_drop_copy_witness:
  "\<exists>t D d. controller_step token_controller_env
        (GC_OrderEntryREST ''A1'' (OE_PrivateTokenAck sample_trace_info (ok_response ''t1'')))
        (Controller_create token_controller_env sample_config) = Normal () t
     \<and> gc_drop_copy t ''A1'' = Some (D, d) \<and> dc_query d = ''?token=t1'' \<and> trace d = [ConnStart] \<and> dce_stream_id D = 3"
proof -
  let ?G = token_controller_env
  let ?s = "Controller_create ?G sample_config"
  let ?E = "order_entry_rest_stream ?G 2 ''A1''"
  have E: "gc_order_entry_rest ?s ''A1'' = Some (?E, OrderEntryREST_create)" "gc_drop_copy ?s ''A1'' = None"
    "''A1'' \<in> set (gc_accounts ?s)" "gc_stream_id ?s = 2"
    by (simp_all add: Controller_create_def create_order_entry_ws_def sample_config_def Let_def token_controller_env_def
      sample_controller_env_def sample_settings_def)
  have name: "oee_account_name ?E = ''A1''" by (simp add: order_entry_rest_stream_def)
  have n: "announces ?E (ok_response ''t1'') (PrivateToken ''A1'' ''wss'' ''?token=t1'' 18000000000)"
    by (simp add: announces_def order_entry_rest_stream_def token_controller_env_def decoded_def ok_response_def
      OE_SYSTEM_CODE_SUCCESS_def ns_of_ms_def)
  have "\<exists>t. controller_step ?G (GC_OrderEntryREST ''A1'' (OE_PrivateTokenAck sample_trace_info (ok_response ''t1''))) ?s = Normal () t"
    using E by (simp add: controller_step_def on_order_entry_rest_def relaying_def attempt_def zoom_def order_entry_step_def
      get_private_token_ack_def process_response_def response_switch_def ok_response_def order_entry_rest_stream_def
      token_controller_env_def sample_controller_env_def sample_order_entry_env_def OE_SYSTEM_CODE_SUCCESS_def oe_token_def
      oe_download_call_def oe_download_def oe_report_run ns_of_ms_def exec_simps put_order_entry_rest_def lend_def
      on_notification_def on_private_token_run create_drop_copy_run OrderEntryREST_create_def Let_def)
  then obtain t where "controller_step ?G (GC_OrderEntryREST ''A1'' (OE_PrivateTokenAck sample_trace_info (ok_response ''t1''))) ?s
      = Normal () t" by blast
  with token_reaches_drop_copy [OF E(1) name E(3) n this] E show ?thesis by fastforce
qed

end
