(* ===== verification/Stale_Orders.thy ===== *)
theory Stale_Orders
  imports Order_Routing
begin

text \<open>
  The way of a stale order through the gateway: the drop copy of an account asks the server which
  orders are stale and puts their keys into the set that the account's streams share
  (\<open>gateway/request.hpp\<close>); the account's REST stream takes them out and asks the exchange. The
  timer reaches the REST streams before the drop copies, so this takes two of its ticks.
\<close>

subsection \<open>Collecting\<close>

text \<open>A drop copy whose download is over, at a tick at which it looks for stale orders.\<close>

definition looks_for_stale :: "drop_copy_env \<Rightarrow> drop_copy \<Rightarrow> trace_info \<Rightarrow> bool" where
  "looks_for_stale D d ti \<longleftrightarrow> dc_is_ready d \<and> dc_next_check_stale_orders d < origin_create_time ti
     \<and> 0 < dce_ping_frequency D
     \<and> (\<forall>tr. conn_refresh (dce_connection D) tr \<and> conn_ready (dce_connection D) tr \<and> dce_download_state D tr = DC_DONE)"

lemma timer_collects:
  assumes "looks_for_stale D d ti" and "\<And>tr. dce_stale_orders D tr = orders"
  shows "\<exists>d' as. drop_copy_step D (DC_Timer ti now) d = Normal () d'
     \<and> details_stale_orders d' = fold insert_key (map order_key orders) (details_stale_orders d)
     \<and> trace d' = trace d @ as
     \<and> (ReqIssue Req_StaleOrders \<in> set as \<longleftrightarrow> \<not> order_key ` set orders \<subseteq> set (details_stale_orders d))"
  using assms
  by (simp add: looks_for_stale_def drop_copy_step_def dc_timer_def dc_send_ping_def dc_check_request_queue_def
    dc_check_stale_orders_def dc_collect_run dc_check_response_private_token_def dc_request_private_token_def
    dc_is_ready_def exec_simps Let_def)


subsection \<open>Asking\<close>

text \<open>The query for one order, and what a tick does about a list of keys: each known order is asked for.\<close>

definition stale_query :: "order_entry_env \<Rightarrow> trace_info \<Rightarrow> oms_order \<Rightarrow> effect" where
  "stale_query E ti order = (if or_external_order_id order = []
     then SendRequest (oe_request E ti GET (api_get_order_by_client_order_id (oee_api E))
       (''?clientOid='' @ or_client_order_id order) []) ''order'' (CbOrder (or_client_order_id order))
     else SendRequest (oe_request E ti GET (api_get_order_by_order_id (oee_api E) @ or_external_order_id order) [] [])
       ''order'' (CbOrder (or_client_order_id order)))"

definition known_orders :: "(8 word \<times> 64 word \<Rightarrow> oms_order option) \<Rightarrow> (8 word \<times> 64 word) list \<Rightarrow> oms_order list" where
  "known_orders lookup keys = List.map_filter lookup keys"

text \<open>What a stream asks the exchange, in order.\<close>

fun sent_of :: "effect \<Rightarrow> effect list" where
  "sent_of (SendRequest r name cb) = [SendRequest r name cb]"
| "sent_of _ = []"

lemma counted_query_asks:
  "counted_query E ti order c = Normal () (c\<lparr>trace := trace c @ [stale_query E ti order],
     oe_download_stale_orders_counter := oe_download_stale_orders_counter c + 1\<rparr>)"
  by (cases c) (simp add: counted_query_def get_order_def stale_query_def Let_def exec_simps)

lemma sent_stale_query [simp]: "sent_of (stale_query E ti order) = [stale_query E ti order]"
  and silent_stale_query [simp]: "notified_by (stale_query E ti order) = []"
  by (simp_all add: stale_query_def)

definition asks :: "order_entry_env \<Rightarrow> trace_info \<Rightarrow> oms_order list \<Rightarrow> effect list \<Rightarrow> bool" where
  "asks E ti orders as \<longleftrightarrow> seen sent_of as = map (stale_query E ti) orders \<and> seen notified_by as = []"

lemma query_loop:
  assumes "\<And>key tr. oee_find_order E key tr = lookup key"
  shows "\<exists>as. for_each keys (\<lambda>key. ask ''find_order'' (oee_find_order E key) (\<lambda>found. case found of
        None \<Rightarrow> skip | Some order \<Rightarrow> counted_query E ti order)) c
     = Normal () (c\<lparr>trace := trace c @ as,
         oe_download_stale_orders_counter := oe_download_stale_orders_counter c + length (known_orders lookup keys)\<rparr>)
     \<and> asks E ti (known_orders lookup keys) as"
proof (induction keys arbitrary: c)
  case Nil
  show ?case by (intro exI [of _ "[]"]) (simp add: known_orders_def map_filter_simps asks_def exec_simps)
next
  case (Cons key keys)
  show ?case
  proof (cases "lookup key")
    case None
    from Cons.IH [of "c\<lparr>trace := trace c @ [Call ''find_order'']\<rparr>"] obtain as where
      "for_each keys (\<lambda>key. ask ''find_order'' (oee_find_order E key) (\<lambda>found. case found of
        None \<Rightarrow> skip | Some order \<Rightarrow> counted_query E ti order)) (c\<lparr>trace := trace c @ [Call ''find_order'']\<rparr>)
       = Normal () (c\<lparr>trace := trace c @ [Call ''find_order''] @ as,
         oe_download_stale_orders_counter := oe_download_stale_orders_counter c + length (known_orders lookup keys)\<rparr>)"
      "asks E ti (known_orders lookup keys) as"
      by auto
    with None show ?thesis
      by (intro exI [of _ "Call ''find_order'' # as"])
        (simp add: known_orders_def map_filter_simps asks_def ask_run assms seqm_Normal exec_simps)
  next
    case (Some order)
    let ?c = "c\<lparr>trace := trace c @ [Call ''find_order'', stale_query E ti order],
      oe_download_stale_orders_counter := oe_download_stale_orders_counter c + 1\<rparr>"
    from Cons.IH [of ?c] obtain as where
      "for_each keys (\<lambda>key. ask ''find_order'' (oee_find_order E key) (\<lambda>found. case found of
        None \<Rightarrow> skip | Some order \<Rightarrow> counted_query E ti order)) ?c
       = Normal () (c\<lparr>trace := trace c @ [Call ''find_order'', stale_query E ti order] @ as,
         oe_download_stale_orders_counter := oe_download_stale_orders_counter c + 1 + length (known_orders lookup keys)\<rparr>)"
      "asks E ti (known_orders lookup keys) as"
      by auto
    with Some show ?thesis
      by (intro exI [of _ "Call ''find_order'' # stale_query E ti order # as"])
        (simp add: known_orders_def map_filter_simps asks_def ask_run assms seqm_Normal counted_query_asks exec_simps)
  qed
qed

lemma queue_pending:
  assumes "\<And>k tr. oee_check_pending E k tr \<longleftrightarrow> k = Req_StaleOrders"
  shows "oe_check_request_queue E ti c =
     bindm (query_stale_orders E ti) (\<lambda>u. check_pending E ''trades'' Req_Trades (get_fills E ti))
       (c\<lparr>trace := trace c @ [Call ''private_token.check_pending'', Call ''balances.check_pending'',
          Call ''positions.check_pending'', Call ''open_orders.check_pending'', Call ''stale_orders.check_pending'']\<rparr>)"
  by (simp add: oe_check_request_queue_def check_pending_def assms exec_simps)

lemma query_run:
  assumes "\<And>key tr. oee_find_order E key tr = lookup key"
  shows "\<exists>as. query_stale_orders E ti c = Normal () (c\<lparr>trace := trace c @ as, details_stale_orders := [],
         oe_download_stale_orders_counter :=
           oe_download_stale_orders_counter c + length (known_orders lookup (details_stale_orders c))\<rparr>)
     \<and> asks E ti (known_orders lookup (details_stale_orders c)) as"
proof -
  from query_loop [of E lookup "details_stale_orders c" ti c, OF assms] obtain as where
    run: "for_each (details_stale_orders c) (\<lambda>key. ask ''find_order'' (oee_find_order E key) (\<lambda>found. case found of
        None \<Rightarrow> skip | Some order \<Rightarrow> counted_query E ti order)) c
     = Normal () (c\<lparr>trace := trace c @ as, oe_download_stale_orders_counter :=
         oe_download_stale_orders_counter c + length (known_orders lookup (details_stale_orders c))\<rparr>)"
    and as: "asks E ti (known_orders lookup (details_stale_orders c)) as"
    by blast
  have "query_stale_orders E ti c = Normal () (c\<lparr>trace := trace c @ as, details_stale_orders := [],
         oe_download_stale_orders_counter :=
           oe_download_stale_orders_counter c + length (known_orders lookup (details_stale_orders c))\<rparr>)"
    unfolding query_stale_orders_def counted_query_def [symmetric]
    unfolding block.simps seqm_skip_right
    unfolding seqm_def bindm_def reading_def modify_def run by simp
  with as show ?thesis by blast
qed

lemma timer_asks:
  assumes "\<And>tr. conn_refresh (oee_connection E) tr" and "oe_is_ready c"
    and "\<And>k tr. oee_check_pending E k tr \<longleftrightarrow> k = Req_StaleOrders"
    and "\<And>key tr. oee_find_order E key tr = lookup key"
  shows "\<exists>as. order_entry_step E (OE_Timer ti) c = Normal () (c\<lparr>trace := trace c @ as, details_stale_orders := [],
         oe_download_stale_orders_counter :=
           oe_download_stale_orders_counter c + length (known_orders lookup (details_stale_orders c))\<rparr>)
     \<and> asks E ti (known_orders lookup (details_stale_orders c)) as"
proof -
  let ?calls = "[Call ''refresh'', Call ''private_token.check_pending'', Call ''balances.check_pending'',
     Call ''positions.check_pending'', Call ''open_orders.check_pending'', Call ''stale_orders.check_pending'']"
  from query_run [of E lookup ti "c\<lparr>trace := trace c @ ?calls\<rparr>", OF assms(4)] obtain as where
    run: "query_stale_orders E ti (c\<lparr>trace := trace c @ ?calls\<rparr>)
     = Normal () (c\<lparr>trace := trace c @ ?calls @ as, details_stale_orders := [], oe_download_stale_orders_counter :=
           oe_download_stale_orders_counter c + length (known_orders lookup (details_stale_orders c))\<rparr>)"
    and as: "asks E ti (known_orders lookup (details_stale_orders c)) as"
    by auto
  have "order_entry_step E (OE_Timer ti) c = Normal () (c\<lparr>trace := trace c @ ?calls @ as @ [Call ''trades.check_pending''],
      details_stale_orders := [], oe_download_stale_orders_counter :=
        oe_download_stale_orders_counter c + length (known_orders lookup (details_stale_orders c))\<rparr>)"
    using assms(2) run
    by (simp add: order_entry_step_def oe_is_ready_def queue_pending assms(1,3) check_pending_def ask_run exec_simps)
  with as show ?thesis
    by (intro exI [of _ "?calls @ as @ [Call ''trades.check_pending'']"]) (simp add: asks_def)
qed


subsection \<open>The two streams of an account\<close>

text \<open>The new keys of a tick of the drop copy: as the account's set has them after it.\<close>

definition collected :: "oms_order list \<Rightarrow> (8 word \<times> 64 word) list \<Rightarrow> (8 word \<times> 64 word) list" where
  "collected orders keys = fold insert_key (map order_key orders) keys"

lemma drop_copy_tick:
  assumes "gc_drop_copy s account = Some (D, d)" and "looks_for_stale D d ti"
    and "\<And>tr. dce_stale_orders D tr = orders"
  shows "\<exists>d' as t. on_drop_copy account (\<lambda>D. drop_copy_step D (DC_Timer ti now)) skip s = Normal () t
     \<and> gc_drop_copy t account = Some (D, d') \<and> trace d' = trace d @ as
     \<and> (ReqIssue Req_StaleOrders \<in> set as \<longleftrightarrow> \<not> order_key ` set orders \<subseteq> set (gc_details s account))
     \<and> gc_details t account = collected orders (gc_details s account)
     \<and> gc_order_entry_rest t = gc_order_entry_rest s"
proof -
  have "looks_for_stale D (lend account s d) ti"
    using assms(2) by (simp add: looks_for_stale_def lend_def dc_is_ready_def)
  from timer_collects [OF this assms(3), of now] obtain d' as where
    "drop_copy_step D (DC_Timer ti now) (lend account s d) = Normal () d'"
    "details_stale_orders d' = collected orders (gc_details s account)" "trace d' = trace d @ as"
    "ReqIssue Req_StaleOrders \<in> set as \<longleftrightarrow> \<not> order_key ` set orders \<subseteq> set (gc_details s account)"
    by (auto simp: lend_def collected_def)
  then show ?thesis
    using assms(1) by (simp add: on_drop_copy_def put_drop_copy_def reading_def zoom_def)
qed

lemma order_entry_tick:
  assumes "gc_order_entry_rest s account = Some (E, c)"
    and "\<And>tr. conn_refresh (oee_connection E) tr" and "oe_is_ready c"
    and "\<And>k tr. oee_check_pending E k tr \<longleftrightarrow> k = Req_StaleOrders"
    and "\<And>key tr. oee_find_order E key tr = lookup key"
  shows "\<exists>c' as t. on_order_entry_rest G account (\<lambda>E. order_entry_step E (OE_Timer ti)) skip s = Normal () t
     \<and> gc_order_entry_rest t account = Some (E, c') \<and> trace c' = trace c @ as
     \<and> asks E ti (known_orders lookup (gc_details s account)) as
     \<and> oe_download_stale_orders_counter c'
         = oe_download_stale_orders_counter c + length (known_orders lookup (gc_details s account))
     \<and> gc_details t account = []"
proof -
  let ?tr = "\<lambda>s. case gc_order_entry_rest s account of None \<Rightarrow> [] | Some (E, c) \<Rightarrow> trace c"
  let ?m = "reading id (\<lambda>s. case gc_order_entry_rest s account of
        None \<Rightarrow> skip
      | Some (E, c) \<Rightarrow> zoom (lend account s c) (put_order_entry_rest account E c) (order_entry_step E (OE_Timer ti)))"
  have "oe_is_ready (lend account s c)"
    using assms(3) by (simp add: lend_def oe_is_ready_def)
  from timer_asks [of E _ lookup ti, OF assms(2) this assms(4,5)] obtain as c' where
    c': "order_entry_step E (OE_Timer ti) (lend account s c) = Normal () c'" "trace c' = trace c @ as"
      "details_stale_orders c' = []" "oe_download_stale_orders_counter c'
         = oe_download_stale_orders_counter c + length (known_orders lookup (gc_details s account))"
      "asks E ti (known_orders lookup (gc_details s account)) as"
    by (auto simp: lend_def)
  let ?t = "put_order_entry_rest account E c c' s"
  have m: "?m s = Normal () ?t"
    using assms(1) c'(1) by (simp add: reading_def zoom_def)
  have "seen notified_by (drop (length (?tr s)) (?tr ?t)) = []"
    using assms(1) c'(2,5) by (simp add: put_order_entry_rest_def asks_def)
  with m have "relaying G ?tr ?m s = Normal () ?t"
    by (subst relaying_silent) auto
  then have "on_order_entry_rest G account (\<lambda>E. order_entry_step E (OE_Timer ti)) skip s = Normal () ?t"
    by (simp add: on_order_entry_rest_def)
  with c' show ?thesis
    by (simp add: put_order_entry_rest_def)
qed


lemma set_collected [simp]: "set (collected orders keys) = set keys \<union> order_key ` set orders"
  and distinct_collected: "distinct keys \<Longrightarrow> distinct (collected orders keys)"
proof -
  have "set (fold insert_key ks keys) = set keys \<union> set ks" "distinct keys \<Longrightarrow> distinct (fold insert_key ks keys)" for ks
    by (induction ks arbitrary: keys) auto
  then show "set (collected orders keys) = set keys \<union> order_key ` set orders"
    "distinct keys \<Longrightarrow> distinct (collected orders keys)"
    by (auto simp: collected_def)
qed



end
