(* ===== verification/Sessions.thy ===== *)
theory Sessions
  imports Market_Data Order_Entry_WS
begin

text \<open>
  Websocket sessions that run to their end. The assertions, fatal logs and noexcept handlers of a
  stream are so many ways to end the process; the interface \<open>socket_session\<close> is the contract of a
  stream that takes none of them as long as its events come in an order a connection can produce
  and its messages are ones the exchange may send: progress and preservation over the events, with
  an invariant that knows whether the connection is up. Two streams provide it.
\<close>

subsection \<open>The contract\<close>

text \<open>What an event says of the connection.\<close>

datatype link = Link_Up | Link_Down | Link_Same

fun link_after :: "link \<Rightarrow> bool \<Rightarrow> bool" where
  "link_after Link_Up up = True"
| "link_after Link_Down up = False"
| "link_after Link_Same up = up"

fun link_possible :: "link \<Rightarrow> bool \<Rightarrow> bool" where
  "link_possible Link_Up up = (\<not> up)"
| "link_possible Link_Down up = up"
| "link_possible Link_Same up = True"

fun session :: "('e \<Rightarrow> link) \<Rightarrow> (bool \<Rightarrow> 'e \<Rightarrow> bool) \<Rightarrow> bool \<Rightarrow> 'e list \<Rightarrow> bool" where
  "session link allowed up [] = True"
| "session link allowed up (e # es) =
     (link_possible (link e) up \<and> allowed up e \<and> session link allowed (link_after (link e) up) es)"

text \<open>A run that stops where the process ends.\<close>

fun run_alive :: "('e \<Rightarrow> ('s, exn, unit) stmt) \<Rightarrow> 'e list \<Rightarrow> 's \<Rightarrow> 's option" where
  "run_alive step [] s = Some s"
| "run_alive step (e # es) s = (if is_fatal (step e s) then None else run_alive step es (final_state (step e s)))"

locale socket_session =
  fixes step :: "'e \<Rightarrow> ('z ctx_scheme, exn, unit) stmt"
    and link :: "'e \<Rightarrow> link"
    and allowed :: "bool \<Rightarrow> 'e \<Rightarrow> bool"
    and holds :: "bool \<Rightarrow> 'z ctx_scheme \<Rightarrow> bool"
  assumes progress: "holds up s \<Longrightarrow> link_possible (link e) up \<Longrightarrow> allowed up e \<Longrightarrow> \<not> is_fatal (step e s)"
    and preservation: "holds up s \<Longrightarrow> link_possible (link e) up \<Longrightarrow> allowed up e \<Longrightarrow>
      holds (link_after (link e) up) (final_state (step e s))"
begin

lemma session_alive:
  "session link allowed up es \<Longrightarrow> holds up s \<Longrightarrow>
     \<exists>t. run_alive step es s = Some t \<and> t = run_events step es s \<and> (\<exists>up'. holds up' t)"
proof (induction es arbitrary: up s)
  case (Cons e es)
  then show ?case
    using progress [of up s e] preservation [of up s e] by auto
qed auto

lemma session_prefix: "session link allowed up (es @ fs) \<Longrightarrow> session link allowed up es"
  by (induction es arbitrary: up) auto

end

text \<open>
  What is known of a connection from outside: once a stream has reported anything better than
  a disconnect, the connection says that it is ready, until the disconnect is reported.
\<close>

definition link_reported :: "connection_status \<Rightarrow> bool" where
  "link_reported st \<longleftrightarrow> st \<noteq> ConnectionStatus_UNDEFINED \<and> st \<noteq> ConnectionStatus_DISCONNECTED"

definition link_answers :: "connection_env \<Rightarrow> bool" where
  "link_answers C \<longleftrightarrow> (\<forall>tr. link_reported (published tr) \<longrightarrow> conn_ready C tr)"

subsection \<open>Market data\<close>

fun md_link :: "market_data_event \<Rightarrow> link" where
  "md_link (MD_Connected ti) = Link_Up"
| "md_link (MD_Disconnected ti) = Link_Down"
| "md_link _ = Link_Same"

text \<open>The events of a public channel that are no reason to end the process.\<close>

definition public_event :: "market_data_env \<Rightarrow> ws_event \<Rightarrow> bool" where
  "public_event E ev = (case ev of
     Ev_Welcome \<Rightarrow> True
   | Ev_Error error \<Rightarrow> \<not> (er_code error = 401 \<and> er_data error = ''token is expired'' \<and> set_crash_on_expired_token (mde_settings E))
   | Ev_Pong \<Rightarrow> True
   | Ev_Ack i \<Rightarrow> True
   | Ev_TickerV2 data \<Rightarrow> True
   | Ev_Match data \<Rightarrow> True
   | Ev_MarkIndexPrice m \<Rightarrow> True
   | Ev_FundingRate m \<Rightarrow> True
   | Ev_Level2 m \<Rightarrow> (case split_change (mde_from_chars E) (l2_change m) of Inl e \<Rightarrow> False | Inr r \<Rightarrow> True)
   | Ev_FundingBegin data \<Rightarrow> True
   | Ev_FundingEnd data \<Rightarrow> True
   | Ev_Snapshot24h data \<Rightarrow> True
   | _ \<Rightarrow> False)"

definition public_text :: "market_data_env \<Rightarrow> string \<Rightarrow> bool" where
  "public_text E m = (case text_events (mde_decoders E) m (set_allow_unknown_event_types (mde_settings E)) of
     None \<Rightarrow> False | Some evs \<Rightarrow> list_all (public_event E) evs)"

fun md_allowed :: "market_data_env \<Rightarrow> bool \<Rightarrow> market_data_event \<Rightarrow> bool" where
  "md_allowed E up (MD_Text ti m) = (up \<and> public_text E m)"
| "md_allowed E up MD_Binary = False"
| "md_allowed E up _ = True"

definition md_session :: "bool \<Rightarrow> market_data \<Rightarrow> bool" where
  "md_session up s \<longleftrightarrow> md_consistent s \<and> (\<not> up \<longrightarrow> md_logon_timeout s = 0 \<and> \<not> md_welcome s)"

text \<open>The environment of a stream that can live: a ping period, sequencers that give up no symbol, a connection that answers.\<close>

definition md_able :: "market_data_env \<Rightarrow> bool" where
  "md_able E \<longleftrightarrow> 0 < mde_ping_frequency E \<and> link_answers (mde_connection E)
     \<and> (\<forall>tr. within_retries (mde_settings E) (sq_calls (mde_sequencer E tr)))"

lemma md_handle_returns:
  assumes "md_able E" and "public_event E ev"
  shows "returns (md_handle E ti ev s)"
proof (cases ev)
  case (Ev_Level2 m)
  with assms(2) obtain sd price quantity where "split_change (mde_from_chars E) (l2_change m) = Inr (sd, price, quantity)"
    by (auto simp: public_event_def split: sum.splits)
  note run = md_level2_run [OF this refl refl refl]
  have "returns (md_level2 E m t)" for t
  proof -
    obtain u where "md_level2 E m t = Normal () u" using assms(1) run [of t] unfolding md_able_def by blast
    then show ?thesis by simp
  qed
  with Ev_Level2 show ?thesis by (simp add: md_handle_def exec_simps)
next
  case Ev_Welcome
  then show ?thesis by (simp add: md_handle_def md_welcome_message_run md_subscribe_returns)
qed (use assms in \<open>auto simp: md_handle_def md_error_def public_event_def exec_simps\<close>)

lemma returns_not_fatal: "returns r \<Longrightarrow> \<not> is_fatal r"
  by (cases r) simp_all

lemma md_parse_alive:
  assumes "md_able E" and "public_text E m"
  shows "\<not> is_fatal (md_parse E ti m s)"
proof -
  obtain evs where evs: "text_events (mde_decoders E) m (set_allow_unknown_event_types (mde_settings E)) = Some evs"
    and public: "list_all (public_event E) evs"
    using assms(2) by (auto simp: public_text_def split: option.splits)
  show ?thesis
  proof (cases evs)
    case Nil
    with text_events_any [OF evs, of "md_handle E ti" s] show ?thesis by (simp add: md_parse_def exec_simps)
  next
    case (Cons ev rest)
    with public have "returns (md_handle E ti ev s)" by (intro md_handle_returns [OF assms(1)]) simp
    with Cons text_events_any [OF evs, of "md_handle E ti" s] show ?thesis
      by (cases "md_handle E ti ev s") (simp_all add: md_parse_def exec_simps)
  qed
qed

lemma md_timer_alive:
  assumes "md_able E" and "md_consistent s"
  shows "\<not> is_fatal (md_timer E now s)"
proof -
  have "conn_ready (mde_connection E) (trace s @ [Call ''refresh'', Call ''ready''])" if "md_welcome s"
    using assms that by (auto simp: md_able_def link_answers_def link_reported_def md_consistent_def published_append)
  with assms(1) show ?thesis
    by (auto simp: md_timer_def md_check_ping_run md_check_subscribe_queue_run md_able_def exec_simps)
qed

lemma md_quiet_down:
  assumes "md_session False s" and "md_link e = Link_Same" and "md_allowed E False e"
  shows "md_logon_timeout (final_state (market_data_step E e s)) = 0 \<and> \<not> md_welcome (final_state (market_data_step E e s))"
  using assms by (cases e) (auto simp: md_session_def market_data_step_def md_timer_def md_subscribe_def md_is_ready_def
    md_consistent_def exec_simps)

interpretation md_socket: socket_session "market_data_step E" md_link "md_allowed E" "\<lambda>up s. md_able E \<and> md_session up s" for E
proof
  fix up s e
  assume s: "md_able E \<and> md_session up s" and e: "link_possible (md_link e) up" "md_allowed E up e"
  then show "\<not> is_fatal (market_data_step E e s)"
    using md_parse_alive [of E] md_timer_alive [of E s]
    by (cases e) (auto simp: market_data_step_def md_session_def md_connected_def md_disconnected_run exec_simps
      dest: returns_not_fatal [OF md_subscribe_returns, THEN notE])
  have "md_consistent (final_state (market_data_step E e s))"
    using s by (intro keepsD [OF market_data_consistent_kept]) (simp add: md_session_def)
  then show "md_able E \<and> md_session (link_after (md_link e) up) (final_state (market_data_step E e s))"
    using s e md_quiet_down [of s e E]
    by (cases e; cases up) (auto simp: md_session_def market_data_step_def md_disconnected_run)
qed

subsection \<open>Order entry over the websocket\<close>

fun ow_link :: "order_entry_ws_event \<Rightarrow> link" where
  "ow_link (OW_Connected ti) = Link_Up"
| "ow_link (OW_Disconnected ti) = Link_Down"
| "ow_link _ = Link_Same"

definition api_event :: "order_entry_ws_env \<Rightarrow> ws_api_event \<Rightarrow> bool" where
  "api_event E ev = (case ev of
     Ws_Welcome ping_interval_ms \<Rightarrow> 0 < ping_interval_ms
   | Ws_Error error \<Rightarrow> \<not> (we_op error = WSOp_UNDEFINED_INTERNAL \<and> is_auth_error (we_code error)
       \<and> \<not> set_retry_logon (owe_settings E))
   | _ \<Rightarrow> True)"

definition api_text :: "order_entry_ws_env \<Rightarrow> string \<Rightarrow> bool" where
  "api_text E m = (case ws_text_events (owe_decoders E) m of None \<Rightarrow> False | Some evs \<Rightarrow> list_all (api_event E) evs)"

fun ow_allowed :: "order_entry_ws_env \<Rightarrow> bool \<Rightarrow> order_entry_ws_event \<Rightarrow> bool" where
  "ow_allowed E up (OW_Text ti m) = (up \<and> api_text E m)"
| "ow_allowed E up (OW_Action a) = has_order_type a"
| "ow_allowed E up OW_Binary = False"
| "ow_allowed E up _ = True"

definition ow_alive :: "bool \<Rightarrow> order_entry_ws \<Rightarrow> bool" where
  "ow_alive up s \<longleftrightarrow> (\<not> up \<longrightarrow> ow_logon_timeout s = 0 \<and> \<not> ow_welcome s)
     \<and> (ow_welcome s \<longrightarrow> 0 < ow_ping_freq s \<and> link_reported (published (trace s)))"

lemma ow_handle_alive:
  assumes "api_event E ev" and "ow_alive True s"
  shows "\<exists>t. ow_handle E ti ev s = Normal () t \<and> ow_alive True t"
  using assms
  by (cases ev) (auto simp: ow_handle_def ow_auth_def ow_welcome_message_def ow_error_def ow_add_order_ack_def
    ow_cancel_order_ack_def ow_report_run api_event_def ow_alive_def link_reported_def ns_of_ms_def published_append
    exec_simps Let_def split: json_ws_op.split)

lemma ow_parse_alive:
  assumes "api_text E m" and "ow_alive True s"
  shows "\<exists>t. ow_parse E ti m s = Normal () t \<and> ow_alive True t"
proof -
  obtain evs where evs: "ws_text_events (owe_decoders E) m = Some evs" and ok: "list_all (api_event E) evs"
    using assms(1) by (auto simp: api_text_def split: option.splits)
  note parsed = ws_text_events_any [OF evs, of "ow_handle E ti" "set_allow_unknown_event_types (owe_settings E)" s]
  show ?thesis
  proof (cases evs)
    case Nil
    with parsed assms(2) show ?thesis by (simp add: ow_parse_def exec_simps)
  next
    case (Cons ev rest)
    with ok ow_handle_alive [OF _ assms(2), of E ev ti] obtain t where "ow_handle E ti ev s = Normal () t" "ow_alive True t"
      by auto
    with Cons parsed show ?thesis by (simp add: ow_parse_def exec_simps)
  qed
qed

lemma ow_action_alive:
  assumes "has_order_type a" and "ow_alive up s"
  shows "\<not> is_fatal (ow_action E a s) \<and> ow_alive up (final_state (ow_action E a s))"
  using assms by (cases a) (auto simp: ow_action_def ws_add_order_renders ow_alive_def exec_simps)

lemma ow_timer_alive:
  assumes "link_answers (owe_connection E)" and "ow_alive up s"
  shows "\<not> is_fatal (ow_timer E now s) \<and> ow_alive up (final_state (ow_timer E now s))"
proof -
  have "conn_ready (owe_connection E) (trace s @ [Call ''refresh'', Call ''ready''])" if "ow_welcome s"
    using assms that by (auto simp: link_answers_def ow_alive_def published_append)
  with assms(2) show ?thesis
    by (auto simp: ow_timer_def ow_send_ping_def ow_alive_def published_append exec_simps)
qed

interpretation ow_socket: socket_session "order_entry_ws_step E" ow_link "ow_allowed E"
  "\<lambda>up s. link_answers (owe_connection E) \<and> ow_alive up s" for E
proof
  fix up s e
  assume s: "link_answers (owe_connection E) \<and> ow_alive up s" and e: "link_possible (ow_link e) up" "ow_allowed E up e"
  have "\<not> is_fatal (order_entry_ws_step E e s) \<and> ow_alive (link_after (ow_link e) up) (final_state (order_entry_ws_step E e s))"
  proof (cases e)
    case (OW_Text ti m)
    with s e ow_parse_alive [of E m s ti] show ?thesis by (auto simp: order_entry_ws_step_def)
  next
    case (OW_Timer ti now)
    with s ow_timer_alive [of E up s now] show ?thesis by (simp add: order_entry_ws_step_def)
  next
    case (OW_Action a)
    with s e ow_action_alive [of a up s E] show ?thesis
      by (cases "ow_action E a s") (auto simp: order_entry_ws_step_def exec_simps)
  qed (use s e in \<open>auto simp: order_entry_ws_step_def ow_connected_def ow_disconnected_def ow_report_run ow_alive_def
    link_reported_def published_append exec_simps\<close>)
  then show "\<not> is_fatal (order_entry_ws_step E e s)"
    and "link_answers (owe_connection E) \<and> ow_alive (link_after (ow_link e) up) (final_state (order_entry_ws_step E e s))"
    using s by auto
qed

subsection \<open>Properties\<close>

text \<open>
  A market data stream lives through every session of its connection. Over any sequence of events
  in which the connection goes up and down in turn, texts arrive while it is up, every text is
  one the public channels may send, and no frame is binary, no assertion and no fatal log is met
  and no exception leaves a noexcept handler, so that every event is handled; this needs a ping
  period, a sequencer that gives up on no symbol and a connection that is ready once it reports.
\<close>

theorem market_data_session_survives:
  assumes "MarketData_create E = Some s" and "md_able E" and "session md_link (md_allowed E) False es"
  shows "\<exists>t. run_alive (market_data_step E) es s = Some t \<and> t = run_events (market_data_step E) es s"
proof -
  have "md_session False s"
    using assms(1) by (auto simp: MarketData_create_def md_session_def md_consistent_def split: if_splits)
  with md_socket.session_alive [OF assms(3), of s] assms(2) show ?thesis by blast
qed

theorem market_data_session_survives_witness:
  "run_alive (market_data_step sample_market_data_env)
     [MD_Start, MD_Connected sample_trace_info, MD_Text sample_trace_info ''welcome'', MD_Timer sample_trace_info 9,
      MD_Disconnected sample_trace_info, MD_Connected sample_trace_info] sample_market_data \<noteq> None"
proof -
  have able: "md_able sample_market_data_env"
    by (simp add: md_able_def link_answers_def sample_market_data_env_def sample_connection_def sample_settings_def
      within_retries_def ns_of_s_def)
  have "public_text sample_market_data_env ''welcome''"
    by (simp add: public_text_def text_events_def recorded_def parser_dispatch_def sample_market_data_env_def no_decoders_def
      public_event_def exec_simps)
  with market_data_session_survives [OF sample_market_data_create able, of
    "[MD_Start, MD_Connected sample_trace_info, MD_Text sample_trace_info ''welcome'', MD_Timer sample_trace_info 9,
      MD_Disconnected sample_trace_info, MD_Connected sample_trace_info]"]
  show ?thesis by auto
qed

text \<open>
  A websocket order stream lives through every session of its connection: with the events in
  an order a connection can produce, welcomes that set a ping period, no authentication error unless
  the logon is retried, and actions whose creates have an order type, no event ends the process.
\<close>

theorem ws_session_survives:
  assumes "link_answers (owe_connection E)" and "session ow_link (ow_allowed E) False es"
  shows "\<exists>t. run_alive (order_entry_ws_step E) es OrderEntryWS_create = Some t
     \<and> t = run_events (order_entry_ws_step E) es OrderEntryWS_create"
proof -
  have "ow_alive False OrderEntryWS_create"
    by (simp add: ow_alive_def OrderEntryWS_create_def)
  with ow_socket.session_alive [OF assms(2), of OrderEntryWS_create] assms(1) show ?thesis by blast
qed

theorem ws_session_survives_witness:
  "run_alive (order_entry_ws_step sample_order_entry_ws_env)
     [OW_Start, OW_Connected sample_trace_info, OW_Text sample_trace_info ''high'', OW_Timer sample_trace_info 9,
      OW_Disconnected sample_trace_info] OrderEntryWS_create \<noteq> None"
proof -
  have answers: "link_answers (owe_connection sample_order_entry_ws_env)"
    by (simp add: link_answers_def sample_order_entry_ws_env_def sample_connection_def)
  have "api_text sample_order_entry_ws_env ''high''"
    by (simp add: api_text_def ws_text_events_def recorded_def ws_parser_dispatch_def sample_order_entry_ws_env_def
      no_ws_decoders_def api_event_def CODE_SUCCESS_def exec_simps)
  with ws_session_survives [OF answers, of
    "[OW_Start, OW_Connected sample_trace_info, OW_Text sample_trace_info ''high'', OW_Timer sample_trace_info 9,
      OW_Disconnected sample_trace_info]"]
  show ?thesis by auto
qed

end
