(* ===== verification/Orderly_Runs.thy ===== *)
theory Orderly_Runs
  imports Sessions Gateway
begin

text \<open>
  Runs in which the outside world keeps its side. What an event may be depends on a phase, which
  the events move on (a connection that is down, up or welcomed), and on the state; the interface
  \<open>orderly_process\<close> asks of a component progress and preservation under such events, and promises
  that no orderly run ends the process. The interfaces of \<open>Sessions\<close> are instances; here the other
  three streams provide it, and in \<open>Gateway_Safety\<close> the gateway as a whole.
\<close>

subsection \<open>The contract\<close>

inductive orderly :: "('e \<Rightarrow> ('s, exn, unit) stmt) \<Rightarrow> ('p \<Rightarrow> 's \<Rightarrow> 'e \<Rightarrow> 'p) \<Rightarrow> ('p \<Rightarrow> 's \<Rightarrow> 'e \<Rightarrow> bool) \<Rightarrow> 'p \<Rightarrow> 's \<Rightarrow> 'p \<Rightarrow> 's \<Rightarrow> bool"
  for step after allowed p0 s0 where
  orderly_start: "orderly step after allowed p0 s0 p0 s0"
| orderly_event: "orderly step after allowed p0 s0 p s \<Longrightarrow> allowed p s e \<Longrightarrow>
    orderly step after allowed p0 s0 (after p s e) (final_state (step e s))"

locale orderly_process =
  fixes step :: "'e \<Rightarrow> ('s, exn, unit) stmt"
    and after :: "'p \<Rightarrow> 's \<Rightarrow> 'e \<Rightarrow> 'p"
    and allowed :: "'p \<Rightarrow> 's \<Rightarrow> 'e \<Rightarrow> bool"
    and holds :: "'p \<Rightarrow> 's \<Rightarrow> bool"
  assumes lives: "holds p s \<Longrightarrow> allowed p s e \<Longrightarrow> \<not> is_fatal (step e s)"
    and keeps_order: "holds p s \<Longrightarrow> allowed p s e \<Longrightarrow> holds (after p s e) (final_state (step e s))"
begin

lemma orderly_holds: "orderly step after allowed p0 s0 p s \<Longrightarrow> holds p0 s0 \<Longrightarrow> holds p s"
  by (induction rule: orderly.induct) (auto intro: keeps_order)

lemma orderly_lives:
  "orderly step after allowed p0 s0 p s \<Longrightarrow> holds p0 s0 \<Longrightarrow> allowed p s e \<Longrightarrow> \<not> is_fatal (step e s)"
  by (rule lives [OF orderly_holds])

end

sublocale socket_session \<subseteq> run: orderly_process step "\<lambda>up s e. link_after (link e) up"
  "\<lambda>up s e. link_possible (link e) up \<and> allowed up e" holds
  by unfold_locales (use progress preservation in blast)+

subsection \<open>Statements that do not end the process\<close>

definition safely :: "('s \<Rightarrow> bool) \<Rightarrow> ('s, 'e, 'a) stmt \<Rightarrow> bool" where
  "safely I m \<longleftrightarrow> (\<forall>s. I s \<longrightarrow> \<not> is_fatal (m s) \<and> I (final_state (m s)))"

named_theorems safely_intros "rules for statements that keep an invariant and do not end the process"

lemma safelyI: "(\<And>s. I s \<Longrightarrow> \<not> is_fatal (m s) \<and> I (final_state (m s))) \<Longrightarrow> safely I m"
  by (simp add: safely_def)

lemma safelyD: "safely I m \<Longrightarrow> I s \<Longrightarrow> \<not> is_fatal (m s) \<and> I (final_state (m s))"
  by (simp add: safely_def)

lemma safely_leaf [safely_intros]:
  "safely I (ret a)" "safely I skip" "safely I (throw e)" "safely I (lift_sum r)"
  by (auto simp: safely_def ret_def skip_def throw_def lift_sum_def split: sum.split)

lemma safely_bindm [safely_intros]:
  assumes "safely I m" and "\<And>a. safely I (f a)"
  shows "safely I (bindm m f)"
proof (rule safelyI)
  fix s assume "I s"
  with safelyD [OF assms(1), of s] safelyD [OF assms(2)] show "\<not> is_fatal (bindm m f s) \<and> I (final_state (bindm m f s))"
    by (cases "m s") (auto simp: bindm_def)
qed

lemma safely_seqm [safely_intros]: "safely I m \<Longrightarrow> safely I n \<Longrightarrow> safely I (seqm m n)"
  unfolding seqm_def by (rule safely_bindm)

lemma safely_try_catch [safely_intros]:
  assumes "safely I m" and "\<And>e. safely I (h e)"
  shows "safely I (try_catch m h)"
proof (rule safelyI)
  fix s assume "I s"
  with safelyD [OF assms(1), of s] safelyD [OF assms(2)] show "\<not> is_fatal (try_catch m h s) \<and> I (final_state (try_catch m h s))"
    by (cases "m s") (auto simp: try_catch_def)
qed

lemma safely_reading [safely_intros]: "(\<And>b. safely I (k b)) \<Longrightarrow> safely I (reading f k)"
  by (simp add: safely_def reading_def)

lemma safely_whenm [safely_intros]: "(c \<Longrightarrow> safely I m) \<Longrightarrow> safely I (whenm c m)"
  by (cases c) (auto simp: whenm_def safely_def)

lemma safely_if [safely_intros]: "(c \<Longrightarrow> safely I m) \<Longrightarrow> (\<not> c \<Longrightarrow> safely I n) \<Longrightarrow> safely I (if c then m else n)"
  by simp

lemma safely_block: "(\<And>c. c \<in> set cs \<Longrightarrow> safely I c) \<Longrightarrow> safely I (block cs)"
  by (induction cs) (auto intro!: safely_intros)

lemma safely_for_each [safely_intros]: "(\<And>x. x \<in> set xs \<Longrightarrow> safely I (body x)) \<Longrightarrow> safely I (for_each xs body)"
  by (induction xs) (auto intro!: safely_intros)

lemma safely_modify: "(\<And>s. I s \<Longrightarrow> I (f s)) \<Longrightarrow> safely I (modify f)"
  by (simp add: safely_def modify_def)

text \<open>A REST answer that is not a redirection; what its handlers do is safe.\<close>

definition carries :: "rest_response \<Rightarrow> string \<Rightarrow> bool" where
  "carries response body \<longleftrightarrow> (\<exists>status. rr_result response = Inr (status, SUCCESS, body)
     \<or> rr_result response = Inr (status, CLIENT_ERROR, body))"

lemma safely_response_switch [safely_intros]:
  assumes "\<not> redirected response" and "\<And>a b c d. safely I (err a b c d)" and "\<And>body. carries response body \<Longrightarrow> safely I (ok body)"
  shows "safely I (response_switch response err ok)"
proof (cases "rr_result response")
  case (Inl e)
  then show ?thesis by (simp add: response_switch_def lift_sum_def bindm_def throw_def safely_def)
next
  case (Inr a)
  obtain status category body where a: "a = (status, category, body)" by (cases a)
  have "safely I (case category of
         Category_UNKNOWN \<Rightarrow> lift_sum (rr_expect_ok response)
       | INFORMATIONAL_RESPONSE \<Rightarrow> lift_sum (rr_expect_ok response)
       | SUCCESS \<Rightarrow> ok body
       | REDIRECTION \<Rightarrow> fatal ''Unexpected: URL is being redirected''
       | CLIENT_ERROR \<Rightarrow> ok body
       | SERVER_ERROR \<Rightarrow> err Origin_EXCHANGE RequestStatus_REJECTED Error_UNKNOWN status)"
    using assms Inr a by (cases category) (auto simp: redirected_def carries_def safely_leaf)
  with Inr a show ?thesis by (simp add: response_switch_def lift_sum_def bindm_def ret_def safely_def)
qed

lemma safely_process_response [safely_intros]:
  "\<not> redirected response \<Longrightarrow> (\<And>a b c d. safely I (err a b c d)) \<Longrightarrow> (\<And>body. carries response body \<Longrightarrow> safely I (ok body)) \<Longrightarrow>
     safely I (process_response oms response err ok)"
  unfolding process_response_def by (auto intro!: safely_intros split: exn.split prod.split)

lemma safely_rest_process_response [safely_intros]:
  "\<not> redirected response \<Longrightarrow> (\<And>a b c d. safely I (err a b c d)) \<Longrightarrow> (\<And>body. carries response body \<Longrightarrow> safely I (ok body)) \<Longrightarrow>
     safely I (rest_process_response response err ok)"
  unfolding rest_process_response_def by (auto intro!: safely_intros split: exn.split)

subsection \<open>Drop copy\<close>

text \<open>
  What the trace says of the download since the connection was last lost: how often it was begun,
  and whether the end was reported.
\<close>

fun begun_step :: "nat \<times> bool \<Rightarrow> effect \<Rightarrow> nat \<times> bool" where
  "begun_step (n, fin) DlBegin = (n + 1, fin)"
| "begun_step (n, fin) DlReset = (0, False)"
| "begun_step (n, fin) (Dispatch (U_StreamStatus ss)) = (n, fin \<or> ss_connection_status ss = ConnectionStatus_READY)"
| "begun_step r a = r"

definition begins :: "effect list \<Rightarrow> nat" where
  "begins tr = fst (foldl begun_step (0, False) tr)"

definition finished :: "effect list \<Rightarrow> bool" where
  "finished tr = snd (foldl begun_step (0, False) tr)"

text \<open>
  What is relied on of the download object: begun once on a connection, it calls for no undefined
  state and reaches the end once.
\<close>

primrec dl_proper :: "bool \<Rightarrow> dc_state dl_run \<Rightarrow> bool" where
  "dl_proper fin DlDone = True"
| "dl_proper fin (DlCall st k) =
     (st \<noteq> DC_UNDEFINED \<and> \<not> (fin \<and> st = DC_DONE) \<and> (\<forall>n. dl_proper (fin \<or> st = DC_DONE) (k n)))"

definition dc_able :: "drop_copy_env \<Rightarrow> bool" where
  "dc_able E \<longleftrightarrow> 0 < dce_ping_frequency E \<and> (\<forall>tr. begins tr \<noteq> 0 \<longrightarrow> conn_ready (dce_connection E) tr)
     \<and> (\<forall>tr. begins tr \<le> 1 \<longrightarrow> dl_proper (finished tr) (dce_download E tr))"

text \<open>The events of a private channel that are no reason to end the process.\<close>

fun private_event :: "drop_copy_env \<Rightarrow> ws_event \<Rightarrow> bool" where
  "private_event E Ev_Welcome = True"
| "private_event E (Ev_Error error) =
     (\<not> (er_code error = 401 \<and> er_data error = ''token is expired'' \<and> set_crash_on_expired_token (dce_settings E)))"
| "private_event E Ev_Pong = True"
| "private_event E (Ev_Ack i) = True"
| "private_event E (Ev_WalletBalanceChange data) = True"
| "private_event E Ev_OrderMarginChange = True"
| "private_event E Ev_AvailableBalanceChange = True"
| "private_event E Ev_WithdrawHoldChange = True"
| "private_event E (Ev_PositionChange data) = True"
| "private_event E Ev_PositionSettlement = True"
| "private_event E Ev_PositionAdjustRiskLimit = True"
| "private_event E (Ev_SymbolOrderChange data) = True"
| "private_event E (Ev_OrderChange data) = True"
| "private_event E _ = False"

datatype dc_phase = Dc_Down | Dc_Up | Dc_Welcomed

definition dc_events :: "drop_copy_env \<Rightarrow> string \<Rightarrow> ws_event list option" where
  "dc_events E m = text_events (dce_decoders E) m (set_allow_unknown_event_types (dce_settings E))"

definition dc_welcomes :: "drop_copy_env \<Rightarrow> string \<Rightarrow> bool" where
  "dc_welcomes E m \<longleftrightarrow> (case dc_events E m of Some (Ev_Welcome # evs) \<Rightarrow> True | _ \<Rightarrow> False)"

definition private_text :: "drop_copy_env \<Rightarrow> string \<Rightarrow> bool" where
  "private_text E m \<longleftrightarrow> (case dc_events E m of None \<Rightarrow> False | Some evs \<Rightarrow> list_all (private_event E) evs)"

text \<open>
  The one thing the drop copy asks of the account's REST stream: when a tick finds the slot of
  stale orders answered while the download waits for it, the set is empty. The trace is the one
  at which the tick asks.
\<close>

definition dc_asked_at :: "drop_copy \<Rightarrow> int \<Rightarrow> effect list" where
  "dc_asked_at s now = trace s @ [Call ''refresh'', Call ''ready'']
     @ (if dc_welcome s \<and> dc_next_ping s < now then [SendText (ping_message now)] else []) @ [Call ''download.state'']"

definition stale_answered :: "drop_copy_env \<Rightarrow> drop_copy \<Rightarrow> int \<Rightarrow> bool" where
  "stale_answered E s now \<longleftrightarrow> conn_refresh (dce_connection E) (trace s @ [Call ''refresh''])
     \<and> conn_ready (dce_connection E) (trace s @ [Call ''refresh'', Call ''ready''])
     \<and> dce_download_state E (dc_asked_at s now) = GET_STALE_ORDERS
     \<and> dce_has_response E Req_StaleOrders (dc_asked_at s now @ [Call ''stale_orders.has_response''])"

fun dc_after :: "drop_copy_env \<Rightarrow> dc_phase \<Rightarrow> drop_copy_event \<Rightarrow> dc_phase" where
  "dc_after E p (DC_Connected ti) = Dc_Up"
| "dc_after E p (DC_Disconnected ti) = Dc_Down"
| "dc_after E p (DC_Text ti m) = (if dc_welcomes E m then Dc_Welcomed else p)"
| "dc_after E p e = p"

fun dc_allowed :: "drop_copy_env \<Rightarrow> dc_phase \<Rightarrow> drop_copy \<Rightarrow> drop_copy_event \<Rightarrow> bool" where
  "dc_allowed E p s (DC_Connected ti) = (p = Dc_Down)"
| "dc_allowed E p s (DC_Disconnected ti) = (p \<noteq> Dc_Down)"
| "dc_allowed E p s (DC_Text ti m) = (p \<noteq> Dc_Down \<and> private_text E m \<and> \<not> (dc_welcomes E m \<and> p = Dc_Welcomed))"
| "dc_allowed E p s (DC_Timer ti now) = (\<not> (stale_answered E s now \<and> details_stale_orders s \<noteq> []))"
| "dc_allowed E p s DC_Binary = False"
| "dc_allowed E p s e = True"

definition dc_orderly :: "dc_phase \<Rightarrow> drop_copy \<Rightarrow> bool" where
  "dc_orderly p s \<longleftrightarrow> (p = Dc_Down \<longrightarrow> dc_logon_timeout s = 0) \<and> (dc_welcome s \<longleftrightarrow> p = Dc_Welcomed)
     \<and> (dc_ready s \<longrightarrow> finished (trace s)) \<and> begins (trace s) = (if p = Dc_Welcomed then 1 else 0)"

lemma begun_append:
  "begins (tr @ as) = fst (foldl begun_step (begins tr, finished tr) as)"
  "finished (tr @ as) = snd (foldl begun_step (begins tr, finished tr) as)"
  by (simp_all add: begins_def finished_def)

lemma dc_orderly_report:
  "\<exists>t. dc_report E ti st reason s = Normal () t \<and> (dc_orderly p s \<longrightarrow> dc_orderly p t) \<and> dc_ready t = dc_ready s"
  by (auto simp: dc_report_run dc_orderly_def begun_append)

lemma dc_download_orderly:
  assumes "dc_orderly p s" and "st \<noteq> DC_UNDEFINED" and "\<not> (dc_ready s \<and> st = DC_DONE)"
  shows "\<exists>n t. dc_download E ti st s = Normal n t \<and> dc_orderly p t \<and> (dc_ready t \<longrightarrow> dc_ready s \<or> st = DC_DONE)"
  using assms
  by (cases st) (auto simp: dc_download_def Let_def dc_report_run dc_subscribe_def dc_orderly_def begun_append
    make_stream_status_def exec_simps)

lemma run_download_orderly:
  assumes "dl_proper fin r" and "dc_orderly p s" and "dc_ready s \<longrightarrow> fin"
  shows "\<exists>t. run_download (dc_download E ti) r s = Normal () t \<and> dc_orderly p t"
  using assms
proof (induction r arbitrary: fin s)
  case DlDone
  then show ?case by (simp add: exec_simps)
next
  case (DlCall st k)
  from dc_download_orderly [OF DlCall.prems(2), of st E ti] DlCall.prems obtain n t where
    t: "dc_download E ti st s = Normal n t" "dc_orderly p t" "dc_ready t \<longrightarrow> fin \<or> st = DC_DONE"
    by auto
  from DlCall.prems(1) have "dl_proper (fin \<or> st = DC_DONE) (k n)" by simp
  from DlCall.IH [OF rangeI this t(2,3)] t(1) show ?case by (simp add: bindm_def)
qed

lemma dc_download_call_orderly:
  assumes "dc_able E" and "dc_orderly p (s\<lparr>trace := trace s @ [a]\<rparr>)"
  shows "\<exists>t. dc_download_call E ti a s = Normal () t \<and> dc_orderly p t"
proof -
  let ?s = "s\<lparr>trace := trace s @ [a]\<rparr>"
  have "begins (trace ?s) \<le> 1" "dc_ready ?s \<longrightarrow> finished (trace ?s)"
    using assms(2) by (auto simp: dc_orderly_def)
  with assms(1) have "dl_proper (finished (trace ?s)) (dce_download E (trace ?s))"
    by (simp add: dc_able_def)
  from run_download_orderly [OF this assms(2)] assms(2) show ?thesis
    by (simp add: dc_download_call_def dc_orderly_def exec_simps)
qed

lemma dc_download_check_orderly:
  assumes "dc_able E" and "dc_orderly p s"
  shows "\<exists>t. dc_download_check E ti st s = Normal () t \<and> dc_orderly p t"
  unfolding dc_download_check_def
  by (rule dc_download_call_orderly [OF assms(1)]) (use assms(2) in \<open>simp add: dc_orderly_def begun_append\<close>)

lemma dc_handle_orderly:
  assumes "dc_able E" and "dc_orderly p s" and "private_event E ev" and "p \<noteq> Dc_Down"
    and "\<not> (ev = Ev_Welcome \<and> p = Dc_Welcomed)"
  shows "\<exists>t. dc_handle E ti ev s = Normal () t \<and> dc_orderly (if ev = Ev_Welcome then Dc_Welcomed else p) t"
proof (cases ev)
  case Ev_Welcome
  have "dc_orderly Dc_Welcomed (s\<lparr>dc_welcome := True, trace := trace s @ [DlBegin]\<rparr>)"
    using assms Ev_Welcome by (cases p) (auto simp: dc_orderly_def begun_append)
  with Ev_Welcome dc_download_call_orderly [OF assms(1), of Dc_Welcomed "s\<lparr>dc_welcome := True\<rparr>" DlBegin ti] show ?thesis
    by (simp add: dc_handle_def exec_simps)
next
  case (Ev_Ack i)
  with assms(2) dc_download_check_orderly [OF assms(1,2)] show ?thesis
    by (auto simp: dc_handle_def exec_simps split: option.split)
qed (use assms in \<open>auto simp: dc_handle_def dc_error_def dc_request_private_token_run dc_order_change_run dc_orderly_def
  begun_append Let_def exec_simps split: option.splits\<close>)

lemma dc_parse_orderly:
  assumes "dc_able E" and "dc_orderly p s" and "dc_allowed E p s (DC_Text ti m)"
  shows "\<exists>t. dc_parse E ti m s = Normal () t \<and> dc_orderly (dc_after E p (DC_Text ti m)) t"
proof -
  obtain evs where evs: "dc_events E m = Some evs" and ok: "list_all (private_event E) evs"
    using assms(3) by (auto simp: private_text_def split: option.splits)
  note parsed = text_events_any [OF evs [unfolded dc_events_def], of "dc_handle E ti" s]
  show ?thesis
  proof (cases evs)
    case Nil
    with parsed assms(2) evs show ?thesis by (simp add: dc_parse_def dc_welcomes_def exec_simps)
  next
    case (Cons ev rest)
    have greeting: "dc_welcomes E m \<longleftrightarrow> ev = Ev_Welcome"
      using evs Cons by (cases ev) (simp_all add: dc_welcomes_def)
    with ok Cons assms(3) dc_handle_orderly [OF assms(1,2), of ev ti] obtain t where
      "dc_handle E ti ev s = Normal () t" "dc_orderly (if ev = Ev_Welcome then Dc_Welcomed else p) t"
      by auto
    with Cons parsed greeting show ?thesis by (auto simp: dc_parse_def exec_simps)
  qed
qed

lemma dc_collect_orderly:
  assumes "dc_orderly p s"
  shows "\<exists>found t. dc_collect_stale_orders E s = Normal found t \<and> dc_orderly p t"
  using assms by (simp add: dc_collect_run Let_def dc_orderly_def begun_append)

lemma dc_queue_orderly:
  assumes "dc_able E" and "dc_orderly p s"
    and "\<not> (dce_download_state E (trace s @ [Call ''download.state'']) = GET_STALE_ORDERS
      \<and> dce_has_response E Req_StaleOrders (trace s @ [Call ''download.state'', Call ''stale_orders.has_response''])
      \<and> details_stale_orders s \<noteq> [])"
  shows "\<exists>t. dc_check_request_queue E ti s = Normal () t \<and> dc_orderly p t"
proof -
  let ?s = "s\<lparr>trace := trace s @ [Call ''download.state'']\<rparr>"
  let ?t = "\<lambda>name. s\<lparr>trace := trace s @ [Call ''download.state'', Call name]\<rparr>"
  have calls: "dc_orderly p ?s" "dc_orderly p (?t name)" for name
    using assms(2) by (simp_all add: dc_orderly_def begun_append)
  note check = dc_download_check_orderly [OF assms(1)]
  have collect: "\<exists>t. bindm (dc_collect_stale_orders E) (\<lambda>found. dc_download_check E ti st) (?t name) = Normal () t \<and> dc_orderly p t"
    for st name
  proof -
    from dc_collect_orderly [OF calls(2), of E name] obtain found t where
      "dc_collect_stale_orders E (?t name) = Normal found t" "dc_orderly p t" by blast
    with check [of p t ti st] show ?thesis by (simp add: bindm_def)
  qed
  show ?thesis
    using assms(3) calls check [OF calls(2)] collect
    by (cases "dce_download_state E (trace ?s)") (auto simp: dc_check_request_queue_def exec_simps)
qed

lemma dc_stale_check_orderly:
  assumes "dc_orderly p s"
  shows "\<exists>t. dc_check_stale_orders E ti s = Normal () t \<and> dc_orderly p t"
  using assms by (auto simp: dc_check_stale_orders_def dc_collect_run Let_def dc_orderly_def begun_append exec_simps)

lemma dc_token_orderly: "dc_orderly p s \<Longrightarrow> \<exists>t. dc_request_private_token E ti s = Normal () t \<and> dc_orderly p t"
  by (simp add: dc_request_private_token_run dc_orderly_def begun_append)

definition fine :: "('s \<Rightarrow> bool) \<Rightarrow> ('s, 'e, unit) stmt \<Rightarrow> 's \<Rightarrow> bool" where
  "fine Q m s \<longleftrightarrow> (\<exists>t. m s = Normal () t \<and> Q t)"

lemma fine_seqm: "fine R m s \<Longrightarrow> (\<And>t. R t \<Longrightarrow> fine Q n t) \<Longrightarrow> fine Q (seqm m n) s"
  by (auto simp: fine_def seqm_Normal)

lemma fine_skip: "Q s \<Longrightarrow> fine Q skip s"
  by (simp add: fine_def exec_simps)

lemma dc_connected_timer_orderly:
  assumes "dc_able E" and "dc_orderly p s"
    and "\<not> (dce_download_state E (trace s @ (if dc_welcome s \<and> dc_next_ping s < now then [SendText (ping_message now)] else [])
        @ [Call ''download.state'']) = GET_STALE_ORDERS
      \<and> dce_has_response E Req_StaleOrders (trace s
        @ (if dc_welcome s \<and> dc_next_ping s < now then [SendText (ping_message now)] else [])
        @ [Call ''download.state'', Call ''stale_orders.has_response''])
      \<and> details_stale_orders s \<noteq> [])"
  shows "fine (dc_orderly p) (block
          [reading id (\<lambda>s. whenm (dc_welcome s \<and> dc_next_ping s < now) (dc_send_ping E now)),
           dc_check_request_queue E ti,
           reading id (\<lambda>s. whenm (dc_is_ready s) (dc_check_stale_orders E ti))]) s"
proof -
  let ?ping = "dc_welcome s \<and> dc_next_ping s < now"
  let ?s = "if ?ping then s\<lparr>dc_next_ping := now + dce_ping_frequency E div 2, trace := trace s @ [SendText (ping_message now)]\<rparr> else s"
  have "fine (\<lambda>t. t = ?s) (reading id (\<lambda>s. whenm (dc_welcome s \<and> dc_next_ping s < now) (dc_send_ping E now))) s"
    using assms(1) by (auto simp: fine_def dc_able_def dc_send_ping_def exec_simps)
  moreover have "dc_orderly p ?s"
    using assms(2) by (simp add: dc_orderly_def begun_append)
  then have "fine (dc_orderly p) (dc_check_request_queue E ti) ?s"
    unfolding fine_def using assms(3) by (intro dc_queue_orderly [OF assms(1)]) auto
  moreover have "fine (dc_orderly p) (reading id (\<lambda>s. whenm (dc_is_ready s) (dc_check_stale_orders E ti))) t"
    if "dc_orderly p t" for t
    using that dc_stale_check_orderly [OF that, of E ti] by (simp add: fine_def exec_simps)
  ultimately show ?thesis
    by (simp only: block.simps seqm_skip_right) (auto intro!: fine_seqm)
qed

lemma dc_timer_orderly:
  assumes "dc_able E" and "dc_orderly p s" and "dc_allowed E p s (DC_Timer ti now)"
  shows "fine (dc_orderly p) (dc_timer E ti now) s"
proof -
  let ?s = "s\<lparr>trace := trace s @ [Call ''refresh'', Call ''ready'']\<rparr>"
  let ?connected = "conn_ready (dce_connection E) (trace ?s)"
  let ?up = "block
          [reading id (\<lambda>s. whenm (dc_welcome s \<and> dc_next_ping s < now) (dc_send_ping E now)),
           dc_check_request_queue E ti,
           reading id (\<lambda>s. whenm (dc_is_ready s) (dc_check_stale_orders E ti))]"
  let ?down = "reading id (\<lambda>s. whenm (dc_logon_timeout s \<noteq> 0 \<and> dc_logon_timeout s < now) (block
          [assert_that (\<not> dc_welcome s), emit ConnClose]))"
  have s: "dc_orderly p ?s" using assms(2) by (simp add: dc_orderly_def begun_append)
  have first: "fine (dc_orderly p) (if ?connected then ?up else ?down) ?s" if "conn_refresh (dce_connection E) (trace s @ [Call ''refresh''])"
  proof (cases ?connected)
    case True
    then have "fine (dc_orderly p) ?up ?s"
      using assms(3) that by (intro dc_connected_timer_orderly [OF assms(1) s])
        (auto simp: stale_answered_def dc_asked_at_def)
    with True show ?thesis by simp
  next
    case False
    then have "\<not> dc_welcome s"
      using assms(1,2) by (auto simp: dc_able_def dc_orderly_def begun_append)
    with False s show ?thesis by (auto simp: fine_def dc_orderly_def begun_append exec_simps)
  qed
  have second: "fine (dc_orderly p) (dc_check_response_private_token E) t" if "dc_orderly p t" for t
    using that by (simp add: fine_def dc_check_response_private_token_def dc_orderly_def begun_append exec_simps)
  have third: "fine (dc_orderly p) (reading id (\<lambda>s. whenm (dc_next_simulated_disconnect s \<noteq> 0 \<and> dc_next_simulated_disconnect s < now)
      (block [modify (\<lambda>s. s\<lparr>dc_next_simulated_disconnect := 0\<rparr>), dc_request_private_token E ti]))) t" if "dc_orderly p t" for t
    using that by (simp add: fine_def dc_request_private_token_run dc_orderly_def begun_append exec_simps)
  show ?thesis
  proof (cases "conn_refresh (dce_connection E) (trace s @ [Call ''refresh''])")
    case True
    have "fine (dc_orderly p) (ask ''ready'' (conn_ready (dce_connection E)) (\<lambda>connected. if connected then ?up else ?down))
        (s\<lparr>trace := trace s @ [Call ''refresh'']\<rparr>)"
      using first [OF True] by (simp add: fine_def ask_run del: block.simps)
    from fine_seqm [OF this fine_seqm [OF second third]] True show ?thesis
      by (simp add: fine_def dc_timer_def ask_run whenm_def del: block.simps) (simp only: block.simps seqm_skip_right)
  next
    case False
    with assms(2) show ?thesis by (simp add: fine_def dc_timer_def ask_run dc_orderly_def begun_append exec_simps)
  qed
qed

interpretation dc_process: orderly_process "drop_copy_step E" "\<lambda>p s e. dc_after E p e" "dc_allowed E" "\<lambda>p s. dc_able E \<and> dc_orderly p s" for E
proof -
  have step: "fine (dc_orderly (dc_after E p e)) (drop_copy_step E e) s"
    if "dc_able E" "dc_orderly p s" "dc_allowed E p s e" for p s e
  proof (cases e)
    case (DC_Timer ti now)
    with that dc_timer_orderly [of E p s ti now] show ?thesis by (simp add: drop_copy_step_def)
  next
    case (DC_Text ti m)
    with that dc_parse_orderly [of E p s ti m] show ?thesis by (simp add: drop_copy_step_def fine_def)
  qed (use that in \<open>auto simp: drop_copy_step_def fine_def dc_private_token_run dc_connected_def dc_disconnected_run
    dc_report_run dc_orderly_def begun_append make_stream_status_def exec_simps\<close>)
  show "orderly_process (drop_copy_step E) (\<lambda>p s e. dc_after E p e) (dc_allowed E) (\<lambda>p s. dc_able E \<and> dc_orderly p s)"
    by unfold_locales (use step in \<open>fastforce simp: fine_def\<close>)+
qed

end
