(* ===== verification/Rest_Runs.thy ===== *)
theory Rest_Runs
  imports Orderly_Runs
begin

text \<open>
  Orderly runs of the two REST streams. An answer must not be a redirection, a token must be usable,
  the answer to an order query must be to a query that is outstanding, and an order must have a
  type; what is relied on of the download is that it asks for no undefined state, and of the
  sequencers that they give up on no symbol. With it comes what each event may tell the controller.
\<close>

subsection \<open>Statements of a stream\<close>

lemma safely_emit: "P a \<Longrightarrow> safely (grows P tr) (emit a)"
  by (auto simp: safely_def grows_def exec_simps)

lemma safely_dispatch: "P (Dispatch u) \<Longrightarrow> safely (grows P tr) (dispatch u)"
  unfolding dispatch_def by (rule safely_emit)

lemma safely_update: "(\<And>s. trace (f s) = trace s) \<Longrightarrow> safely (grows P tr) (modify f)"
  by (rule safely_modify) (simp add: grows_def)

lemma safely_ask: "P (Call name) \<Longrightarrow> (\<And>b. safely (grows P tr) (k b)) \<Longrightarrow> safely (grows P tr) (ask name answer k)"
  unfolding ask_def by (auto intro!: safely_intros safely_emit)

lemma safely_decode:
  assumes "\<And>a. r = Inr a \<Longrightarrow> safely I (f a)"
  shows "safely I (bindm (lift_sum r) f)"
  using assms by (cases r) (auto simp: safely_def lift_sum_def bindm_def throw_def ret_def)

text \<open>A download that calls for no undefined state, whatever its calls return.\<close>

primrec calls_defined :: "'st \<Rightarrow> 'st dl_run \<Rightarrow> bool" where
  "calls_defined undef DlDone = True"
| "calls_defined undef (DlCall st k) = (st \<noteq> undef \<and> (\<forall>n. calls_defined undef (k n)))"

lemma safely_run_download:
  assumes "calls_defined undef r" and "\<And>st. st \<noteq> undef \<Longrightarrow> safely I (download st)"
  shows "safely I (run_download download r)"
  using assms(1)
proof (induction r)
  case DlDone
  then show ?case by (simp add: safely_leaf)
next
  case (DlCall st k)
  then have "st \<noteq> undef" "\<And>n. safely I (run_download download (k n))" by auto
  then show ?case unfolding run_download.simps by (intro safely_bindm assms(2))
qed

lemma decoded_carried: "carries response body \<Longrightarrow> decode body = Inr a \<Longrightarrow> decoded response decode = Some a"
  by (auto simp: carries_def decoded_def)

lemmas safely_rules = safely_ask safely_intros safely_block safely_emit safely_dispatch safely_update safely_decode

subsection \<open>Public REST stream\<close>

definition usable_token :: "token \<Rightarrow> bool" where
  "usable_token token \<longleftrightarrow> tk_code token = RE_SYSTEM_CODE_SUCCESS
     \<and> (case tk_instance_servers token of [] \<Rightarrow> False | server # servers \<Rightarrow> 0 < is_ping_interval_ms server)"

definition re_able :: "rest_env \<Rightarrow> bool" where
  "re_able E \<longleftrightarrow> (\<forall>tr. calls_defined RE_UNDEFINED (ree_download E tr))
     \<and> (\<forall>tr. within_retries (ree_settings E) (sq_calls (ree_sequencer E tr)))"

fun rest_allowed :: "rest_env \<Rightarrow> rest_event \<Rightarrow> bool" where
  "rest_allowed E (RE_PublicTokenAck ti response sequence) =
     (\<not> redirected response \<and> (case decoded response (ree_token E) of None \<Rightarrow> True | Some token \<Rightarrow> usable_token token))"
| "rest_allowed E (RE_ContractsAck ti response sequence) = (\<not> redirected response)"
| "rest_allowed E (RE_OrderBookAck ti response symb) = (\<not> redirected response)"
| "rest_allowed E e = True"

fun rest_tells :: "rest_event \<Rightarrow> notification \<Rightarrow> bool" where
  "rest_tells (RE_PublicTokenAck ti response sequence) (PublicToken uri query f) = (0 < f)"
| "rest_tells (RE_ContractsAck ti response sequence) (SymbolsUpdate symbols) = True"
| "rest_tells e n = False"

definition tells :: "(notification \<Rightarrow> bool) \<Rightarrow> effect \<Rightarrow> bool" where
  "tells P a \<longleftrightarrow> list_all P (notified_by a)"

lemma tells_simps [simp]: "tells P (Notify n) = P n" "tells P (Dispatch u)" "tells P (Call name)" "tells P (SendRequest r i c)"
  "tells P (DlCheck m)" "tells P (DlCheckRelaxed m)" "tells P (DlRetry m)" "tells P DlBegin" "tells P DlBump" "tells P DlReset"
  "tells P CountDisconnect" "tells P ConnStart" "tells P ConnStop" "tells P (ReqCommit k)" "tells P (DepthQueuePush x)"
  "tells P (SequencerClear x)" "tells P (SequencerApply x w)" "tells P (SequencerSnapshot x b1 b2 w)"
  by (simp_all add: tells_def)

lemma re_report_safely: "safely (grows (tells P) tr) (re_report E ti st reason)"
  unfolding re_report_def by (auto intro!: safely_rules)

lemma re_download_call_safely:
  assumes "re_able E" and "tells P a"
  shows "safely (grows (tells P) tr) (re_download_call E ti a)"
proof -
  have "safely (grows (tells P) tr) (re_download E ti st)" if "st \<noteq> RE_UNDEFINED" for st
    using that by (cases st) (auto simp: re_download_def get_public_token_def get_contracts_def
      intro!: safely_rules re_report_safely)
  with assms show ?thesis
    unfolding re_download_call_def re_able_def by (auto intro!: safely_rules safely_run_download)
qed

lemma re_sequenced_safely:
  assumes "re_able E"
  shows "safely (grows (tells P) tr) (re_order_book E data)"
proof -
  have "safely (grows (tells P) tr) (re_sequencer_call E data c)" if "c \<in> set (sq_calls (ree_sequencer E t))" for c t
  proof (cases c)
    case (RequestSnapshot retries)
    with that assms have "set_mbp_request_max_retries (ree_settings E) = 0 \<or> retries \<le> set_mbp_request_max_retries (ree_settings E)"
      by (auto simp: re_able_def within_retries_def)
    with RequestSnapshot show ?thesis
      by (auto simp: re_sequencer_call_def request_snapshot_def intro!: safely_rules)
  qed (auto simp: re_sequencer_call_def Let_def intro!: safely_rules)
  then show ?thesis
    unfolding re_order_book_def with_resubscribe_def run_sequencer_def Let_def by (auto intro!: safely_rules)
qed

lemma re_reference_loop_safely: "safely (grows (tells P) tr) (re_reference_loop E items symbols)"
  by (induction items arbitrary: symbols) (auto intro!: safely_rules)

lemma rest_step_safely:
  assumes "re_able E" and "rest_allowed E e"
  shows "safely (grows (tells (rest_tells e)) tr) (rest_step E e)"
proof (cases e)
  case (RE_PublicTokenAck ti response sequence)
  have usable: "usable_token token" if "carries response body" "ree_token E body = Inr token" for body token
    using assms(2) RE_PublicTokenAck decoded_carried [where decode = "ree_token E", OF that] by simp
  have "safely (grows (tells (rest_tells e)) tr) (re_token token)" if "usable_token token" for token
    using that RE_PublicTokenAck
    by (auto simp: re_token_def usable_token_def ns_of_ms_def Let_def split: list.splits intro!: safely_rules)
  with assms RE_PublicTokenAck show ?thesis
    by (auto simp: rest_step_def get_public_token_ack_def re_retry_def dest!: usable
      intro!: safely_rules re_download_call_safely) (simp add: usable_token_def)
next
  case (RE_OrderBookAck ti response symb)
  with assms show ?thesis
    by (auto simp: rest_step_def get_order_book_ack_def intro!: safely_rules re_sequenced_safely)
next
  case (RE_ContractsAck ti response sequence)
  with assms show ?thesis
    by (auto simp: rest_step_def get_contracts_ack_def re_contracts_def re_status_loop_def re_retry_def
      intro!: safely_rules re_download_call_safely re_reference_loop_safely)
qed (use assms in \<open>auto simp: rest_step_def re_timer_def re_check_request_queue_def get_order_book_def re_connected_def
    re_disconnected_def intro!: safely_rules re_download_call_safely re_report_safely\<close>)

interpretation re_process: orderly_process "rest_step E" "\<lambda>p s e. p" "\<lambda>p s e. rest_allowed E e" "\<lambda>p s. re_able E" for E
  by unfold_locales (use safelyD [OF rest_step_safely grows_refl] in auto)

subsection \<open>Private REST stream\<close>

definition oe_able :: "order_entry_env \<Rightarrow> bool" where
  "oe_able E \<longleftrightarrow> (\<forall>tr. calls_defined OE_UNDEFINED (oee_download E tr))"

text \<open>An answer to an order query needs one that is outstanding.\<close>

fun oe_orderly :: "order_entry_env \<Rightarrow> order_entry \<Rightarrow> order_entry_event \<Rightarrow> bool" where
  "oe_orderly E s (OE_PrivateTokenAck ti response) =
     (\<not> redirected response \<and> (case decoded response (oee_token E) of None \<Rightarrow> True | Some token \<Rightarrow> usable_token token))"
| "oe_orderly E s (OE_AccountAck ti response) = (\<not> redirected response)"
| "oe_orderly E s (OE_PositionsAck ti response) = (\<not> redirected response)"
| "oe_orderly E s (OE_OrdersAck ti response) = (\<not> redirected response)"
| "oe_orderly E s (OE_OrderAck ti response c) = (\<not> redirected response \<and> oe_download_stale_orders_counter s \<noteq> 0)"
| "oe_orderly E s (OE_FillsAck ti response) = (\<not> redirected response)"
| "oe_orderly E s (OE_CreateOrderAck response user_id order_id version) = (\<not> redirected response)"
| "oe_orderly E s (OE_CancelOrderAck response user_id order_id version) = (\<not> redirected response)"
| "oe_orderly E s (OE_CancelAllOrdersAck response request_id) = (\<not> redirected response)"
| "oe_orderly E s (OE_Action a) = has_order_type a"
| "oe_orderly E s e = True"

fun oe_tells :: "order_entry_env \<Rightarrow> order_entry_event \<Rightarrow> notification \<Rightarrow> bool" where
  "oe_tells E (OE_PrivateTokenAck ti response) (PrivateToken account uri query f) = (account = oee_account_name E \<and> 0 < f)"
| "oe_tells E e n = False"

lemma oe_report_safely: "safely (grows (tells P) tr) (oe_report E ti st reason)"
  unfolding oe_report_def by (auto intro!: safely_rules)

lemma oe_download_call_safely:
  assumes "oe_able E" and "tells P a"
  shows "safely (grows (tells P) tr) (oe_download_call E ti a)"
proof -
  have "safely (grows (tells P) tr) (oe_download E ti st)" if "st \<noteq> OE_UNDEFINED" for st
    using that by (cases st) (auto simp: oe_download_def get_private_token_def intro!: safely_rules oe_report_safely)
  with assms show ?thesis
    unfolding oe_download_call_def oe_able_def by (auto intro!: safely_rules safely_run_download)
qed

lemma query_stale_safely: "safely (grows (tells P) tr) (query_stale_orders E ti)"
  unfolding query_stale_orders_def get_order_def Let_def
  by (auto intro!: safely_rules split: option.splits)

lemma oe_queue_safely: "safely (grows (tells P) tr) (oe_check_request_queue E ti)"
  unfolding oe_check_request_queue_def check_pending_def get_private_token_def get_account_def get_positions_def
    get_orders_def get_fills_def
  by (auto intro!: safely_rules query_stale_safely)

lemma oe_action_safely:
  assumes "has_order_type a"
  shows "safely (grows (tells P) tr) (oe_action E a)"
proof (cases a)
  case (CreateOrder info co rf request_id)
  with assms show ?thesis
    by (auto simp: oe_action_def oe_create_order_def add_order_renders intro!: safely_rules)
qed (auto simp: oe_action_def oe_cancel_order_def oe_cancel_all_orders_def intro!: safely_rules)

lemma order_entry_event_safely:
  assumes "oe_able E" and "oe_orderly E s e" and "\<And>ti response c. e \<noteq> OE_OrderAck ti response c"
  shows "safely (grows (tells (oe_tells E e)) tr) (order_entry_step E e)"
proof (cases e)
  case (OE_PrivateTokenAck ti response)
  have usable: "usable_token token" if "carries response body" "oee_token E body = Inr token" for body token
    using assms(2) OE_PrivateTokenAck decoded_carried [where decode = "oee_token E", OF that] by simp
  have "safely (grows (tells (oe_tells E e)) tr) (oe_token E token)" if "usable_token token" for token
    using that OE_PrivateTokenAck
    by (auto simp: oe_token_def usable_token_def ns_of_ms_def Let_def split: list.splits intro!: safely_rules)
  with assms(1,2) OE_PrivateTokenAck show ?thesis
    by (auto simp: order_entry_step_def get_private_token_ack_def dest!: usable
      intro!: safely_rules oe_download_call_safely)
      (simp add: usable_token_def OE_SYSTEM_CODE_SUCCESS_def RE_SYSTEM_CODE_SUCCESS_def)
qed (use assms in \<open>auto simp: order_entry_step_def get_account_ack_def get_positions_ack_def get_orders_ack_def
    get_fills_ack_def oe_create_order_ack_def oe_cancel_order_ack_def oe_cancel_all_orders_ack_def oe_account_def
    oe_orders_def oe_fills_def oe_reject_def log_error_def Let_def
    intro!: safely_rules oe_download_call_safely oe_report_safely oe_queue_safely oe_action_safely\<close>)

lemma order_entry_step_safely:
  assumes "oe_able E" and "oe_orderly E s e"
  shows "\<not> is_fatal (order_entry_step E e s) \<and> grows (tells (oe_tells E e)) (trace s) (final_state (order_entry_step E e s))"
proof (cases "\<exists>ti response c. e = OE_OrderAck ti response c")
  case True
  with assms show ?thesis
    by (auto simp: order_entry_step_def get_order_ack_run Let_def grows_def list_all_iff tells_def)
next
  case False
  with safelyD [OF order_entry_event_safely [OF assms] grows_refl] show ?thesis by simp
qed

interpretation oe_process: orderly_process "order_entry_step E" "\<lambda>p s e. p" "\<lambda>p. oe_orderly E" "\<lambda>p s. oe_able E" for E
  by unfold_locales (use order_entry_step_safely in auto)

text \<open>A tick tells the controller nothing and leaves the set of stale orders as it was, or empty.\<close>

lemma oe_timer_details:
  assumes "details_stale_orders s = [] \<or> details_stale_orders s = keys"
  shows "details_stale_orders (final_state (order_entry_step E (OE_Timer ti) s)) = []
     \<or> details_stale_orders (final_state (order_entry_step E (OE_Timer ti) s)) = keys"
proof -
  have "keeps (\<lambda>s. details_stale_orders s = [] \<or> details_stale_orders s = keys) (order_entry_step E (OE_Timer ti))"
    unfolding order_entry_step_def oe_check_request_queue_def check_pending_def get_private_token_def get_account_def
      get_positions_def get_orders_def get_fills_def query_stale_orders_def get_order_def Let_def order_entry_event.case
    by (auto intro!: keeps_intros keeps_block keeps_ask keeps_emit keeps_modify split: option.splits)
  with assms show ?thesis by (auto dest: keepsD)
qed

end
