(* ===== verification/Gateway_Safety.thy ===== *)
theory Gateway_Safety
  imports Rest_Runs Order_Routing Token_Renewal
begin

text \<open>
  The composition: orderly runs of the whole gateway. The phases of the streams' connections are
  kept side by side, an event of the gateway is orderly if it is for the stream it goes to, and the
  contracts of the streams (\<open>Sessions\<close>, \<open>Orderly_Runs\<close>, \<open>Rest_Runs\<close>) make the gateway itself an
  \<open>orderly_process\<close>: no orderly run ends the process.
\<close>

subsection \<open>Phases and orderly events\<close>

record gc_phase =
  ph_ws :: "string \<Rightarrow> bool"
  ph_dc :: "string \<Rightarrow> dc_phase"
  ph_md :: "nat \<Rightarrow> bool"

definition gc_unconnected :: gc_phase where
  "gc_unconnected = \<lparr>ph_ws = (\<lambda>account. False), ph_dc = (\<lambda>account. Dc_Down), ph_md = (\<lambda>i. False)\<rparr>"

fun gc_after :: "gc_phase \<Rightarrow> controller \<Rightarrow> controller_event \<Rightarrow> gc_phase" where
  "gc_after p s (GC_OrderEntryWS account e) = (if gc_order_entry_ws s account = None then p
     else p\<lparr>ph_ws := (ph_ws p)(account := link_after (ow_link e) (ph_ws p account))\<rparr>)"
| "gc_after p s (GC_DropCopy account e) = (case gc_drop_copy s account of None \<Rightarrow> p
     | Some (E, c) \<Rightarrow> p\<lparr>ph_dc := (ph_dc p)(account := dc_after E (ph_dc p account) e)\<rparr>)"
| "gc_after p s (GC_MarketData i e) = (if i < length (gc_market_data s)
     then p\<lparr>ph_md := (ph_md p)(i := link_after (md_link e) (ph_md p i))\<rparr> else p)"
| "gc_after p s e = p"

text \<open>No tick may find the stale orders of an account answered while some are waiting.\<close>

definition stale_settled :: "string set \<Rightarrow> (drop_copy_env \<Rightarrow> drop_copy \<Rightarrow> bool) \<Rightarrow> controller \<Rightarrow> bool" where
  "stale_settled accounts answered s \<longleftrightarrow> (\<forall>account E c. account \<in> accounts \<longrightarrow> gc_drop_copy s account = Some (E, c) \<longrightarrow>
     gc_details s account = [] \<or> \<not> answered E c)"

fun is_contracts :: "rest_event \<Rightarrow> bool" where
  "is_contracts (RE_ContractsAck ti response sequence) = True"
| "is_contracts e = False"

fun gc_allowed :: "gc_phase \<Rightarrow> controller \<Rightarrow> controller_event \<Rightarrow> bool" where
  "gc_allowed p s GC_Start = (gc_market_data s = [])"
| "gc_allowed p s (GC_Timer ti now) = stale_settled UNIV (\<lambda>E c. stale_answered E c now) s"
| "gc_allowed p s (GC_Subscribe symbols) = (0 < gc_public_ws_ping_frequency s)"
| "gc_allowed p s (GC_Control action) = (action \<noteq> Action_UNDEFINED)"
| "gc_allowed p s (GC_Order r) =
     (well_addressed r \<and> (case asked_of r of None \<Rightarrow> True | Some (account, a) \<Rightarrow> has_order_type a))"
| "gc_allowed p s (GC_Rest e) =
     (rest_allowed (fst (gc_rest s)) e \<and> (is_contracts e \<longrightarrow> 0 < gc_public_ws_ping_frequency s))"
| "gc_allowed p s (GC_OrderEntryREST account e) =
     (case gc_order_entry_rest s account of None \<Rightarrow> True | Some (E, c) \<Rightarrow> oe_orderly E c e)"
| "gc_allowed p s (GC_OrderEntryWS account e) = (case gc_order_entry_ws s account of None \<Rightarrow> True
     | Some (E, c) \<Rightarrow> link_possible (ow_link e) (ph_ws p account) \<and> ow_allowed E (ph_ws p account) e)"
| "gc_allowed p s (GC_DropCopy account e) =
     (case gc_drop_copy s account of None \<Rightarrow> True | Some (E, c) \<Rightarrow> dc_allowed E (ph_dc p account) c e)"
| "gc_allowed p s (GC_MarketData i e) = (i < length (gc_market_data s) \<longrightarrow>
     link_possible (md_link e) (ph_md p i) \<and> md_allowed (fst (gc_market_data s ! i)) (ph_md p i) e)"
| "gc_allowed p s e = True"

text \<open>What is relied on of the objects the streams use.\<close>

definition gateway_able :: "controller_env \<Rightarrow> bool" where
  "gateway_able G \<longleftrightarrow> (\<forall>i. re_able (rest_stream G i)) \<and> (\<forall>i account. oe_able (order_entry_rest_stream G i account))
     \<and> (\<forall>i account. link_answers (owe_connection (order_entry_ws_stream G i account)))
     \<and> (\<forall>i account uri f. 0 < f \<longrightarrow> dc_able (drop_copy_stream G i account uri f))
     \<and> (\<forall>i index uri query f. 0 < f \<longrightarrow> md_able (market_data_stream G i index uri query f))"

definition gc_orderly :: "string list \<Rightarrow> gc_phase \<Rightarrow> controller \<Rightarrow> bool" where
  "gc_orderly A p s \<longleftrightarrow> gc_accounts s = A \<and> re_able (fst (gc_rest s))
     \<and> (\<forall>account E c. gc_order_entry_rest s account = Some (E, c) \<longrightarrow>
          oe_able E \<and> oee_account_name E = account \<and> account \<in> set A)
     \<and> (\<forall>account E c. gc_order_entry_ws s account = Some (E, c) \<longrightarrow>
          link_answers (owe_connection E) \<and> ow_alive (ph_ws p account) c)
     \<and> (\<forall>account E c. gc_drop_copy s account = Some (E, c) \<longrightarrow> dc_able E \<and> dc_orderly (ph_dc p account) c)
     \<and> (\<forall>account. gc_drop_copy s account = None \<longrightarrow> ph_dc p account = Dc_Down)
     \<and> (\<forall>i E c. i < length (gc_market_data s) \<longrightarrow> gc_market_data s ! i = (E, c) \<longrightarrow>
          md_able E \<and> md_session (ph_md p i) c)
     \<and> (\<forall>i. length (gc_market_data s) \<le> i \<longrightarrow> \<not> ph_md p i)"

lemma dc_orderly_details [simp]: "dc_orderly q (c\<lparr>details_stale_orders := keys\<rparr>) = dc_orderly q c"
  by (simp add: dc_orderly_def)

subsection \<open>Steps of one stream\<close>

lemma orderly_put_rest: "gc_orderly A p s \<Longrightarrow> gc_rest s = (E, c) \<Longrightarrow> gc_orderly A p (put_rest E c' s)"
  by (simp add: gc_orderly_def put_rest_def)

lemma orderly_put_order_entry_rest:
  "gc_orderly A p s \<Longrightarrow> gc_order_entry_rest s account = Some (E, c) \<Longrightarrow> gc_orderly A p (put_order_entry_rest account E c c' s)"
  by (auto simp: gc_orderly_def put_order_entry_rest_def)

lemma orderly_put_order_entry_ws:
  "gc_orderly A p s \<Longrightarrow> gc_order_entry_ws s account = Some (E, c) \<Longrightarrow> ow_alive up c' \<Longrightarrow>
     gc_orderly A (p\<lparr>ph_ws := (ph_ws p)(account := up)\<rparr>) (put_order_entry_ws account E c' s)"
  by (auto simp: gc_orderly_def put_order_entry_ws_def)

lemma orderly_put_drop_copy:
  "gc_orderly A p s \<Longrightarrow> gc_drop_copy s account = Some (E, c) \<Longrightarrow> dc_orderly q c' \<Longrightarrow>
     gc_orderly A (p\<lparr>ph_dc := (ph_dc p)(account := q)\<rparr>) (put_drop_copy account E c c' s)"
  by (auto simp: gc_orderly_def put_drop_copy_def)

lemma orderly_put_market_data:
  "gc_orderly A p s \<Longrightarrow> i < length (gc_market_data s) \<Longrightarrow> gc_market_data s ! i = (E, c) \<Longrightarrow> md_session up c' \<Longrightarrow>
     gc_orderly A (p\<lparr>ph_md := (ph_md p)(i := up)\<rparr>) (put_market_data i E c' s)"
  by (auto simp: gc_orderly_def put_market_data_def nth_list_update)

lemma phase_unchanged [simp]:
  "p\<lparr>ph_ws := (ph_ws p)(account := ph_ws p account)\<rparr> = p"
  "p\<lparr>ph_dc := (ph_dc p)(account := ph_dc p account)\<rparr> = p"
  "p\<lparr>ph_md := (ph_md p)(i := ph_md p i)\<rparr> = p"
  by simp_all

text \<open>An event of a stream, with what the stream's contract says of it.\<close>

lemma order_entry_ws_event:
  assumes "gc_orderly A p s" and "gc_allowed p s (GC_OrderEntryWS account e)"
  shows "\<not> is_fatal (on_order_entry_ws account (\<lambda>E. order_entry_ws_step E e) skip s)
     \<and> gc_orderly A (gc_after p s (GC_OrderEntryWS account e))
         (final_state (on_order_entry_ws account (\<lambda>E. order_entry_ws_step E e) skip s))"
proof (cases "gc_order_entry_ws s account")
  case None
  with assms show ?thesis by (simp add: on_order_entry_ws_def exec_simps)
next
  case (Some Ec)
  obtain E c where Ec: "Ec = (E, c)" by (cases Ec)
  have "link_answers (owe_connection E) \<and> ow_alive (ph_ws p account) c"
    using assms(1) Some Ec by (auto simp: gc_orderly_def)
  from ow_socket.progress [OF this, of e] ow_socket.preservation [OF this, of e] assms Some Ec
  show ?thesis
    by (cases "order_entry_ws_step E e c")
      (auto simp: on_order_entry_ws_def reading_def zoom_def intro!: orderly_put_order_entry_ws)
qed

lemma drop_copy_event:
  assumes "gc_orderly A p s"
    and "\<And>E c. gc_drop_copy s account = Some (E, c) \<Longrightarrow> dc_allowed E (ph_dc p account) (lend account s c) e"
  shows "\<not> is_fatal (on_drop_copy account (\<lambda>E. drop_copy_step E e) skip s)
     \<and> gc_orderly A (gc_after p s (GC_DropCopy account e))
         (final_state (on_drop_copy account (\<lambda>E. drop_copy_step E e) skip s))"
proof (cases "gc_drop_copy s account")
  case None
  with assms show ?thesis by (simp add: on_drop_copy_def exec_simps)
next
  case (Some Ec)
  obtain E c where Ec: "Ec = (E, c)" by (cases Ec)
  have "dc_able E \<and> dc_orderly (ph_dc p account) (lend account s c)"
    using assms(1) Some Ec by (simp add: gc_orderly_def lend_def)
  from dc_process.lives [OF this, of e] dc_process.keeps_order [OF this, of e] assms Some Ec
  show ?thesis
    by (cases "drop_copy_step E e (lend account s c)")
      (auto simp: on_drop_copy_def reading_def zoom_def intro!: orderly_put_drop_copy)
qed

lemma market_data_event:
  assumes "gc_orderly A p s" and "gc_allowed p s (GC_MarketData i e)"
  shows "\<not> is_fatal (on_market_data i (\<lambda>E. market_data_step E e) s)
     \<and> gc_orderly A (gc_after p s (GC_MarketData i e)) (final_state (on_market_data i (\<lambda>E. market_data_step E e) s))"
proof (cases "i < length (gc_market_data s)")
  case False
  with assms show ?thesis by (simp add: on_market_data_def exec_simps)
next
  case True
  obtain E c where Ec: "gc_market_data s ! i = (E, c)" by (cases "gc_market_data s ! i")
  have "md_able E \<and> md_session (ph_md p i) c"
    using assms(1) True Ec by (simp add: gc_orderly_def)
  from md_socket.progress [OF this, of e] md_socket.preservation [OF this, of e] assms True Ec
  show ?thesis
    by (cases "market_data_step E e c")
      (auto simp: on_market_data_def reading_def zoom_def intro!: orderly_put_market_data)
qed

subsection \<open>Notifications\<close>

definition has_ping :: "controller \<Rightarrow> bool" where
  "has_ping s \<longleftrightarrow> 0 < gc_public_ws_ping_frequency s"

lemma create_slice_orderly:
  assumes "gateway_able G" and "gc_orderly A p s" and "has_ping s"
  shows "\<exists>t. create_slice G s = Normal () t \<and> gc_orderly A p t \<and> has_ping t"
proof -
  let ?E = "market_data_stream G (gc_stream_id s + 1) (length (gc_market_data s)) (gc_public_ws_uri s)
     (gc_public_ws_query s) (gc_public_ws_ping_frequency s)"
  have able: "md_able ?E"
    using assms(1,3) by (simp add: gateway_able_def has_ping_def)
  then obtain c where c: "MarketData_create ?E = Some c" "md_session False (c\<lparr>trace := trace c @ [ConnStart]\<rparr>)"
    by (auto simp: MarketData_create_def md_able_def md_session_def md_consistent_def)
  show ?thesis
    using assms(2,3) able c by (auto simp: create_slice_run Let_def gc_orderly_def has_ping_def nth_append less_Suc_eq)
qed

lemma ensure_symbol_slices_orderly:
  assumes "gateway_able G" and "gc_orderly A p s" and "has_ping s"
  shows "\<exists>t. ensure_symbol_slices G n s = Normal () t \<and> gc_orderly A p t \<and> has_ping t"
  using assms(2,3)
proof (induction "n - length (gc_market_data s)" arbitrary: s rule: less_induct)
  case less
  show ?case
  proof (cases "length (gc_market_data s) < n")
    case False
    with less.prems show ?thesis by (simp add: ensure_symbol_slices.simps)
  next
    case True
    from create_slice_orderly [OF assms(1) less.prems] obtain t where
      t: "create_slice G s = Normal () t" "gc_orderly A p t" "has_ping t" by blast
    from True create_slice_grows [OF t(1)] have "n - length (gc_market_data t) < n - length (gc_market_data s)" by simp
    moreover have "ensure_symbol_slices G n s = ensure_symbol_slices G n t"
      using True t(1) by (subst ensure_symbol_slices.simps) simp
    ultimately show ?thesis using less.hyps t(2,3) by simp
  qed
qed

text \<open>An event for all market data streams that is orderly in every phase and moves none.\<close>

definition md_quiet :: "market_data_event \<Rightarrow> bool" where
  "md_quiet e \<longleftrightarrow> md_link e = Link_Same \<and> (\<forall>E up. md_allowed E up e)"

lemma on_market_data_ping: "has_ping (final_state (on_market_data i m s)) = has_ping s"
  by (auto simp: has_ping_def on_market_data_def reading_def skip_def final_state_zoom put_market_data_def split: prod.split)

lemma all_market_data_orderly:
  assumes "md_quiet e" and "\<And>s t. P s \<Longrightarrow> gc_public_ws_ping_frequency t = gc_public_ws_ping_frequency s \<Longrightarrow> P t"
  shows "safely (\<lambda>s. gc_orderly A p s \<and> P s) (all_market_data (\<lambda>E. market_data_step E e))"
proof -
  have "safely (\<lambda>s. gc_orderly A p s \<and> P s) (on_market_data i (\<lambda>E. market_data_step E e))" for i
  proof (rule safelyI)
    fix s assume s: "gc_orderly A p s \<and> P s"
    have "gc_allowed p s (GC_MarketData i e)" and "gc_after p s (GC_MarketData i e) = p"
      using assms(1) by (simp_all add: md_quiet_def)
    with s market_data_event [of A p s i e]
    have "\<not> is_fatal (on_market_data i (\<lambda>E. market_data_step E e) s)
       \<and> gc_orderly A p (final_state (on_market_data i (\<lambda>E. market_data_step E e) s))" by simp
    moreover have "P (final_state (on_market_data i (\<lambda>E. market_data_step E e) s))"
      by (rule assms(2) [of s]) (use s in \<open>auto simp: on_market_data_def reading_def skip_def final_state_zoom
        put_market_data_def split: prod.split\<close>)
    ultimately show "\<not> is_fatal (on_market_data i (\<lambda>E. market_data_step E e) s)
       \<and> gc_orderly A p (final_state (on_market_data i (\<lambda>E. market_data_step E e) s))
       \<and> P (final_state (on_market_data i (\<lambda>E. market_data_step E e) s))" by simp
  qed
  then show ?thesis unfolding all_market_data_def by (intro safely_intros)
qed

definition with_ping :: "string list \<Rightarrow> gc_phase \<Rightarrow> controller \<Rightarrow> bool" where
  "with_ping A p s \<longleftrightarrow> gc_orderly A p s \<and> has_ping s"

lemma symbols_update_safely:
  assumes "gateway_able G"
  shows "safely (with_ping A p) (on_symbols_update G symbols)"
proof -
  have "safely (with_ping A p) (ensure_symbol_slices G n)" for n
    using ensure_symbol_slices_orderly [OF assms, of A p _ n] by (fastforce simp: safely_def with_ping_def)
  moreover have "safely (with_ping A p) (all_market_data (\<lambda>E. market_data_step E (MD_Subscribe start)))" for start
    unfolding with_ping_def by (rule all_market_data_orderly) (simp_all add: md_quiet_def has_ping_def)
  moreover have "safely (with_ping A p) (emit a)" for a
    by (auto simp: safely_def with_ping_def gc_orderly_def has_ping_def exec_simps)
  ultimately show ?thesis
    unfolding on_symbols_update_def ask_def by (auto intro!: safely_intros safely_block)
qed

lemma public_token_safely: "0 < f \<Longrightarrow> safely (gc_orderly A p) (on_public_token uri query f)"
  by (auto simp: safely_def on_public_token_def gc_orderly_def exec_simps)

lemma private_token_safely:
  assumes "gateway_able G" and "account \<in> set A" and "0 < f"
  shows "safely (gc_orderly A p) (on_private_token G account uri query f)"
proof (rule safelyI)
  fix s assume s: "gc_orderly A p s"
  show "\<not> is_fatal (on_private_token G account uri query f s) \<and> gc_orderly A p (final_state (on_private_token G account uri query f s))"
  proof (cases "gc_drop_copy s account")
    case None
    let ?E = "drop_copy_stream G (gc_stream_id s + 1) account uri f"
    have "dc_able ?E" using assms(1,3) by (simp add: gateway_able_def)
    moreover have "dc_orderly Dc_Down ((DropCopy_create ?E query)\<lparr>trace := trace (DropCopy_create ?E query) @ [ConnStart]\<rparr>)"
      by (simp add: dc_orderly_def DropCopy_create_def begins_def)
    moreover have "account \<in> set (gc_accounts s)" "ph_dc p account = Dc_Down"
      using s assms(2) None by (auto simp: gc_orderly_def)
    ultimately show ?thesis
      using None s by (auto simp: on_private_token_def on_drop_copy_def reading_def create_drop_copy_run Let_def gc_orderly_def)
  next
    case (Some Ec)
    have "on_private_token G account uri query f s = on_drop_copy account (\<lambda>E. drop_copy_step E (DC_PrivateToken query)) skip s"
      using Some by (simp add: on_private_token_def on_drop_copy_def reading_def split: prod.split)
    with drop_copy_event [OF s, of account "DC_PrivateToken query"] Some show ?thesis
      by (cases Ec) simp
  qed
qed

text \<open>What a stream of an account, and the public REST stream, may tell.\<close>

fun tellable :: "string list \<Rightarrow> notification \<Rightarrow> bool" where
  "tellable A (PublicToken uri query f) = (0 < f)"
| "tellable A (PrivateToken account uri query f) = (account \<in> set A \<and> 0 < f)"
| "tellable A (SymbolsUpdate symbols) = False"

lemma notification_safely: "gateway_able G \<Longrightarrow> tellable A n \<Longrightarrow> safely (gc_orderly A p) (on_notification G n)"
  by (cases n) (auto simp: on_notification_def public_token_safely private_token_safely)

lemma relaying_event:
  assumes m: "\<not> is_fatal (m s)" "I (final_state (m s))"
      "list_all ok (seen notified_by (drop (length (tr s)) (tr (final_state (m s)))))"
    and heard: "\<And>n. ok n \<Longrightarrow> safely I (on_notification G n)"
  shows "\<not> is_fatal (relaying G tr m s) \<and> I (final_state (relaying G tr m s))"
proof -
  have told: "safely I (for_each (seen notified_by (drop (length (tr s)) (tr (final_state (m s))))) (on_notification G))"
    using m heard by (intro safely_for_each) (auto simp: list_all_iff)
  show ?thesis
    using m safelyD [OF told, of "final_state (m s)"]
    by (cases "m s") (auto simp: relaying_def attempt_def reading_def try_catch_def bindm_def seqm_def ret_def lift_sum_def
      throw_def split: outcome.split)
qed

lemma told_of_grown:
  assumes "grows (tells P) (trace c) c'"
  shows "list_all P (seen notified_by (drop (length (trace c)) (trace c')))"
proof -
  obtain as where "trace c' = trace c @ as" "list_all (tells P) as" using assms by (auto simp: grows_def)
  moreover have "list_all (tells P) as \<Longrightarrow> list_all P (seen notified_by as)" for as
    by (induction as) (auto simp: tells_def)
  ultimately show ?thesis by simp
qed

lemma rest_event:
  assumes "gc_orderly A p s" and "rest_allowed (fst (gc_rest s)) e" and "I s"
    and "\<And>E c c'. gc_rest s = (E, c) \<Longrightarrow> I (put_rest E c' s)"
    and "\<And>n. rest_tells e n \<Longrightarrow> safely I (on_notification G n)"
  shows "\<not> is_fatal (on_rest G (\<lambda>E. rest_step E e) s) \<and> I (final_state (on_rest G (\<lambda>E. rest_step E e) s))"
proof -
  obtain E c where Ec: "gc_rest s = (E, c)" by (cases "gc_rest s")
  have "re_able E" "rest_allowed E e" using assms(1,2) Ec by (auto simp: gc_orderly_def)
  from safelyD [OF rest_step_safely [OF this] grows_refl] have
    calm: "\<not> is_fatal (rest_step E e c)" and told: "grows (tells (rest_tells e)) (trace c) (final_state (rest_step E e c))"
    by blast+
  show ?thesis
    unfolding on_rest_def
    by (rule relaying_event [where ok = "rest_tells e"])
      (use Ec calm assms(4) [OF Ec] assms(5) told_of_grown [OF told] in
        \<open>auto simp: reading_def zoom_def put_rest_def final_state_zoom [unfolded zoom_def] split: outcome.split\<close>)
qed

lemma order_entry_event:
  assumes "gc_orderly A p s"
    and "\<And>E c. gc_order_entry_rest s account = Some (E, c) \<Longrightarrow> oe_orderly E (lend account s c) e" and "I s"
    and "\<And>E c. gc_order_entry_rest s account = Some (E, c) \<Longrightarrow>
      I (put_order_entry_rest account E c (final_state (order_entry_step E e (lend account s c))) s)"
    and "\<And>E c n. gc_order_entry_rest s account = Some (E, c) \<Longrightarrow> oe_tells E e n \<Longrightarrow> safely I (on_notification G n)"
  shows "\<not> is_fatal (on_order_entry_rest G account (\<lambda>E. order_entry_step E e) skip s)
     \<and> I (final_state (on_order_entry_rest G account (\<lambda>E. order_entry_step E e) skip s))"
proof (cases "gc_order_entry_rest s account")
  case None
  with assms(3) show ?thesis
    by (simp add: on_order_entry_rest_def relaying_def attempt_def exec_simps)
next
  case (Some Ec)
  obtain E c where Ec: "Ec = (E, c)" by (cases Ec)
  have oe: "gc_order_entry_rest s account = Some (E, c)" using Some Ec by simp
  have "oe_able E" using assms(1) oe by (auto simp: gc_orderly_def)
  from order_entry_step_safely [OF this assms(2) [OF oe]] have
    calm: "\<not> is_fatal (order_entry_step E e (lend account s c))"
    and told: "grows (tells (oe_tells E e)) (trace c) (final_state (order_entry_step E e (lend account s c)))"
    by (simp_all add: lend_def)
  show ?thesis
    unfolding on_order_entry_rest_def
    by (rule relaying_event [where ok = "oe_tells E e"])
      (use oe calm assms(4) [OF oe] assms(5) [OF oe] told_of_grown [OF told] in
        \<open>auto simp: reading_def zoom_def put_order_entry_rest_def split: outcome.split\<close>)
qed

subsection \<open>Events for every stream\<close>

definition turns :: "('s \<Rightarrow> bool) \<Rightarrow> ('s \<Rightarrow> bool) \<Rightarrow> ('s, exn, unit) stmt \<Rightarrow> bool" where
  "turns P Q m \<longleftrightarrow> (\<forall>s. P s \<longrightarrow> \<not> is_fatal (m s) \<and> Q (final_state (m s)))"

lemma turnsI: "(\<And>s. P s \<Longrightarrow> \<not> is_fatal (m s) \<and> Q (final_state (m s))) \<Longrightarrow> turns P Q m"
  by (simp add: turns_def)

lemma turnsD: "turns P Q m \<Longrightarrow> P s \<Longrightarrow> \<not> is_fatal (m s) \<and> Q (final_state (m s))"
  by (simp add: turns_def)

lemma turns_seqm:
  assumes "turns P R m" and "turns R Q n" and "\<And>s. R s \<Longrightarrow> Q s"
  shows "turns P Q (seqm m n)"
proof (rule turnsI)
  fix s assume "P s"
  with turnsD [OF assms(1), of s] turnsD [OF assms(2)] assms(3)
  show "\<not> is_fatal (seqm m n s) \<and> Q (final_state (seqm m n s))"
    by (cases "m s") (auto simp: seqm_def bindm_def)
qed

lemma safely_turns: "safely I m = turns I I m"
  by (simp add: safely_def turns_def)

definition settled :: "string list \<Rightarrow> gc_phase \<Rightarrow> (drop_copy_env \<Rightarrow> drop_copy \<Rightarrow> bool) \<Rightarrow> string set \<Rightarrow> controller \<Rightarrow> bool" where
  "settled A p X R s \<longleftrightarrow> gc_orderly A p s \<and> stale_settled R X s"

lemma stale_answered_details [simp]: "stale_answered E (c\<lparr>details_stale_orders := keys\<rparr>) now = stale_answered E c now"
  by (simp add: stale_answered_def dc_asked_at_def)

lemma settled_rest:
  assumes "\<And>E. rest_allowed E e" and "\<And>n. \<not> rest_tells e n"
  shows "safely (settled A p X R) (on_rest G (\<lambda>E. rest_step E e))"
  by (rule safelyI, rule rest_event [where A = A and p = p])
    (use assms in \<open>auto simp: settled_def stale_settled_def put_rest_def intro: orderly_put_rest [unfolded put_rest_def]\<close>)

lemma settled_order_entry_rest:
  assumes "\<And>E c. oe_orderly E c e" and "\<And>E n. \<not> oe_tells E e n"
    and "\<And>E c. details_stale_orders (final_state (order_entry_step E e c)) = []
      \<or> details_stale_orders (final_state (order_entry_step E e c)) = details_stale_orders c"
  shows "safely (settled A p X R) (on_order_entry_rest G account (\<lambda>E. order_entry_step E e) skip)"
proof (rule safelyI, rule order_entry_event [where A = A and p = p])
  fix s E c
  assume s: "settled A p X R s" and oe: "gc_order_entry_rest s account = Some (E, c)"
  have "details_stale_orders (final_state (order_entry_step E e (lend account s c))) = []
      \<or> details_stale_orders (final_state (order_entry_step E e (lend account s c))) = gc_details s account"
    using assms(3) [of E "lend account s c"] by (simp add: lend_def)
  with s oe show "settled A p X R (put_order_entry_rest account E c (final_state (order_entry_step E e (lend account s c))) s)"
    by (auto simp: settled_def stale_settled_def put_order_entry_rest_def
      intro: orderly_put_order_entry_rest [unfolded put_order_entry_rest_def])
qed (use assms in \<open>auto simp: settled_def\<close>)

lemma settled_order_entry_ws:
  assumes "ow_link e = Link_Same" and "\<And>E up. ow_allowed E up e"
  shows "safely (settled A p X R) (on_order_entry_ws account (\<lambda>E. order_entry_ws_step E e) skip)"
proof (rule safelyI)
  fix s assume s: "settled A p X R s"
  have "gc_allowed p s (GC_OrderEntryWS account e)" "gc_after p s (GC_OrderEntryWS account e) = p"
    using assms by (simp_all split: option.split)
  with s order_entry_ws_event [of A p s account e]
  show "\<not> is_fatal (on_order_entry_ws account (\<lambda>E. order_entry_ws_step E e) skip s)
     \<and> settled A p X R (final_state (on_order_entry_ws account (\<lambda>E. order_entry_ws_step E e) skip s))"
    by (auto simp: settled_def stale_settled_def on_order_entry_ws_def reading_def skip_def final_state_zoom
      put_order_entry_ws_def split: option.splits prod.splits)
qed

definition dc_ticks :: "(drop_copy_env \<Rightarrow> drop_copy \<Rightarrow> bool) \<Rightarrow> drop_copy_event \<Rightarrow> bool" where
  "dc_ticks X e \<longleftrightarrow> (\<forall>E q. dc_after E q e = q) \<and> (\<forall>E c keys. X E (c\<lparr>details_stale_orders := keys\<rparr>) = X E c)
     \<and> (\<forall>E q c. details_stale_orders c = [] \<or> \<not> X E c \<longrightarrow> dc_allowed E q c e)"

lemma settled_drop_copies:
  assumes "dc_ticks X e" and "distinct accounts"
  shows "turns (settled A p X (set accounts)) (gc_orderly A p)
     (for_each accounts (\<lambda>account. on_drop_copy account (\<lambda>E. drop_copy_step E e) skip))"
  using assms(2)
proof (induction accounts)
  case Nil
  show ?case by (simp add: turns_def settled_def skip_def)
next
  case (Cons account accounts)
  have "turns (settled A p X (set (account # accounts))) (settled A p X (set accounts))
      (on_drop_copy account (\<lambda>E. drop_copy_step E e) skip)"
  proof (rule turnsI)
    fix s assume s: "settled A p X (set (account # accounts)) s"
    then have orderly: "gc_orderly A p s" by (simp add: settled_def)
    have allowed: "dc_allowed E (ph_dc p account) (lend account s c) e" if "gc_drop_copy s account = Some (E, c)" for E c
    proof -
      have "gc_details s account = [] \<or> \<not> X E c"
        using s that by (auto simp: settled_def stale_settled_def)
      moreover have "details_stale_orders (lend account s c) = gc_details s account"
        "X E (lend account s c) = X E c" using assms(1) by (simp_all add: dc_ticks_def lend_def)
      ultimately show ?thesis using assms(1) unfolding dc_ticks_def by metis
    qed
    have after: "gc_after p s (GC_DropCopy account e) = p"
      using assms(1) by (simp add: dc_ticks_def split: option.split)
    have "stale_settled (set accounts) X (final_state (on_drop_copy account (\<lambda>E. drop_copy_step E e) skip s))"
      using s Cons.prems by (auto simp: settled_def stale_settled_def on_drop_copy_def reading_def skip_def final_state_zoom
        put_drop_copy_def split: option.split prod.split)
    with drop_copy_event [OF orderly allowed] after
    show "\<not> is_fatal (on_drop_copy account (\<lambda>E. drop_copy_step E e) skip s)
       \<and> settled A p X (set accounts) (final_state (on_drop_copy account (\<lambda>E. drop_copy_step E e) skip s))"
      by (simp add: settled_def)
  qed
  moreover have "turns (settled A p X (set accounts)) (gc_orderly A p)
      (for_each accounts (\<lambda>account. on_drop_copy account (\<lambda>E. drop_copy_step E e) skip))"
    using Cons by simp
  ultimately show ?case
    unfolding for_each.simps by (rule turns_seqm) (simp add: settled_def)
qed

lemma dispatch_orderly:
  assumes "distinct A" and "settled A p X UNIV s"
    and "\<And>E. rest_allowed E re" and "\<And>n. \<not> rest_tells re n"
    and "\<And>E c. oe_orderly E c oe" and "\<And>E n. \<not> oe_tells E oe n"
    and "\<And>E c. details_stale_orders (final_state (order_entry_step E oe c)) = []
      \<or> details_stale_orders (final_state (order_entry_step E oe c)) = details_stale_orders c"
    and "ow_link ow = Link_Same" and "\<And>E up. ow_allowed E up ow" and "dc_ticks X dc" and "md_quiet md"
  shows "\<not> is_fatal (gc_dispatch G re oe ow dc md s) \<and> gc_orderly A p (final_state (gc_dispatch G re oe ow dc md s))"
proof -
  let ?S = "settled A p X (set A)"
  have rest: "turns ?S ?S (on_rest G (\<lambda>E. rest_step E re))"
    using settled_rest [of re] assms(3,4) by (simp add: safely_turns)
  have oes: "turns ?S ?S (for_each A (\<lambda>account. on_order_entry_rest G account (\<lambda>E. order_entry_step E oe) skip))"
    unfolding safely_turns [symmetric] by (intro safely_intros settled_order_entry_rest assms(5-7))
  have ows: "turns ?S ?S (for_each A (\<lambda>account. on_order_entry_ws account (\<lambda>E. order_entry_ws_step E ow) skip))"
    unfolding safely_turns [symmetric] by (intro safely_intros settled_order_entry_ws assms(8,9))
  have mds: "turns (gc_orderly A p) (gc_orderly A p) (all_market_data (\<lambda>E. market_data_step E md))"
    using all_market_data_orderly [of md "\<lambda>s. True" A p] assms(11) by (simp add: safely_turns)
  have ended: "?S t \<Longrightarrow> gc_orderly A p t" for t by (simp add: settled_def)
  have S: "?S s" "gc_accounts s = A"
    using assms(2) by (auto simp: settled_def stale_settled_def gc_orderly_def)
  have "turns ?S (gc_orderly A p) (block
     [on_rest G (\<lambda>E. rest_step E re),
      for_each A (\<lambda>account. on_order_entry_rest G account (\<lambda>E. order_entry_step E oe) skip),
      for_each A (\<lambda>account. on_order_entry_ws account (\<lambda>E. order_entry_ws_step E ow) skip),
      for_each A (\<lambda>account. on_drop_copy account (\<lambda>E. drop_copy_step E dc) skip),
      all_market_data (\<lambda>E. market_data_step E md)])"
    unfolding block.simps seqm_skip_right
    by (intro turns_seqm [OF rest] turns_seqm [OF oes] turns_seqm [OF ows]
      turns_seqm [OF settled_drop_copies [OF assms(10,1)] mds]) (auto intro: ended)
  from turnsD [OF this S(1)] S(2) show ?thesis
    by (simp add: gc_dispatch_def reading_def)
qed

subsection \<open>Orders and subscriptions\<close>

lemma order_orderly:
  assumes "gc_orderly A p s" and "gc_allowed p s (GC_Order r)"
  shows "\<not> is_fatal (gc_order G r s) \<and> gc_orderly A p (final_state (gc_order G r s))"
proof (cases "asked_of r")
  case None
  with assms(1) show ?thesis by (cases r) (simp_all add: gc_order_def throw_def)
next
  case (Some aa)
  obtain account a where aa: "aa = (account, a)" by (cases aa)
  have asked: "asked_of r = Some (account, a)" "well_addressed r" and order_type: "has_order_type a"
    using Some aa assms(2) by auto
  have "\<not> is_fatal (get_order_entry_ws account a s) \<and> gc_orderly A p (final_state (get_order_entry_ws account a s))"
  proof (cases "gc_order_entry_ws s account")
    case None
    with assms(1) show ?thesis by (simp add: get_order_entry_ws_run)
  next
    case (Some Ec)
    obtain E c where Ec: "Ec = (E, c)" by (cases Ec)
    with Some assms(1) have "ow_alive (ph_ws p account) c" by (simp add: gc_orderly_def)
    from ow_action_alive [OF order_type this, of E] orderly_put_order_entry_ws [OF assms(1), of account E c "ph_ws p account"] Some Ec
    show ?thesis by (cases "ow_action E a c") (auto simp: get_order_entry_ws_run zoom_def)
  qed
  moreover have "\<not> is_fatal (get_order_entry_rest G account a s) \<and> gc_orderly A p (final_state (get_order_entry_rest G account a s))"
  proof (cases "gc_order_entry_rest s account")
    case None
    with assms(1) show ?thesis by (simp add: get_order_entry_rest_run)
  next
    case (Some Ec)
    obtain E c where Ec: "Ec = (E, c)" by (cases Ec)
    have "\<not> is_fatal (oe_action E a (lend account s c))"
      using safelyD [OF oe_action_safely [OF order_type, of "\<lambda>n. True"] grows_refl] by blast
    with orderly_put_order_entry_rest [OF assms(1), of account E c] Some Ec
    show ?thesis by (cases "oe_action E a (lend account s c)") (auto simp: get_order_entry_rest_run zoom_def)
  qed
  ultimately show ?thesis by (simp add: gc_order_asked [OF asked])
qed

lemma subscribe_safely:
  assumes "gateway_able G"
  shows "safely (with_ping A p) (gc_subscribe G items)"
proof -
  have "safely (with_ping A p) (on_rest G (\<lambda>E. rest_step E (RE_Subscribed items)))" for items
    by (rule safelyI, rule rest_event [where A = A and p = p])
      (auto simp: with_ping_def has_ping_def put_rest_def intro: orderly_put_rest [unfolded put_rest_def])
  then have "safely (with_ping A p) (subscribe_loop G items symbols)" for symbols
    by (induction items arbitrary: symbols) (auto intro!: safely_intros)
  then show ?thesis
    unfolding gc_subscribe_def by (intro safely_intros symbols_update_safely assms)
qed

subsection \<open>The gateway\<close>

lemma rest_events_orderly:
  assumes "gateway_able G" and "gc_orderly A p s" and "gc_allowed p s (GC_Rest e)"
  shows "\<not> is_fatal (on_rest G (\<lambda>E. rest_step E e) s) \<and> gc_orderly A p (final_state (on_rest G (\<lambda>E. rest_step E e) s))"
proof (cases "is_contracts e")
  case True
  then have tells: "rest_tells e n \<Longrightarrow> \<exists>symbols. n = SymbolsUpdate symbols" for n
    by (cases e; cases n) simp_all
  have "\<not> is_fatal (on_rest G (\<lambda>E. rest_step E e) s) \<and> with_ping A p (final_state (on_rest G (\<lambda>E. rest_step E e) s))"
  proof (rule rest_event [OF assms(2)])
    show "safely (with_ping A p) (on_notification G n)" if "rest_tells e n" for n
      using tells [OF that] symbols_update_safely [OF assms(1)] by (auto simp: on_notification_def)
  qed (use assms True in \<open>auto simp: with_ping_def has_ping_def put_rest_def intro: orderly_put_rest [unfolded put_rest_def]\<close>)
  then show ?thesis by (simp add: with_ping_def)
next
  case False
  then have tells: "tellable A n" if "rest_tells e n" for n
    using that by (cases e; cases n) simp_all
  show ?thesis
    by (rule rest_event [OF assms(2)])
      (use assms tells in \<open>auto intro: orderly_put_rest notification_safely\<close>)
qed

lemma order_entry_rest_events_orderly:
  assumes "gateway_able G" and "gc_orderly A p s" and "gc_allowed p s (GC_OrderEntryREST account e)"
  shows "\<not> is_fatal (on_order_entry_rest G account (\<lambda>E. order_entry_step E e) skip s)
     \<and> gc_orderly A p (final_state (on_order_entry_rest G account (\<lambda>E. order_entry_step E e) skip s))"
proof (rule order_entry_event [OF assms(2)])
  fix E c n
  assume oe: "gc_order_entry_rest s account = Some (E, c)" and "oe_tells E e n"
  moreover from oe assms(2) have "oee_account_name E = account" "account \<in> set A" by (auto simp: gc_orderly_def)
  ultimately have "tellable A n" by (cases e; cases n) simp_all
  then show "safely (gc_orderly A p) (on_notification G n)" by (rule notification_safely [OF assms(1)])
next
  fix E c
  assume "gc_order_entry_rest s account = Some (E, c)"
  with assms(3) show "oe_orderly E (lend account s c) e"
    by (cases e) (simp_all add: lend_def)
qed (use assms orderly_put_order_entry_rest in auto)

lemma gc_timer_orderly:
  assumes "distinct A" and "gc_orderly A p s" and "gc_allowed p s (GC_Timer ti now)"
  shows "\<not> is_fatal (gc_timer G ti now s) \<and> gc_orderly A p (final_state (gc_timer G ti now s))"
proof -
  have "details_stale_orders (final_state (order_entry_step E (OE_Timer ti) c)) = []
      \<or> details_stale_orders (final_state (order_entry_step E (OE_Timer ti) c)) = details_stale_orders c" for E c
    by (rule oe_timer_details) simp
  moreover have "dc_ticks (\<lambda>E c. stale_answered E c now) (DC_Timer ti now)" by (auto simp: dc_ticks_def)
  ultimately show ?thesis
    unfolding gc_timer_def using assms
    by (intro dispatch_orderly [where X = "\<lambda>E c. stale_answered E c now"]) (auto simp: settled_def md_quiet_def)
qed

lemma gc_plain_orderly:
  assumes "distinct A" and "gc_orderly A p s"
  shows "\<not> is_fatal (gc_dispatch G RE_Start OE_Start OW_Start DC_Start MD_Start s)
      \<and> gc_orderly A p (final_state (gc_dispatch G RE_Start OE_Start OW_Start DC_Start MD_Start s))"
    and "\<not> is_fatal (gc_dispatch G RE_Stop OE_Stop OW_Stop DC_Stop MD_Stop s)
      \<and> gc_orderly A p (final_state (gc_dispatch G RE_Stop OE_Stop OW_Stop DC_Stop MD_Stop s))"
proof -
  have ticks: "dc_ticks (\<lambda>E c. False) DC_Start" "dc_ticks (\<lambda>E c. False) DC_Stop" by (simp_all add: dc_ticks_def)
  have settled: "settled A p (\<lambda>E c. False) UNIV s" using assms(2) by (simp add: settled_def stale_settled_def)
  show "\<not> is_fatal (gc_dispatch G RE_Start OE_Start OW_Start DC_Start MD_Start s)
      \<and> gc_orderly A p (final_state (gc_dispatch G RE_Start OE_Start OW_Start DC_Start MD_Start s))"
    by (rule dispatch_orderly [OF assms(1) settled _ _ _ _ _ _ _ ticks(1)])
      (simp_all add: md_quiet_def order_entry_step_def exec_simps)
  show "\<not> is_fatal (gc_dispatch G RE_Stop OE_Stop OW_Stop DC_Stop MD_Stop s)
      \<and> gc_orderly A p (final_state (gc_dispatch G RE_Stop OE_Stop OW_Stop DC_Stop MD_Stop s))"
    by (rule dispatch_orderly [OF assms(1) settled _ _ _ _ _ _ _ ticks(2)])
      (simp_all add: md_quiet_def order_entry_step_def exec_simps)
qed

lemma final_state_skip: "\<not> is_fatal (skip s)" "final_state (skip s) = s"
  by (simp_all add: skip_def)

lemma controller_step_orderly:
  assumes "gateway_able G" and "distinct A" and "gc_orderly A p s" and "gc_allowed p s e"
  shows "\<not> is_fatal (controller_step G e s) \<and> gc_orderly A (gc_after p s e) (final_state (controller_step G e s))"
proof (cases e)
  case GC_Start
  with assms gc_plain_orderly(1) [OF assms(2,3), of G] show ?thesis
    by (simp add: controller_step_def gc_start_def assert_that_def exec_simps)
next
  case GC_Stop
  with gc_plain_orderly(2) [OF assms(2,3)] show ?thesis by (simp add: controller_step_def gc_stop_def)
next
  case (GC_Timer ti now)
  with assms gc_timer_orderly [OF assms(2,3), of ti now G] show ?thesis by (simp add: controller_step_def)
next
  case (GC_Subscribe symbols)
  with assms safelyD [OF subscribe_safely [OF assms(1)], of A p s symbols] show ?thesis
    by (simp add: controller_step_def with_ping_def has_ping_def)
next
  case (GC_Order r)
  with order_orderly [OF assms(3), of r G] assms(4) show ?thesis
    by (cases "gc_order G r s") (simp_all add: controller_step_def bindm_def skip_def)
next
  case (GC_Rest ev)
  with rest_events_orderly [OF assms(1,3)] assms(3,4) show ?thesis by (simp add: controller_step_def skip_def)
next
  case (GC_OrderEntryREST account ev)
  with order_entry_rest_events_orderly [OF assms(1,3)] assms(3,4) show ?thesis by (simp add: controller_step_def skip_def)
next
  case (GC_OrderEntryWS account ev)
  have "ow_link ev = Link_Same" if "\<not> order_entry_ws_own ev" using that by (cases ev) simp_all
  with GC_OrderEntryWS order_entry_ws_event [OF assms(3) assms(4) [unfolded GC_OrderEntryWS]] assms(3) show ?thesis
    by (auto simp: controller_step_def final_state_skip split: if_splits)
next
  case (GC_DropCopy account ev)
  have quiet: "dc_after E q ev = q" if "\<not> drop_copy_own ev" for E q using that by (cases ev) simp_all
  have shared: "dc_allowed E q (lend account s c) ev = dc_allowed E q c ev" if "drop_copy_own ev" for E q c
    using that by (cases ev) simp_all
  show ?thesis
  proof (cases "drop_copy_own ev")
    case True
    have "dc_allowed E (ph_dc p account) (lend account s c) ev" if "gc_drop_copy s account = Some (E, c)" for E c
      using assms(4) GC_DropCopy that by (simp add: shared [OF True])
    from drop_copy_event [OF assms(3) this] GC_DropCopy True show ?thesis by (simp add: controller_step_def)
  next
    case False
    with GC_DropCopy assms(3) show ?thesis
      by (simp add: controller_step_def skip_def quiet [OF False] split: option.split prod.split)
  qed
next
  case (GC_MarketData i ev)
  have "md_link ev = Link_Same" if "\<not> market_data_own ev" using that by (cases ev) simp_all
  with GC_MarketData market_data_event [OF assms(3) assms(4) [unfolded GC_MarketData]] assms(3) show ?thesis
    by (auto simp: controller_step_def final_state_skip split: if_splits)
next
  case (GC_Control action)
  with assms(3,4) show ?thesis
    by (cases action) (auto simp: controller_step_def gc_control_def gc_orderly_def exec_simps)
qed (use assms(3) in \<open>simp_all add: controller_step_def skip_def\<close>)

interpretation gateway_process: orderly_process "controller_step G" gc_after gc_allowed
  "\<lambda>p s. gateway_able G \<and> distinct A \<and> gc_orderly A p s" for G A
  by unfold_locales (use controller_step_orderly in blast)+

subsection \<open>Creation\<close>

lemma created_rest_streams:
  assumes "\<forall>account E c. snd r account = Some (E, c) \<longrightarrow> (\<exists>i. E = order_entry_rest_stream G i account) \<and> account \<in> B"
    and "set accounts \<subseteq> B"
  shows "snd (create_order_entry_rest G accounts r) account = Some (E, c) \<longrightarrow>
     (\<exists>i. E = order_entry_rest_stream G i account) \<and> account \<in> B"
  using assms
proof (induction accounts arbitrary: r)
  case (Cons a accounts)
  show ?case
    unfolding create_order_entry_rest.simps
    by (rule Cons.IH) (use Cons.prems in \<open>auto simp: Let_def\<close>)
qed auto

lemma created_ws_streams:
  assumes "\<forall>account E c. snd r account = Some (E, c) \<longrightarrow> (\<exists>i. E = order_entry_ws_stream G i account) \<and> c = OrderEntryWS_create"
  shows "snd (create_order_entry_ws_loop G accounts r) account = Some (E, c) \<longrightarrow>
     (\<exists>i. E = order_entry_ws_stream G i account) \<and> c = OrderEntryWS_create"
  using assms
proof (induction accounts arbitrary: r)
  case (Cons a accounts)
  show ?case
    unfolding create_order_entry_ws_loop.simps
    by (rule Cons.IH) (use Cons.prems in \<open>auto simp: Let_def\<close>)
qed auto

lemma Controller_create_orderly:
  assumes "gateway_able G"
  shows "gc_orderly (map fst (cfg_accounts config)) gc_unconnected (Controller_create G config)"
proof -
  let ?A = "map fst (cfg_accounts config)"
  obtain i oe where oe: "create_order_entry_rest G ?A (0 + 1, Map.empty) = (i, oe)"
    by (cases "create_order_entry_rest G ?A (0 + 1, Map.empty)")
  obtain j ow where ow: "create_order_entry_ws G ?A i = (j, ow)"
    by (cases "create_order_entry_ws G ?A i")
  have rest: "(\<exists>i. E = order_entry_rest_stream G i account) \<and> account \<in> set ?A" if "oe account = Some (E, c)" for account E c
    using created_rest_streams [of "(0 + 1, Map.empty)" G "set ?A" ?A account E c] oe that by simp
  have ws: "(\<exists>i. E = order_entry_ws_stream G i account) \<and> c = OrderEntryWS_create" if "ow account = Some (E, c)" for account E c
    using created_ws_streams [of "(i, Map.empty)" G ?A account E c] ow that by (auto simp: create_order_entry_ws_def split: if_splits)
  have "oe_able E \<and> oee_account_name E = account \<and> account \<in> set ?A" if "oe account = Some (E, c)" for account E c
    using rest [OF that] assms by (auto simp: gateway_able_def order_entry_rest_stream_def)
  moreover have "link_answers (owe_connection E) \<and> ow_alive False c" if "ow account = Some (E, c)" for account E c
    using ws [OF that] assms by (auto simp: gateway_able_def ow_alive_def OrderEntryWS_create_def)
  moreover have "re_able (rest_stream G 1)" using assms by (simp add: gateway_able_def)
  ultimately show ?thesis
    using oe ow by (auto simp: Controller_create_def Let_def gc_orderly_def gc_unconnected_def)
qed

subsection \<open>Properties\<close>

text \<open>
  C2. The gateway lives through every orderly run: if the websockets go up and down in turn and get
  texts only while they are up, of the kinds of their channel and with one welcome each time; if no
  REST answer is a redirection, tokens are usable and order queries answered are outstanding; if
  orders are well addressed and typed, symbols come after the public token, and no tick finds the
  stale orders of an account answered while some are waiting, then no event meets an assertion, a
  fatal log or an exception that leaves a noexcept handler, in any of the streams or the controller.
\<close>

theorem gateway_survives:
  assumes "gateway_able G" and "distinct (map fst (cfg_accounts config))"
    and "orderly (controller_step G) gc_after gc_allowed gc_unconnected (Controller_create G config) p s"
    and "gc_allowed p s e"
  shows "\<not> is_fatal (controller_step G e s)"
  by (rule gateway_process.orderly_lives [OF assms(3) _ assms(4)]) (use assms(1,2) Controller_create_orderly in blast)

lemma dc_tick_fatal:
  assumes "stale_answered E s now" and "details_stale_orders s \<noteq> []" and "0 < dce_ping_frequency E"
  shows "is_fatal (dc_timer E ti now s)"
  using assms by (auto simp: stale_answered_def dc_asked_at_def dc_timer_def dc_send_ping_def dc_check_request_queue_def exec_simps
    split: if_splits)

text \<open>
  C14. The stale orders are the one place where two streams of an account can end the process
  between them: in every state of an orderly run, the tick of a drop copy ends the process exactly
  if it finds the slot of stale orders answered, while the download waits for it, and keys of stale
  orders still in the set that its REST stream should have emptied.
\<close>

theorem tick_ends_on_waiting_stale_orders:
  assumes "gateway_able G" and "distinct (map fst (cfg_accounts config))"
    and "orderly (controller_step G) gc_after gc_allowed gc_unconnected (Controller_create G config) p s"
  shows "is_fatal (on_drop_copy account (\<lambda>E. drop_copy_step E (DC_Timer ti now)) skip s) \<longleftrightarrow>
     (\<exists>E c. gc_drop_copy s account = Some (E, c) \<and> stale_answered E c now \<and> gc_details s account \<noteq> [])"
proof -
  have orderly: "gc_orderly (map fst (cfg_accounts config)) p s"
    using gateway_process.orderly_holds [OF assms(3)] assms(1,2) Controller_create_orderly by blast
  show ?thesis
  proof (cases "\<exists>E c. gc_drop_copy s account = Some (E, c) \<and> stale_answered E c now \<and> gc_details s account \<noteq> []")
    case True
    then obtain E c where dc: "gc_drop_copy s account = Some (E, c)" "stale_answered E c now" "gc_details s account \<noteq> []"
      by blast
    then have "is_fatal (dc_timer E ti now (lend account s c))"
      using orderly by (intro dc_tick_fatal) (auto simp: lend_def gc_orderly_def dc_able_def)
    with dc(1) True show ?thesis
      by (cases "dc_timer E ti now (lend account s c)")
        (auto simp: on_drop_copy_def reading_def zoom_def drop_copy_step_def)
  next
    case False
    then have "dc_allowed E (ph_dc p account) (lend account s c) (DC_Timer ti now)" if "gc_drop_copy s account = Some (E, c)" for E c
      using that by (auto simp: lend_def)
    from drop_copy_event [OF orderly this] False show ?thesis by blast
  qed
qed

definition stale_controller_env :: controller_env where
  "stale_controller_env = token_controller_env\<lparr>
     ge_order_entry_rest := (\<lambda>account. (ge_order_entry_rest token_controller_env account)
       \<lparr>oee_connection := sample_connection\<lparr>conn_refresh := (\<lambda>tr. False)\<rparr>\<rparr>),
     ge_drop_copy := (\<lambda>account uri. sample_drop_copy_env
     \<lparr>dce_download_state := (\<lambda>tr. if Call ''get_all_stale_orders'' \<in> set tr then GET_STALE_ORDERS else GET_OPEN_ORDERS),
      dce_has_response := (\<lambda>k tr. True), dce_stale_orders := (\<lambda>tr. [sample_order_of_server])\<rparr>)\<rparr>"

lemma stale_controller_env_able: "gateway_able stale_controller_env"
  by (auto simp: gateway_able_def re_able_def oe_able_def dc_able_def md_able_def link_answers_def within_retries_def
    rest_stream_def order_entry_rest_stream_def order_entry_ws_stream_def drop_copy_stream_def market_data_stream_def
    stale_controller_env_def token_controller_env_def sample_controller_env_def sample_rest_env_def
    sample_order_entry_env_def sample_order_entry_ws_env_def sample_drop_copy_env_def sample_market_data_env_def
    sample_connection_def sample_settings_def)

lemma stale_run:
  defines "G \<equiv> stale_controller_env"
  defines "s1 \<equiv> final_state (controller_step G (GC_OrderEntryREST ''A1'' (OE_PrivateTokenAck sample_trace_info (ok_response ''t1'')))
      (Controller_create G sample_config))"
  shows "orderly (controller_step G) gc_after gc_allowed gc_unconnected (Controller_create G sample_config) gc_unconnected s1"
    and "gc_drop_copy s1 = [''A1'' \<mapsto> (drop_copy_stream G 3 ''A1'' ''wss'' 18000000000,
      (DropCopy_create (drop_copy_stream G 3 ''A1'' ''wss'' 18000000000) ''?token=t1'')\<lparr>trace := [ConnStart]\<rparr>)]"
    and "gc_accounts s1 = [''A1'']" and "gc_order_entry_ws s1 = Map.empty" and "gc_market_data s1 = []"
    and "gc_details s1 = (\<lambda>account. [])"
    and "gc_rest s1 = (rest_stream G 1, Rest_create)"
    and "\<exists>c. gc_order_entry_rest s1 ''A1'' = Some (order_entry_rest_stream G 2 ''A1'', c)"
proof -
  let ?s = "Controller_create G sample_config"
  let ?e = "GC_OrderEntryREST ''A1'' (OE_PrivateTokenAck sample_trace_info (ok_response ''t1''))"
  let ?E = "order_entry_rest_stream G 2 ''A1''"
  note envs = G_def stale_controller_env_def token_controller_env_def sample_controller_env_def
  have s: "gc_order_entry_rest ?s = [''A1'' \<mapsto> (?E, OrderEntryREST_create)]" "gc_drop_copy ?s = Map.empty"
    "gc_accounts ?s = [''A1'']" "gc_stream_id ?s = 2" "gc_order_entry_ws ?s = Map.empty" "gc_market_data ?s = []"
    "gc_details ?s = (\<lambda>account. [])" "gc_rest ?s = (rest_stream G 1, Rest_create)"
    by (simp_all add: Controller_create_def create_order_entry_ws_def sample_config_def Let_def envs sample_settings_def)
  have "gc_allowed gc_unconnected ?s ?e"
    using s by (simp add: redirected_def ok_response_def decoded_def order_entry_rest_stream_def envs usable_token_def
      RE_SYSTEM_CODE_SUCCESS_def)
  from orderly_event [where allowed = gc_allowed and p = gc_unconnected and s = ?s and e = ?e and after = gc_after
      and step = "controller_step G", OF orderly_start this]
  show "orderly (controller_step G) gc_after gc_allowed gc_unconnected ?s gc_unconnected s1"
    by (simp add: s1_def)
  have "gc_drop_copy s1 = [''A1'' \<mapsto> (drop_copy_stream G 3 ''A1'' ''wss'' 18000000000,
      (DropCopy_create (drop_copy_stream G 3 ''A1'' ''wss'' 18000000000) ''?token=t1'')\<lparr>trace := [ConnStart]\<rparr>)]
    \<and> gc_accounts s1 = [''A1''] \<and> gc_order_entry_ws s1 = Map.empty \<and> gc_market_data s1 = []
    \<and> gc_details s1 = (\<lambda>account. []) \<and> gc_rest s1 = (rest_stream G 1, Rest_create)
    \<and> (\<exists>c. gc_order_entry_rest s1 ''A1'' = Some (?E, c))"
    using s by (simp add: s1_def controller_step_def on_order_entry_rest_def relaying_def attempt_def zoom_def order_entry_step_def
      get_private_token_ack_def process_response_def response_switch_def ok_response_def order_entry_rest_stream_def
      envs sample_order_entry_env_def OE_SYSTEM_CODE_SUCCESS_def oe_token_def
      oe_download_call_def oe_download_def oe_report_run ns_of_ms_def exec_simps put_order_entry_rest_def lend_def
      on_notification_def on_private_token_run create_drop_copy_run OrderEntryREST_create_def Let_def
      DropCopy_create_def fun_upd_def cong: if_cong)
  then show "gc_drop_copy s1 = [''A1'' \<mapsto> (drop_copy_stream G 3 ''A1'' ''wss'' 18000000000,
      (DropCopy_create (drop_copy_stream G 3 ''A1'' ''wss'' 18000000000) ''?token=t1'')\<lparr>trace := [ConnStart]\<rparr>)]"
    "gc_accounts s1 = [''A1'']" "gc_order_entry_ws s1 = Map.empty" "gc_market_data s1 = []"
    "gc_details s1 = (\<lambda>account. [])" "gc_rest s1 = (rest_stream G 1, Rest_create)"
    "\<exists>c. gc_order_entry_rest s1 ''A1'' = Some (?E, c)"
    by blast+
qed

lemma stale_tick:
  assumes "gc_drop_copy s = [''A1'' \<mapsto> (drop_copy_stream stale_controller_env 3 ''A1'' ''wss'' 18000000000,
      (DropCopy_create (drop_copy_stream stale_controller_env 3 ''A1'' ''wss'' 18000000000) ''?token=t1'')\<lparr>trace := [ConnStart]\<rparr>)]"
    and "gc_accounts s = [''A1'']" and "gc_order_entry_ws s = Map.empty" and "gc_market_data s = []"
    and "gc_details s = (\<lambda>account. [])" and "gc_rest s = (rest_stream stale_controller_env 1, Rest_create)"
    and "gc_order_entry_rest s ''A1'' = Some (order_entry_rest_stream stale_controller_env 2 ''A1'', c)"
  shows "\<exists>E c. gc_drop_copy (final_state (controller_step stale_controller_env (GC_Timer sample_trace_info 9) s)) ''A1'' = Some (E, c)
     \<and> stale_answered E c 9
     \<and> gc_details (final_state (controller_step stale_controller_env (GC_Timer sample_trace_info 9) s)) ''A1'' \<noteq> []"
  by (simp add: controller_step_def gc_timer_def gc_dispatch_def assms on_rest_def on_order_entry_rest_def
      relaying_def attempt_def zoom_def on_order_entry_ws_def on_drop_copy_def all_market_data_def put_rest_def put_order_entry_rest_def
      put_drop_copy_def lend_def rest_step_def re_timer_def re_is_ready_def Rest_create_def rest_stream_def order_entry_step_def
      order_entry_rest_stream_def drop_copy_step_def dc_timer_def drop_copy_stream_def dc_check_request_queue_def
      dc_collect_run dc_download_check_def dc_download_call_def dc_is_ready_def dc_check_response_private_token_def
      DropCopy_create_def stale_controller_env_def token_controller_env_def sample_controller_env_def
      sample_rest_env_def sample_order_entry_env_def sample_drop_copy_env_def sample_connection_def
      stale_answered_def dc_asked_at_def insert_key_def exec_simps Let_def)

lemma sample_accounts_distinct: "distinct (map fst (cfg_accounts sample_config))"
  by (simp add: sample_config_def)

theorem gateway_survives_witness:
  "\<not> is_fatal (controller_step stale_controller_env (GC_Timer sample_trace_info 9)
     (final_state (controller_step stale_controller_env
        (GC_OrderEntryREST ''A1'' (OE_PrivateTokenAck sample_trace_info (ok_response ''t1'')))
        (Controller_create stale_controller_env sample_config))))"
  by (rule gateway_survives [OF stale_controller_env_able sample_accounts_distinct stale_run(1)])
    (simp add: stale_settled_def stale_run(6))

theorem tick_ends_on_waiting_stale_orders_witness:
  "is_fatal (on_drop_copy ''A1'' (\<lambda>E. drop_copy_step E (DC_Timer sample_trace_info 9)) skip
     (final_state (controller_step stale_controller_env (GC_Timer sample_trace_info 9)
       (final_state (controller_step stale_controller_env
          (GC_OrderEntryREST ''A1'' (OE_PrivateTokenAck sample_trace_info (ok_response ''t1'')))
          (Controller_create stale_controller_env sample_config))))))"
proof -
  let ?G = stale_controller_env
  let ?s1 = "final_state (controller_step ?G (GC_OrderEntryREST ''A1'' (OE_PrivateTokenAck sample_trace_info (ok_response ''t1'')))
     (Controller_create ?G sample_config))"
  have "gc_allowed gc_unconnected ?s1 (GC_Timer sample_trace_info 9)"
    by (simp add: stale_settled_def stale_run(6))
  from orderly_event [where allowed = gc_allowed and after = gc_after, OF stale_run(1) this]
  have run: "orderly (controller_step ?G) gc_after gc_allowed gc_unconnected (Controller_create ?G sample_config) gc_unconnected
     (final_state (controller_step ?G (GC_Timer sample_trace_info 9) ?s1))"
    by simp
  obtain c where "gc_order_entry_rest ?s1 ''A1'' = Some (order_entry_rest_stream ?G 2 ''A1'', c)"
    using stale_run(8) by blast
  note tick = stale_tick [OF stale_run(2-7) this]
  show ?thesis
    unfolding tick_ends_on_waiting_stale_orders [OF stale_controller_env_able sample_accounts_distinct run] by (rule tick)
qed

end
