(* ===== verification/Downloads.thy ===== *)
theory Downloads
  imports Orderly_Runs
begin

text \<open>
  How the download of a drop copy is driven (\<open>gateway/drop_copy.cpp\<close>: \<open>download\<close>,
  \<open>check_request_queue\<close>, the handler of acknowledgements): a state dc_asks for one thing, a request
  slot or a subscription, and the download object is told of a state exactly when its slot is found
  answered or its subscription is acknowledged.
\<close>

fun awaited_slot :: "dc_state \<Rightarrow> request_kind option" where
  "awaited_slot GET_BALANCES = Some Req_Balances"
| "awaited_slot GET_POSITIONS = Some Req_Positions"
| "awaited_slot GET_OPEN_ORDERS = Some Req_OpenOrders"
| "awaited_slot GET_STALE_ORDERS = Some Req_StaleOrders"
| "awaited_slot GET_TRADES = Some Req_Trades"
| "awaited_slot _ = None"

fun slot_name :: "request_kind \<Rightarrow> string" where
  "slot_name Req_Balances = ''balances''"
| "slot_name Req_Positions = ''positions''"
| "slot_name Req_OpenOrders = ''open_orders''"
| "slot_name Req_StaleOrders = ''stale_orders''"
| "slot_name Req_Trades = ''trades''"
| "slot_name Req_PrivateToken = ''private_token''"

fun dl_told :: "effect \<Rightarrow> nat list" where
  "dl_told (DlCheck i) = [i]"
| "dl_told _ = []"

text \<open>What a state dc_asks for: a slot, or a subscription whose message carries the name of the state.\<close>

fun wanted :: "effect \<Rightarrow> (request_kind + string) list" where
  "wanted (ReqIssue k) = [Inl k]"
| "wanted (SendText m) = [Inr m]"
| "wanted _ = []"

text \<open>The states of which an event of the drop copy tells the download.\<close>

fun driven :: "drop_copy_env \<Rightarrow> drop_copy \<Rightarrow> drop_copy_event \<Rightarrow> nat list" where
  "driven E s (DC_Timer ti now) =
     (let tr = dc_asked_at s now; st = dce_download_state E tr in
      if conn_refresh (dce_connection E) (trace s @ [Call ''refresh''])
        \<and> conn_ready (dce_connection E) (trace s @ [Call ''refresh'', Call ''ready''])
      then (case awaited_slot st of None \<Rightarrow> []
        | Some k \<Rightarrow> if dce_has_response E k (tr @ [Call (slot_name k @ ''.has_response'')]) then [dc_state_index st] else [])
      else [])"
| "driven E s (DC_Text ti m) = (case dc_events E m of
     Some (Ev_Ack i # evs) \<Rightarrow> (case dc_state_of_name i of None \<Rightarrow> [] | Some st \<Rightarrow> [dc_state_index st])
   | _ \<Rightarrow> [])"
| "driven E s e = []"

text \<open>
  What a statement tells the download object, if it does not end the process; a statement that tells
  it nothing is \<open>silent\<close>.
\<close>

definition checks :: "nat list \<Rightarrow> (drop_copy, exn, 'a) stmt \<Rightarrow> drop_copy \<Rightarrow> bool" where
  "checks xs m s \<longleftrightarrow> (\<not> is_fatal (m s) \<longrightarrow> (\<exists>as. trace (final_state (m s)) = trace s @ as \<and> seen dl_told as = xs))"

definition silent :: "(drop_copy, exn, 'a) stmt \<Rightarrow> bool" where
  "silent m \<longleftrightarrow> (\<forall>tr. keeps (grows (\<lambda>a. dl_told a = []) tr) m)"

lemma silent_checks: "silent m \<Longrightarrow> checks [] m s"
proof -
  assume "silent m"
  then have "keeps (grows (\<lambda>a. dl_told a = []) (trace s)) m" by (simp add: silent_def)
  from keepsD [OF this grows_refl] obtain as where "trace (final_state (m s)) = trace s @ as" "list_all (\<lambda>a. dl_told a = []) as"
    by (auto simp: grows_def)
  moreover have "list_all (\<lambda>a. dl_told a = []) as \<Longrightarrow> seen dl_told as = []" for as by (induction as) simp_all
  ultimately show ?thesis by (auto simp: checks_def)
qed

lemma checks_seqm:
  assumes "nothrow m" and "checks xs m s" and "\<And>t. m s = Normal () t \<Longrightarrow> checks ys n t"
  shows "checks (xs @ ys) (seqm m n) s"
proof (cases "m s")
  case (Normal u t)
  with assms(2) obtain as where "trace t = trace s @ as" "seen dl_told as = xs" by (auto simp: checks_def)
  moreover from Normal assms(3) [of t] have "checks ys n t" by simp
  ultimately show ?thesis using Normal
    by (auto simp: checks_def seqm_def bindm_def)
next
  case (Thrown e t)
  with assms(1) show ?thesis by (simp add: nothrow_def)
next
  case (Fatal msg t)
  then show ?thesis by (simp add: checks_def seqm_def bindm_def)
qed

lemma silent_download: "silent (dc_download E ti st)"
  unfolding silent_def
  by (cases st) (auto simp: dc_download_def dc_report_def dc_subscribe_def Let_def intro!: grows_rules)

lemma silent_run: "silent (run_download (dc_download E ti) r)"
  using silent_download by (auto simp: silent_def intro!: keeps_run_download)

lemma nothrow_assert_that: "nothrow (assert_that c)"
  by (simp add: nothrow_def assert_that_def exec_simps)

lemma nothrow_dc_download: "nothrow (dc_download E ti st)"
  by (cases st) (auto simp: dc_download_def dc_report_def dc_subscribe_def Let_def
    intro!: nothrow_intros nothrow_assert_that)

lemma check_checks: "checks [dc_state_index st] (dc_download_check E ti st) s"
proof -
  have "checks ([dc_state_index st] @ []) (dc_download_check E ti st) s"
    unfolding dc_download_check_def dc_download_call_def
  proof (rule checks_seqm)
    show "checks [dc_state_index st] (emit (DlCheck (dc_state_index st))) s"
      by (simp add: checks_def exec_simps)
    show "checks [] (reading trace (\<lambda>tr. run_download (dc_download E ti) (dce_download E tr))) t" for t
      using silent_checks [OF silent_run] by (simp add: checks_def reading_def)
  qed (rule nothrow_intros)
  then show ?thesis by simp
qed

lemma nothrow_check: "nothrow (dc_download_check E ti st)"
  unfolding dc_download_check_def dc_download_call_def by (intro nothrow_intros nothrow_dc_download)

lemma ask_checks:
  "(\<And>t. t = s\<lparr>trace := trace s @ [Call name]\<rparr> \<Longrightarrow> checks xs (k (answer (trace t))) t) \<Longrightarrow> checks xs (ask name answer k) s"
  by (auto simp: checks_def ask_run)

lemma slot_checks:
  assumes "\<And>t. checks xs m t"
  shows "checks (if answer (trace s @ [Call name]) then xs else []) (ask name answer (\<lambda>b. whenm b m)) s"
  using assms [of "s\<lparr>trace := trace s @ [Call name]\<rparr>"] by (auto simp: checks_def ask_run whenm_def exec_simps)

section \<open>Ticks\<close>

text \<open>The cases of \<open>check_request_queue\<close>.\<close>

definition dc_waits :: "drop_copy_env \<Rightarrow> trace_info \<Rightarrow> dc_state \<Rightarrow> dc_stmt" where
  "dc_waits E ti st = (case st of
     DC_UNDEFINED \<Rightarrow> skip
   | SUBSCRIBE_BALANCES \<Rightarrow> skip
   | GET_BALANCES \<Rightarrow> ask ''balances.has_response'' (dce_has_response E Req_Balances) (\<lambda>b. whenm b (dc_download_check E ti st))
   | SUBSCRIBE_POSITIONS \<Rightarrow> skip
   | GET_POSITIONS \<Rightarrow> ask ''positions.has_response'' (dce_has_response E Req_Positions) (\<lambda>b. whenm b (dc_download_check E ti st))
   | SUBSCRIBE_ORDERS \<Rightarrow> skip
   | GET_OPEN_ORDERS \<Rightarrow> ask ''open_orders.has_response'' (dce_has_response E Req_OpenOrders) (\<lambda>b. whenm b
       (bindm (dc_collect_stale_orders E) (\<lambda>found. dc_download_check E ti st)))
   | GET_STALE_ORDERS \<Rightarrow> ask ''stale_orders.has_response'' (dce_has_response E Req_StaleOrders) (\<lambda>b. whenm b
       (reading details_stale_orders (\<lambda>keys. block
         [whenm (keys \<noteq> []) (fatal ''Unexpected''), dc_download_check E ti st])))
   | GET_TRADES \<Rightarrow> ask ''trades.has_response'' (dce_has_response E Req_Trades) (\<lambda>b. whenm b (dc_download_check E ti st))
   | DC_DONE \<Rightarrow> skip)"

lemma dc_check_request_queue_waits:
  "dc_check_request_queue E ti = ask ''download.state'' (dce_download_state E) (dc_waits E ti)"
  by (simp add: dc_check_request_queue_def dc_waits_def [abs_def])

lemma queue_checks:
  "checks (let tr = trace s @ [Call ''download.state'']; st = dce_download_state E tr in
      case awaited_slot st of None \<Rightarrow> []
        | Some k \<Rightarrow> if dce_has_response E k (tr @ [Call (slot_name k @ ''.has_response'')]) then [dc_state_index st] else [])
     (dc_check_request_queue E ti) s"
proof -
  have none: "checks [] skip t" for t by (simp add: checks_def exec_simps)
  have collect: "checks [dc_state_index st] (bindm (dc_collect_stale_orders E) (\<lambda>found. dc_download_check E ti st)) t" for st t
    using check_checks [of st E ti "final_state (dc_collect_stale_orders E t)"]
    by (auto simp: checks_def bindm_def dc_collect_run Let_def)
  have settled: "checks [dc_state_index st] (reading details_stale_orders (\<lambda>keys. block
         [whenm (keys \<noteq> []) (fatal ''Unexpected''), dc_download_check E ti st])) t" for st t
    using check_checks [of st E ti t] by (auto simp: checks_def reading_def whenm_def seqm_def bindm_def fatal_def skip_def)
  note rules = slot_checks [OF check_checks] slot_checks [OF collect] slot_checks [OF settled] none
  have queue: "checks (case awaited_slot st of None \<Rightarrow> []
        | Some k \<Rightarrow> if dce_has_response E k (tr @ [Call (slot_name k @ ''.has_response'')]) then [dc_state_index st] else [])
     (dc_waits E ti st) t" if "tr = trace t" for tr st t
    unfolding dc_waits_def that
    by (cases st) (simp_all only: dc_state.case awaited_slot.simps option.case slot_name.simps append.simps rules)
  show ?thesis
    unfolding dc_check_request_queue_waits
    by (rule ask_checks) (simp add: Let_def queue)
qed

lemma silent_rest:
  "silent (reading id (\<lambda>s. whenm (dc_is_ready s) (dc_check_stale_orders E ti)))"
  "silent (dc_check_response_private_token E)" "silent (dc_request_private_token E ti)"
  "silent (reading id (\<lambda>s. whenm (dc_next_simulated_disconnect s \<noteq> 0 \<and> dc_next_simulated_disconnect s < now)
      (block [modify (\<lambda>s. s\<lparr>dc_next_simulated_disconnect := 0\<rparr>), dc_request_private_token E ti])))"
  "silent (reading id (\<lambda>s. whenm (dc_logon_timeout s \<noteq> 0 \<and> dc_logon_timeout s < now)
      (block [assert_that (\<not> dc_welcome s), emit ConnClose])))"
  by (auto simp: silent_def dc_check_stale_orders_def dc_collect_stale_orders_def dc_check_response_private_token_def
    dc_request_private_token_def Let_def split: prod.split intro!: grows_rules)

lemma nothrow_queue: "nothrow (dc_check_request_queue E ti)"
proof -
  have "nothrow (dc_waits E ti st)" for st
    by (cases st) (auto simp: dc_waits_def dc_collect_stale_orders_def Let_def split: prod.split
      intro!: nothrow_intros nothrow_check)
  then show ?thesis unfolding dc_check_request_queue_waits by (intro nothrow_intros)
qed

lemma nothrow_rest:
  "nothrow (reading id (\<lambda>s. whenm (dc_is_ready s) (dc_check_stale_orders E ti)) :: dc_stmt)"
  "nothrow (dc_check_response_private_token E)"
  "nothrow (reading id (\<lambda>s. whenm (dc_logon_timeout s \<noteq> 0 \<and> dc_logon_timeout s < now)
      (block [assert_that (\<not> dc_welcome s), emit ConnClose])) :: dc_stmt)"
  "nothrow (reading id (\<lambda>s. whenm (dc_welcome s \<and> dc_next_ping s < now) (dc_send_ping E now)) :: dc_stmt)"
  by (auto simp: dc_check_stale_orders_def dc_collect_stale_orders_def dc_check_response_private_token_def dc_send_ping_def
    Let_def split: prod.split intro!: nothrow_intros nothrow_assert_that)

lemma connected_checks:
  assumes "conn_refresh (dce_connection E) (trace s @ [Call ''refresh''])"
    and "conn_ready (dce_connection E) (trace s @ [Call ''refresh'', Call ''ready''])"
    and "t = s\<lparr>trace := trace s @ [Call ''refresh'', Call ''ready'']\<rparr>"
  shows "checks (driven E s (DC_Timer ti now)) (block
          [reading id (\<lambda>s. whenm (dc_welcome s \<and> dc_next_ping s < now) (dc_send_ping E now)),
           dc_check_request_queue E ti,
           reading id (\<lambda>s. whenm (dc_is_ready s) (dc_check_stale_orders E ti))]) t"
proof -
  let ?ping = "reading id (\<lambda>s. whenm (dc_welcome s \<and> dc_next_ping s < now) (dc_send_ping E now)) :: dc_stmt"
  have ping: "checks [] ?ping t"
    by (auto simp: checks_def dc_send_ping_def exec_simps)
  have queue: "checks (driven E s (DC_Timer ti now) @ []) (seqm (dc_check_request_queue E ti)
      (reading id (\<lambda>s. whenm (dc_is_ready s) (dc_check_stale_orders E ti)))) u" if "?ping t = Normal () u" for u
  proof (rule checks_seqm [OF nothrow_queue])
    have "trace u @ [Call ''download.state''] = dc_asked_at s now"
      using that assms(3) by (auto simp: dc_asked_at_def dc_send_ping_def exec_simps split: if_splits)
    with assms(1,2) show "checks (driven E s (DC_Timer ti now)) (dc_check_request_queue E ti) u"
      using queue_checks [of u E ti] by (simp add: Let_def)
  qed (rule silent_checks [OF silent_rest(1)])
  have "checks ([] @ (driven E s (DC_Timer ti now) @ [])) (seqm ?ping (seqm (dc_check_request_queue E ti)
      (reading id (\<lambda>s. whenm (dc_is_ready s) (dc_check_stale_orders E ti))))) t"
    by (rule checks_seqm [OF nothrow_rest(4) ping queue])
  then show ?thesis by (simp only: block.simps seqm_skip_right append_Nil append_Nil2)
qed

lemma timer_checks: "checks (driven E s (DC_Timer ti now)) (dc_timer E ti now) s"
proof (cases "conn_refresh (dce_connection E) (trace s @ [Call ''refresh''])")
  case False
  then show ?thesis by (simp add: checks_def dc_timer_def ask_run whenm_def exec_simps)
next
  case True
  let ?u = "s\<lparr>trace := trace s @ [Call ''refresh'']\<rparr>"
  let ?t = "s\<lparr>trace := trace s @ [Call ''refresh'', Call ''ready'']\<rparr>"
  let ?up = "block
          [reading id (\<lambda>s. whenm (dc_welcome s \<and> dc_next_ping s < now) (dc_send_ping E now)),
           dc_check_request_queue E ti,
           reading id (\<lambda>s. whenm (dc_is_ready s) (dc_check_stale_orders E ti))]"
  let ?down = "reading id (\<lambda>s. whenm (dc_logon_timeout s \<noteq> 0 \<and> dc_logon_timeout s < now)
      (block [assert_that (\<not> dc_welcome s), emit ConnClose]))"
  let ?first = "ask ''ready'' (conn_ready (dce_connection E)) (\<lambda>connected. if connected then ?up else ?down)"
  let ?tail = "seqm (dc_check_response_private_token E) (reading id (\<lambda>s. whenm (dc_next_simulated_disconnect s \<noteq> 0
      \<and> dc_next_simulated_disconnect s < now)
      (block [modify (\<lambda>s. s\<lparr>dc_next_simulated_disconnect := 0\<rparr>), dc_request_private_token E ti])))"
  have "checks (driven E s (DC_Timer ti now)) (if conn_ready (dce_connection E) (trace ?t) then ?up else ?down) ?t"
  proof (cases "conn_ready (dce_connection E) (trace ?t)")
    case True
    with connected_checks [OF \<open>conn_refresh _ _\<close>, of ?t ti now] show ?thesis by simp
  next
    case False
    with silent_checks [OF silent_rest(5)] show ?thesis by (simp add: Let_def)
  qed
  then have first: "checks (driven E s (DC_Timer ti now)) ?first ?u"
    by (auto simp: checks_def ask_run simp del: block.simps driven.simps)
  have up: "nothrow ?up"
    by (simp only: block.simps seqm_skip_right) (intro nothrow_seqm nothrow_rest nothrow_queue)
  have "nothrow ?first"
    by (rule nothrow_ask) (rule nothrow_if [OF up nothrow_rest(3)])
  moreover have "checks ([] @ []) ?tail v" for v
    by (rule checks_seqm [OF nothrow_rest(2)]) (rule silent_checks, rule silent_rest)+
  ultimately have "checks (driven E s (DC_Timer ti now) @ []) (seqm ?first ?tail) ?u"
    by (intro checks_seqm first) simp_all
  then have "checks (driven E s (DC_Timer ti now)) (block [?first, dc_check_response_private_token E,
      reading id (\<lambda>s. whenm (dc_next_simulated_disconnect s \<noteq> 0 \<and> dc_next_simulated_disconnect s < now)
      (block [modify (\<lambda>s. s\<lparr>dc_next_simulated_disconnect := 0\<rparr>), dc_request_private_token E ti]))]) ?u"
    by (simp only: block.simps seqm_skip_right append_Nil2)
  with True show ?thesis
    by (auto simp: checks_def dc_timer_def ask_run [of "''refresh''"] whenm_def [of True] simp del: block.simps driven.simps)
qed

section \<open>Texts\<close>

lemma text_events_none:
  assumes "text_events D m allow = None"
  shows "(\<exists>e. parser_dispatch D h m allow s = Thrown e s) \<or> (\<exists>msg. parser_dispatch D h m allow s = Fatal msg s)"
proof (cases "dec_message D m")
  case (Inl e)
  then show ?thesis by (simp add: parser_dispatch_def exec_simps)
next
  case (Inr a)
  obtain t sb where a: "a = (t, sb)" by (cases a)
  show ?thesis
  proof (cases "t = Type_MESSAGE")
    case True
    with assms Inr a show ?thesis
      by (cases sb; cases allow) (auto simp: text_events_def recorded_def parser_dispatch_def dispatch_subject_def exec_simps
          split: sum.splits)
  next
    case False
    with assms Inr a show ?thesis
      by (cases t; cases allow) (auto simp: text_events_def recorded_def parser_dispatch_def exec_simps
          split: sum.splits)
  qed
qed

lemma silent_handle:
  assumes "\<And>i. ev \<noteq> Ev_Ack i"
  shows "silent (dc_handle E ti ev)"
proof -
  have "silent (dc_download_call E ti DlBegin)"
    using silent_download by (auto simp: silent_def dc_download_call_def intro!: grows_rules)
  with assms show ?thesis
    by (cases ev) (auto simp: silent_def dc_handle_def dc_error_def dc_request_private_token_def dc_order_change_def
      Let_def split: option.split intro!: grows_rules)
qed

lemma handle_checks:
  "checks (case ev of Ev_Ack i \<Rightarrow> (case dc_state_of_name i of None \<Rightarrow> [] | Some st \<Rightarrow> [dc_state_index st]) | _ \<Rightarrow> [])
     (dc_handle E ti ev) s"
proof (cases "\<exists>i. ev = Ev_Ack i")
  case True
  then obtain i where i: "ev = Ev_Ack i" ..
  show ?thesis
  proof (cases "dc_state_of_name i")
    case None
    with i show ?thesis by (simp add: dc_handle_def checks_def exec_simps)
  next
    case (Some st)
    with i check_checks show ?thesis by (simp add: dc_handle_def)
  qed
next
  case False
  with silent_checks [OF silent_handle, of ev] show ?thesis by (cases ev) simp_all
qed

lemma parse_checks: "checks (driven E s (DC_Text ti m)) (dc_parse E ti m) s"
proof (cases "dc_events E m")
  case None
  with text_events_none [of "dce_decoders E" m "set_allow_unknown_event_types (dce_settings E)" "dc_handle E ti" s]
  show ?thesis by (auto simp: checks_def dc_parse_def dc_events_def bindm_def try_catch_def fatal_def)
next
  case (Some evs)
  note parsed = text_events_any [OF Some [unfolded dc_events_def], of "dc_handle E ti" s]
  show ?thesis
  proof (cases evs)
    case Nil
    with Some parsed show ?thesis by (simp add: checks_def dc_parse_def exec_simps)
  next
    case (Cons ev rest)
    have "driven E s (DC_Text ti m)
        = (case ev of Ev_Ack i \<Rightarrow> (case dc_state_of_name i of None \<Rightarrow> [] | Some st \<Rightarrow> [dc_state_index st]) | _ \<Rightarrow> [])"
      using Some Cons by (cases ev) simp_all
    with Cons parsed handle_checks [of ev E ti s] show ?thesis
      by (cases "dc_handle E ti ev s") (auto simp: checks_def dc_parse_def exec_simps)
  qed
qed

section \<open>Every event\<close>

lemma step_checks: "checks (driven E s e) (drop_copy_step E e) s"
proof (cases e)
  case (DC_Timer ti now)
  with timer_checks show ?thesis by (simp add: drop_copy_step_def del: driven.simps)
next
  case (DC_Text ti m)
  with parse_checks show ?thesis by (simp add: drop_copy_step_def del: driven.simps)
qed (auto simp: drop_copy_step_def checks_def dc_private_token_def dc_connected_def dc_disconnected_def dc_report_run
  exec_simps)

text \<open>
  The other half: a state of the download dc_asks for what its answer is awaited from, and the number
  it returns, the number of replies the download object waits for, is the number of questions it sent.
\<close>

fun dc_asks :: "dc_state \<Rightarrow> request_kind + string \<Rightarrow> bool" where
  "dc_asks st (Inl k) = (awaited_slot st = Some k)"
| \<open>dc_asks st (Inr m) = (\<exists>rest. m = ''{"id":"'' @ dc_state_name st @ ''",'' @ rest)\<close>

lemma name_state: "dc_state_of_name (dc_state_name st) = Some st"
  by (cases st) (simp_all add: dc_state_of_name_def dc_state_name_def)

lemma download_asks:
  assumes "dc_download E ti st s = Normal n t"
  shows "\<exists>as. trace t = trace s @ as \<and> n = int (length (seen wanted as)) \<and> list_all (dc_asks st) (seen wanted as)"
  using assms
  by (cases st) (auto simp: dc_download_def Let_def dc_report_run dc_subscribe_def exec_simps split: if_splits)

text \<open>
  C16. For every event of a drop copy that does not end the process, the download object is told of
  exactly the states the code names: a tick on a ready connection tells it of the state it is in when,
  and only when, that state waits for a request slot and the slot is found answered; an acknowledgement
  tells it of the state whose name is the acknowledged id; no other event, and no other text, tells it
  of anything.
\<close>

theorem drop_copy_download_driven:
  assumes "\<not> is_fatal (drop_copy_step E e s)"
  shows "\<exists>as. trace (final_state (drop_copy_step E e s)) = trace s @ as \<and> seen dl_told as = driven E s e"
  using step_checks [of E s e] assms by (simp add: checks_def)

text \<open>A tick that finds the positions answered.\<close>

definition answered_env :: drop_copy_env where
  "answered_env = sample_drop_copy_env
     \<lparr>dce_download_state := (\<lambda>tr. GET_POSITIONS),
      dce_has_response := (\<lambda>k tr. k = Req_Positions)\<rparr>"

theorem drop_copy_download_driven_witness:
  "\<exists>as. trace (final_state (drop_copy_step answered_env (DC_Timer sample_trace_info 9) (DropCopy_create answered_env ''?token=1'')))
     = trace (DropCopy_create answered_env ''?token=1'') @ as \<and> seen dl_told as = [4]"
proof -
  have "\<not> is_fatal (drop_copy_step answered_env (DC_Timer sample_trace_info 9) (DropCopy_create answered_env ''?token=1''))"
    by (simp add: drop_copy_step_def dc_timer_def dc_check_request_queue_def dc_download_check_def dc_download_call_def
        answered_env_def sample_drop_copy_env_def sample_connection_def DropCopy_create_def sample_trace_info_def
        dc_check_response_private_token_def dc_is_ready_def exec_simps)
  from drop_copy_download_driven [OF this] show ?thesis
    by (simp add: answered_env_def sample_drop_copy_env_def sample_connection_def dc_asked_at_def dc_state_index_def
        Let_def)
qed

end
