(* ===== verification/Token_Protocol.thy ===== *)
theory Token_Protocol
  imports Drop_Copy
begin

text \<open>
  The contract of a drop copy with its token: an abstract machine whose state is the query the
  stream connects with (empty while it waits for a new one) and whose inputs are the expiry of that
  query and the arrival of another. The refinement shows that the stream, under any sequence of
  events, suspends, asks and resumes as this machine does; what other events do to the connection
  is not seen by it.
\<close>

subsection \<open>The abstract machine\<close>

datatype token_input = Expire | Renew string

fun token_step :: "string \<Rightarrow> token_input \<Rightarrow> string \<times> effect list" where
  "token_step held Expire =
     (if held = [] then (held, []) else ([], [ConnSuspendFor (ns_of_s 60), ReqIssue Req_PrivateToken]))"
| "token_step held (Renew query) = (if query \<noteq> [] \<and> held \<noteq> query then (query, [ConnResume]) else (held, []))"

fun token_run :: "string \<Rightarrow> token_input list \<Rightarrow> string \<times> effect list" where
  "token_run held [] = (held, [])"
| "token_run held (i # is) = (let (held', out) = token_step held i; (held'', outs) = token_run held' is
     in (held'', out @ outs))"

fun renewal :: "token_input \<Rightarrow> string list" where
  "renewal Expire = []"
| "renewal (Renew query) = [query]"

abbreviation renewals :: "token_input list \<Rightarrow> string list" where
  "renewals is \<equiv> concat (map renewal is)"

lemma token_run_snoc:
  "token_run held (is @ [i]) = (let (held', outs) = token_run held is; (held'', out) = token_step held' i
     in (held'', outs @ out))"
  by (induction "is" arbitrary: held) (simp_all add: Let_def split: prod.split)

subsection \<open>The stream seen as the machine\<close>

fun token_effect :: "effect \<Rightarrow> bool" where
  "token_effect (ConnSuspendFor period) = True"
| "token_effect ConnResume = True"
| "token_effect (ReqIssue Req_PrivateToken) = True"
| "token_effect _ = False"

fun tokens_of :: "drop_copy_event \<Rightarrow> string list" where
  "tokens_of (DC_PrivateToken query) = [query]"
| "tokens_of _ = []"

text \<open>The machine started with the first query can have been given these renewals and be where the stream is.\<close>

definition follows :: "string \<Rightarrow> string list \<Rightarrow> drop_copy \<Rightarrow> bool" where
  "follows first tokens s \<longleftrightarrow> (\<exists>is. token_run first is = (dc_query s, [a\<leftarrow>trace s. token_effect a]) \<and> renewals is = tokens)"

lemma follows_input:
  assumes "follows first tokens s" and "token_step (dc_query s) i = (dc_query t, [a\<leftarrow>as. token_effect a])"
    and "trace t = trace s @ as"
  shows "follows first (tokens @ renewal i) t"
proof -
  from assms(1) obtain "is" where "token_run first is = (dc_query s, [a\<leftarrow>trace s. token_effect a])" "renewals is = tokens"
    by (auto simp: follows_def)
  with assms(2,3) show ?thesis unfolding follows_def
    by (intro exI [of _ "is @ [i]"]) (simp add: token_run_snoc)
qed

lemma follows_silent:
  "follows first tokens s \<Longrightarrow> dc_query t = dc_query s \<Longrightarrow> trace t = trace s @ as \<Longrightarrow> list_all (\<lambda>a. \<not> token_effect a) as
   \<Longrightarrow> follows first tokens t"
  by (auto simp: follows_def list_all_iff)

lemma plain_effect_no_token: "plain_effect a \<Longrightarrow> \<not> token_effect a"
  by (cases a rule: plain_effect.cases) auto

lemma dc_safe_follows: "dc_safe E (follows first tokens)"
proof (rule dc_safeI)
  let ?I = "follows first tokens"
  show "keeps ?I (emit a :: dc_stmt)" if "plain_effect a \<or> (\<exists>m. a = SendText m)" for a
  proof -
    have "\<not> token_effect a" using that plain_effect_no_token by auto
    then show ?thesis by (intro keeps_emit) (erule follows_silent [where as = "[a]"], simp_all)
  qed
  show "keeps ?I (modify f :: dc_stmt)" if "plain_update f" for f
    using that by (intro keeps_modify) (simp add: plain_update_def follows_def)
  show "keeps ?I (dc_request_private_token E ti)" for ti
  proof (rule keepsI)
    fix s assume "?I s"
    then have "follows first (tokens @ renewal Expire) (final_state (dc_request_private_token E ti s))"
      by (rule follows_input [where as = "if dc_query s = [] then [] else [ConnSuspendFor (ns_of_s 60), ReqIssue Req_PrivateToken]"])
        (simp_all add: dc_request_private_token_run)
    then show "?I (final_state (dc_request_private_token E ti s))" by simp
  qed
  show "keeps ?I (dc_report E ti st reason)" for ti st reason
    by (rule keepsI) (erule follows_silent, simp add: dc_report_run, simp add: dc_report_run, simp)
  show "keeps ?I (dc_download E ti DC_DONE)" for ti
    by (rule keepsI) (erule follows_silent, simp add: dc_done_run, simp add: dc_done_run, simp)
  show "keeps ?I (dc_disconnected E ti)" for ti
    by (rule keepsI) (erule follows_silent, simp add: dc_disconnected_run, simp add: dc_disconnected_run, simp)
qed

lemma follows_token:
  assumes "follows first tokens s"
  shows "follows first (tokens @ [query]) (final_state (dc_private_token E query s))"
proof -
  from assms have "follows first (tokens @ renewal (Renew query)) (final_state (dc_private_token E query s))"
    by (rule follows_input [where as = "if query \<noteq> [] \<and> dc_query s \<noteq> query then [ConnResume] else []"])
      (simp_all add: dc_private_token_run)
  then show ?thesis by simp
qed

lemma follows_step: "follows first tokens s \<Longrightarrow> follows first (tokens @ tokens_of e) (final_state (drop_copy_step E e s))"
proof (cases "tokens_of e")
  case Nil
  assume "follows first tokens s"
  from keepsD [OF drop_copy_keeps [OF dc_safe_follows] this] Nil show ?thesis
    by (cases e) auto
next
  case (Cons query rest)
  assume "follows first tokens s"
  from follows_token [OF this] Cons show ?thesis
    by (cases e) (auto simp: drop_copy_step_def)
qed

lemma follows_run: "follows first tokens s \<Longrightarrow>
  follows first (tokens @ concat (map tokens_of es)) (run_events (drop_copy_step E) es s)"
proof (induction es arbitrary: s tokens)
  case (Cons e es)
  from Cons.IH [OF follows_step [OF Cons.prems]] show ?case by simp
qed simp

text \<open>
  C3. The drop copy implements the token protocol: after any sequence of events from its creation on,
  the suspensions, token requests and resumptions it has made, in their order, and the query it
  holds are those of the abstract machine started with the first query, given exactly the tokens
  that arrived, in their order, and expiries in between. So it asks for a token only when it gives up
  the one it holds, always after suspending the connection, and resumes only for a new one.
\<close>

theorem token_protocol_refined:
  "\<exists>is. token_run query is = (dc_query (run_events (drop_copy_step E) es (DropCopy_create E query)),
       [a\<leftarrow>trace (run_events (drop_copy_step E) es (DropCopy_create E query)). token_effect a])
     \<and> renewals is = concat (map tokens_of es)"
proof -
  have "follows query [] (DropCopy_create E query)"
    by (auto simp: follows_def DropCopy_create_def intro: exI [of _ "[]"])
  from follows_run [OF this] show ?thesis by (simp add: follows_def)
qed

end
