(* ===== verification/Order_Book.thy ===== *)
theory Order_Book
  imports Rest_Stream
begin

text \<open>
  Recovering an order book: a symbol whose sequencer asked for a snapshot is queued; the REST
  stream fetches the snapshot of every symbol the queue lets through, and hands the answer to the
  symbol's sequencer.
\<close>

fun publishes_update :: "sequencer_call \<Rightarrow> bool" where
  "publishes_update (PublishUpdate bids asks) = True"
| "publishes_update _ = False"

lemma re_sequencer_call_carries_out:
  assumes "within_retries (ree_settings E) [c]" and "\<not> publishes_update c"
  shows "\<exists>as. re_sequencer_call E data c s = Normal () (s\<lparr>trace := trace s @ as\<rparr>) \<and> carries_out (ob_symbol data) [c] as"
  using assms
  by (cases c) (auto simp: re_sequencer_call_def Let_def request_snapshot_def exec_simps carries_out_def
      re_snapshot_update_def within_retries_def)

definition snapshot_request :: "rest_env \<Rightarrow> string \<Rightarrow> effect" where
  "snapshot_request E symb = SendRequest
     (re_request GET (api_level2_snapshot (ree_api E)) (''?symbol='' @ symb)) ''order_book'' (CbOrderBook symb)"

lemma re_timer_requests:
  "trace (final_state (rest_step E (RE_Timer ti) s)) = (let
       tr = trace s @ [Call ''refresh'']; queued = tr @ [Call ''depth_request_queue.dispatch'']
     in if conn_refresh (ree_connection E) tr \<and> re_is_ready s
        then queued @ map (snapshot_request E) (ree_depth_dispatch E queued) else tr)"
proof -
  have one: "get_order_book E symb u = Normal () (u\<lparr>trace := trace u @ [snapshot_request E symb]\<rparr>)" for symb u
    by (simp add: get_order_book_def snapshot_request_def exec_simps)
  note loop = for_each_trace [of "get_order_book E" "\<lambda>symb. [snapshot_request E symb]", OF one]
  show ?thesis
    by (simp add: rest_step_def re_timer_def re_check_request_queue_def ask_run loop whenm_def reading_def re_is_ready_def Let_def)
qed

text \<open>
  C21. Order book recovery: whenever the stream is ready, a timer requests the snapshot of exactly
  the symbols the queue lets through, each once and in order; and a snapshot that arrives is handed
  to the sequencer of its symbol with all its levels and its sequence number, what the sequencer
  publishes in answer reaches the server as a snapshot of that symbol, every further snapshot it
  asks for is queued, and a \<open>BadState\<close> clears the sequencer and queues the symbol again.
\<close>

theorem order_book_recovered:
  assumes "decoded response (ree_order_book E) = Some data" and "ob_code data = RE_SYSTEM_CODE_SUCCESS"
    and "called = trace s @ [SequencerSnapshot (ob_symbol data) (map re_level (ob_bids data)) (map re_level (ob_asks data))
      (ob_sequence data)]"
    and "within_retries (ree_settings E) (sq_calls (ree_sequencer E called))"
    and "\<not> list_ex publishes_update (sq_calls (ree_sequencer E called))"
  shows "(\<exists>as. rest_step E (RE_OrderBookAck ti response symb) s = Normal () (s\<lparr>trace := called @ as @
        (if sq_bad_state (ree_sequencer E called) then [SequencerClear (ob_symbol data), DepthQueuePush (ob_symbol data)] else [])\<rparr>)
      \<and> carries_out (ob_symbol data) (sq_calls (ree_sequencer E called)) as)
    \<and> trace (final_state (rest_step E (RE_Timer ti) u)) = (let
       tr = trace u @ [Call ''refresh'']; queued = tr @ [Call ''depth_request_queue.dispatch'']
     in if conn_refresh (ree_connection E) tr \<and> re_is_ready u
        then queued @ map (snapshot_request E) (ree_depth_dispatch E queued) else tr)"
proof -
  let ?calls = "sq_calls (ree_sequencer E called)"
  have calls: "\<exists>as. re_sequencer_call E data c s = Normal () (s\<lparr>trace := trace s @ as\<rparr>) \<and> carries_out (ob_symbol data) [c] as"
    if "c \<in> set ?calls" for c s
    using that assms(4,5) by (intro re_sequencer_call_carries_out) (auto simp: within_retries_def list_ex_iff)
  have "re_order_book E data s = with_resubscribe (ob_symbol data)
      (run_sequencer (re_sequencer_call E data) (ree_sequencer E called)) (s\<lparr>trace := called\<rparr>)"
    using assms(3) by (simp add: re_order_book_def Let_def with_resubscribe_def exec_simps)
  with with_resubscribe_sequencer [OF calls, where s = "s\<lparr>trace := called\<rparr>"] obtain as
    where book: "re_order_book E data s = Normal () (s\<lparr>trace := called @ as @
        (if sq_bad_state (ree_sequencer E called) then [SequencerClear (ob_symbol data), DepthQueuePush (ob_symbol data)] else [])\<rparr>)"
      and "carries_out (ob_symbol data) ?calls as"
    by auto
  moreover obtain status category body where r: "rr_result response = Inr (status, category, body)"
    "category = SUCCESS \<or> category = CLIENT_ERROR" "ree_order_book E body = Inr data"
    using assms(1) by (auto simp: decoded_def split: sum.splits if_splits)
  have "rest_step E (RE_OrderBookAck ti response symb) s = re_order_book E data s"
    using assms(2) book
    by (simp add: rest_step_def get_order_book_ack_def rest_process_response_def response_switch_success [OF r(1,2)] r(3)
      whenm_def try_catch_def)
  ultimately show ?thesis using re_timer_requests by auto
qed

definition sample_book :: order_book_ack where
  "sample_book = \<lparr>ob_code = 200000, ob_sequence = 100, ob_symbol = ''XBTUSDTM'',
     ob_bids = [\<lparr>bl_price = Fin 5000, bl_size = Fin 10\<rparr>], ob_asks = [\<lparr>bl_price = Fin 5001, bl_size = Fin 7\<rparr>], ob_ts_ms = 1\<rparr>"

theorem order_book_recovered_witness:
  "\<exists>as. rest_step (sample_rest_env\<lparr>ree_order_book := (\<lambda>b. Inr sample_book),
         ree_sequencer := (\<lambda>_. \<lparr>sq_calls = [PublishSnapshot [] [] 100], sq_bad_state = False\<rparr>)\<rparr>)
       (RE_OrderBookAck sample_trace_info (ok_response ''{}'') ''XBTUSDTM'') Rest_create
     = Normal () (Rest_create\<lparr>trace := [SequencerSnapshot ''XBTUSDTM'' [\<lparr>mbp_price = Fin 5000, mbp_quantity = Fin 10\<rparr>]
         [\<lparr>mbp_price = Fin 5001, mbp_quantity = Fin 7\<rparr>] 100] @ as\<rparr>)
     \<and> carries_out ''XBTUSDTM'' [PublishSnapshot [] [] 100] as"
proof -
  let ?E = "sample_rest_env\<lparr>ree_order_book := (\<lambda>b. Inr sample_book),
         ree_sequencer := (\<lambda>_. \<lparr>sq_calls = [PublishSnapshot [] [] 100], sq_bad_state = False\<rparr>)\<rparr>"
  have d: "decoded (ok_response ''{}'') (ree_order_book ?E) = Some sample_book"
    by (simp add: decoded_def ok_response_def)
  have c: "ob_code sample_book = RE_SYSTEM_CODE_SUCCESS"
    by (simp add: sample_book_def RE_SYSTEM_CODE_SUCCESS_def)
  have w: "within_retries (ree_settings ?E) (sq_calls (ree_sequencer ?E tr))"
    "\<not> list_ex publishes_update (sq_calls (ree_sequencer ?E tr))" for tr
    by (simp_all add: within_retries_def)
  from order_book_recovered [OF d c refl w, of sample_trace_info "''XBTUSDTM''" Rest_create]
  show ?thesis by (auto simp: sample_book_def re_level_def Rest_create_def)
qed

end
