(* ===== verification/Wire_Texts.thy ===== *)
theory Wire_Texts
  imports Token_Renewal
begin

text \<open>
  What the gateway writes on its websockets, as a typing of texts: a message is a JSON object that
  opens with its id. The typing is carried through every handler of the three kinds of websocket
  streams, and by the controller's contract (\<open>streams_invariant\<close>) to every reachable state.
\<close>

subsection \<open>Messages\<close>

definition json_message :: "string \<Rightarrow> bool" where
  "json_message m \<longleftrightarrow> (\<exists>i fs. read_json m = Some (JFields ((''id'', i) # fs)))"

lemma json_message_render: "m = render (JFields ((''id'', i) # fs)) \<Longrightarrow> plain i \<Longrightarrow> plain_fields fs \<Longrightarrow> json_message m"
  using read_json_render [of "JFields ((''id'', i) # fs)"] by (auto simp: json_message_def plain_text_def)

lemma plain_digits: "list_all is_digit ds \<Longrightarrow> plain_text ds"
  by (auto simp: plain_text_def list_all_iff is_digit_def)

lemma plain_fmt_nat [simp]: "plain_text (fmt_nat n)"
  by (intro plain_digits fmt_nat_all_digits)

lemma plain_fmt_int [simp]: "plain_text (fmt_int i)"
  using plain_fmt_nat [of "nat (- i)"] plain_fmt_nat [of "nat i"] by (simp add: fmt_int_def plain_text_def)

lemma json_ping: "json_message (ping_message now)"
  by (rule json_message_render [where i = "JNumber now" and fs = "[(''type'', JText ''ping'')]"])
    (simp_all add: ping_message_def quoted_def plain_text_def)

lemma json_ow_ping: "json_message (ow_ping_message now)"
  by (rule json_message_render [where i = "JText (fmt_int now)" and fs = "[(''op'', JText ''ping'')]"])
    (simp_all add: ow_ping_message_def quoted_def, simp add: plain_text_def)

lemma json_subscribe: "plain_text topic \<Longrightarrow> plain_text item \<Longrightarrow> json_message (subscribe_message i topic item)"
  by (rule json_message_render [where i = "JText (fmt_nat (unat i))" and fs = "[(''type'', JText ''subscribe''),
      (''topic'', JText (topic @ '':'' @ item)), (''response'', JFlag True)]"])
    (simp_all add: subscribe_message_def quoted_def, simp add: plain_text_def)

lemma json_dc_subscribe:
  \<open>plain_text topic \<Longrightarrow> json_message (''{'' @ ''"id":"'' @ dc_state_name st @ ''",'' @ ''"type":"subscribe",''
     @ ''"topic":"'' @ topic @ ''",'' @ ''"response":true,'' @ ''"privateChannel":true'' @ ''}'')\<close>
  by (rule json_message_render [where i = "JText (dc_state_name st)" and fs = "[(''type'', JText ''subscribe''),
      (''topic'', JText topic), (''response'', JFlag True), (''privateChannel'', JFlag True)]"])
    (simp_all add: quoted_def, simp_all add: plain_text_def dc_state_name_def split: dc_state.split)

subsection \<open>Typed traces\<close>

fun text_ok :: "(string \<Rightarrow> bool) \<Rightarrow> effect \<Rightarrow> bool" where
  "text_ok Q (SendText m) = Q m"
| "text_ok Q (SubscribeQueuePush m) = Q m"
| "text_ok Q _ = True"

lemma text_ok_silent: "\<not> outgoing a \<Longrightarrow> text_ok Q a"
  by (cases a) simp_all

lemma grows_text_ok: "grows (text_ok Q) [] s \<longleftrightarrow> list_all (text_ok Q) (trace s)"
  by (simp add: grows_def)

abbreviation texts :: "(string \<Rightarrow> bool) \<Rightarrow> 'z ctx_scheme \<Rightarrow> bool" where
  "texts Q \<equiv> grows (text_ok Q) []"

lemma texts_sent: "texts Q s \<Longrightarrow> SendText m \<in> set (trace s) \<Longrightarrow> Q m"
  by (auto simp: grows_text_ok list_all_iff)

text \<open>The private streams have no queue: what counts is what they send.\<close>

fun sent_ok :: "(string \<Rightarrow> bool) \<Rightarrow> effect \<Rightarrow> bool" where
  "sent_ok Q (SendText m) = Q m"
| "sent_ok Q _ = True"

lemma sent_ok_other: "\<forall>m. a \<noteq> SendText m \<Longrightarrow> sent_ok Q a"
  by (cases a) simp_all

abbreviation sends :: "(string \<Rightarrow> bool) \<Rightarrow> 'z ctx_scheme \<Rightarrow> bool" where
  "sends Q \<equiv> grows (sent_ok Q) []"

lemma sends_sent: "sends Q s \<Longrightarrow> SendText m \<in> set (trace s) \<Longrightarrow> Q m"
  by (auto simp: grows_def list_all_iff)

subsection \<open>Market data\<close>

text \<open>
  The table of symbols names symbols without quotes or backslashes, and the rate limited queue hands
  out only what was put into it.
\<close>

definition plain_market :: "market_data_env \<Rightarrow> bool" where
  "plain_market E \<longleftrightarrow> mde_api E = API_create
     \<and> (\<forall>i n tr. list_all plain_text (mde_get_slice E i n tr))
     \<and> (\<forall>tr m. m \<in> set (mde_queue_dispatch E tr) \<longrightarrow> SubscribeQueuePush m \<in> set tr)"

lemma plain_topics: "list_all plain_text (topics API_create)"
  by (simp add: topics_def API_create_def plain_text_def)

lemma numbered_ok:
  "list_all (\<lambda>(topic, item). plain_text topic \<and> plain_text item) ps \<Longrightarrow> list_all (text_ok json_message) (numbered i ps)"
  by (induction i ps rule: numbered.induct) (auto simp: json_subscribe)

lemma texts_md_subscribe:
  assumes "plain_market E"
  shows "keeps (texts json_message) (md_subscribe E n)"
proof (rule keepsI)
  fix s :: market_data
  let ?symbols = "mde_get_slice E (mde_index E) n (trace s @ [Call ''symbols.get_slice''])"
  have "list_all plain_text ?symbols" "list_all plain_text (topics (mde_api E))"
    using assms plain_topics by (auto simp: plain_market_def)
  then have "list_all (\<lambda>(topic, item). plain_text topic \<and> plain_text item) (List.product (topics (mde_api E)) ?symbols)"
    by (auto simp: list_all_iff)
  note numbered_ok [OF this, of "md_request_id s"]
  moreover assume "texts json_message s"
  ultimately show "texts json_message (final_state (md_subscribe E n s))"
    by (simp add: grows_text_ok md_subscribe_def md_subscribe_symbols_run exec_simps)
qed

lemma texts_md_queue:
  assumes "plain_market E"
  shows "keeps (texts json_message) (md_check_subscribe_queue E)"
proof (rule keepsI)
  fix s :: market_data
  assume "texts json_message s"
  then show "texts json_message (final_state (md_check_subscribe_queue E s))"
    using assms by (auto simp: md_check_subscribe_queue_run grows_text_ok list_all_iff plain_market_def) fastforce
qed

lemma md_safe_texts:
  assumes "plain_market E"
  shows "md_safe E (texts json_message)"
  unfolding md_safe_def
proof (intro conjI allI impI)
  show "keeps (texts json_message) (emit a :: md_stmt)" if "\<not> outgoing a" for a
    using that by (intro keeps_grows_emit text_ok_silent)
  show "keeps (texts json_message) (modify f :: md_stmt)" if "md_plain_update f" for f
    using that by (intro keeps_grows_modify) (simp add: md_plain_update_def)
  show "keeps (texts json_message) (md_check_ping E now)" for now
    unfolding md_check_ping_def md_send_ping_def by (auto intro!: grows_rules simp: json_ping)
  show "keeps (texts json_message) (md_welcome_message E ti)" for ti
    unfolding md_welcome_message_def md_report_def using texts_md_subscribe [OF assms] by (auto intro!: grows_rules)
qed (fact texts_md_subscribe [OF assms] texts_md_queue [OF assms])+

lemma market_data_texts: "plain_market E \<Longrightarrow> keeps (texts json_message) (market_data_step E e)"
  by (rule market_data_keeps [OF md_safe_texts])
    (auto simp: md_disconnected_def md_report_def intro!: grows_rules)

subsection \<open>Drop copies\<close>

lemma dc_safe_texts: "dc_safe E (sends json_message)"
  unfolding dc_safe_def
proof (intro conjI allI impI ballI)
  show "keeps (sends json_message) (emit a :: dc_stmt)" if "plain_effect a" for a
    using that by (intro keeps_grows_emit) (cases a; simp)
  show "keeps (sends json_message) (modify f :: dc_stmt)" if "plain_update f" for f
    using that by (intro keeps_grows_modify) (simp add: plain_update_def)
  show "keeps (sends json_message) (dc_subscribe st topic)" if "topic \<in> dc_topics" for st topic
    unfolding dc_subscribe_def using that
    by (intro keeps_grows_emit) (auto simp only: sent_ok.simps dc_topics_def insert_iff empty_iff
      intro!: json_dc_subscribe, simp_all add: plain_text_def)
qed (auto simp: dc_request_private_token_def dc_report_def dc_download_def dc_disconnected_def dc_send_ping_def json_ping Let_def
  intro!: grows_rules)

lemma drop_copy_texts: "keeps (sends json_message) (drop_copy_step E e)"
  by (rule drop_copy_keeps [OF dc_safe_texts]) (auto simp: dc_private_token_def intro!: grows_rules)

subsection \<open>Order entry\<close>

text \<open>The text of an order action, and whether the strings that go into it are plain.\<close>

definition order_text :: "order_entry_ws_env \<Rightarrow> order_action \<Rightarrow> string option" where
  "order_text E a = (case a of
     CreateOrder info co rf request_id \<Rightarrow> ws_add_order (owe_encoder E) co rf request_id (owe_margin_mode E)
   | CancelOrder info xo order request_id \<Rightarrow> Some (ws_cancel_order order request_id)
   | _ \<Rightarrow> None)"

definition plain_action :: "order_entry_ws_env \<Rightarrow> order_action \<Rightarrow> bool" where
  "plain_action E a = (case a of
     CreateOrder info co rf request_id \<Rightarrow> plain_inputs (owe_encoder E) co rf request_id
   | CancelOrder info xo order request_id \<Rightarrow>
       plain_text request_id \<and> plain_text (or_symbol order) \<and> plain_text (or_client_order_id order)
   | _ \<Rightarrow> True)"

lemma json_order:
  assumes "order_text E a = Some m" and "plain_action E a"
  shows "json_message m"
proof (cases a)
  case (CreateOrder info co rf rid)
  with assms have typed: "co_order_type co \<noteq> OrderType_UNDEFINED" and inputs: "plain_inputs (owe_encoder E) co rf rid"
    by (auto simp: order_text_def plain_action_def ws_add_order_def add_order_def Let_def)
  note args = plain_order_fields [OF inputs, of "owe_margin_mode E"]
  from CreateOrder assms(1) have "m = render (JFields ((''id'', JText rid) # [(''op'', JText ''futures.order''),
      (''args'', JFields (order_fields (owe_encoder E) co rf rid (owe_margin_mode E)))]))"
    by (simp add: order_text_def ws_add_order_renders [OF typed] ws_fields_def del: render.simps)
  then show ?thesis
    using args inputs by (elim json_message_render) (auto simp: plain_inputs_def plain_text_def)
next
  case (CancelOrder info xo order rid)
  with assms have "m = render (JFields ((''id'', JText rid) # [(''op'', JText ''futures.cancel''),
      (''args'', JFields [(''symbol'', JText (or_symbol order)), (''clientOid'', JText (or_client_order_id order))])]))"
    by (simp add: order_text_def ws_cancel_order_renders ws_fields_def del: render.simps)
  then show ?thesis
    using CancelOrder assms(2) by (elim json_message_render) (auto simp: plain_action_def plain_text_def)
qed (use assms in \<open>simp_all add: order_text_def\<close>)

definition order_stream_text :: "order_entry_ws_env \<Rightarrow> string \<Rightarrow> bool" where
  "order_stream_text E m \<longleftrightarrow> json_message m \<or> (\<exists>challenge. m = owe_ws_auth E challenge)
     \<or> (\<exists>a. order_text E a = Some m \<and> \<not> plain_action E a)"

lemma order_text_typed: "order_text E a = Some m \<Longrightarrow> order_stream_text E m"
  using json_order by (auto simp: order_stream_text_def)

lemma ow_safe_texts: "ow_safe E (sends (order_stream_text E))"
  unfolding ow_safe_def
proof (intro conjI allI impI)
  let ?I = "sends (order_stream_text E)"
  show "keeps ?I (emit a :: ow_stmt)" if "\<forall>m. a \<noteq> SendText m" for a
    using that by (intro keeps_grows_emit sent_ok_other)
  show "keeps ?I (ow_action E a)" for a
  proof (cases a)
    case (CreateOrder info co rf rid)
    have "order_stream_text E m" if "ws_add_order (owe_encoder E) co rf rid (owe_margin_mode E) = Some m" for m
      using that CreateOrder by (intro order_text_typed [of E a]) (simp add: order_text_def)
    with CreateOrder show ?thesis
      by (auto simp: ow_action_def intro!: grows_rules split: option.split)
  next
    case (CancelOrder info xo order rid)
    have "order_stream_text E (ws_cancel_order order rid)"
      using CancelOrder by (intro order_text_typed [of E a]) (simp add: order_text_def)
    with CancelOrder show ?thesis by (auto simp: ow_action_def intro!: grows_rules)
  qed (auto simp: ow_action_def intro!: grows_rules)
  show "keeps ?I (ow_auth E ti message)" for ti message
    unfolding ow_auth_def ow_report_def by (auto intro!: grows_rules simp: order_stream_text_def)
  show "keeps ?I (ow_send_ping now)" for now
    unfolding ow_send_ping_def by (auto intro!: grows_rules simp: order_stream_text_def json_ow_ping)
qed (auto simp: ow_report_def ow_welcome_message_def ow_disconnected_def intro!: grows_rules)

subsection \<open>The whole gateway\<close>

interpretation typed: streams_invariant "\<lambda>E c. True" "\<lambda>E c. True" "\<lambda>E. sends (order_stream_text E)"
  "\<lambda>E. sends json_message" "\<lambda>E c. plain_market E \<longrightarrow> texts json_message c"
proof
  show "keeps (\<lambda>c. True) (rest_step E e)" "keeps (\<lambda>c. True) (order_entry_step E' e')" for E e E' e'
    by (simp_all add: keeps_def)
  show "keeps (sends (order_stream_text E)) (order_entry_ws_step E e)" for E e
    by (rule order_entry_ws_keeps [OF ow_safe_texts])
  show "keeps (sends json_message) (drop_copy_step E e)" for E e
    by (rule drop_copy_texts)
  show "keeps (\<lambda>c. plain_market E \<longrightarrow> texts json_message c) (market_data_step E e)" for E e
    using market_data_texts by (auto simp: keeps_def)
  show "plain_market E \<longrightarrow> texts json_message c" if "MarketData_create E = Some c" for E c
    using that by (auto simp: MarketData_create_def grows_def split: if_splits)
qed (simp_all add: grows_def OrderEntryWS_create_def DropCopy_create_def)

text \<open>
  C8. In every state the gateway can reach, every text it has sent on a websocket is a JSON object
  that opens with its id. On a drop copy this is so without exception; on a market data stream, if
  the table of symbols names plain symbols and the queue hands out what was put in; on a websocket
  order stream, but for the answers to login challenges, which are bare signatures, and the texts of
  orders whose own strings hold a quote or a backslash, which the encoder does not escape.
\<close>

theorem websocket_texts_typed:
  assumes "gc_reach G (Controller_create G config) s"
  shows "(\<forall>account E c m. gc_drop_copy s account = Some (E, c) \<and> SendText m \<in> set (trace c) \<longrightarrow> json_message m)
     \<and> (\<forall>E c m. (E, c) \<in> set (gc_market_data s) \<and> plain_market E \<and> SendText m \<in> set (trace c) \<longrightarrow> json_message m)
     \<and> (\<forall>account E c m. gc_order_entry_ws s account = Some (E, c) \<and> SendText m \<in> set (trace c) \<longrightarrow>
          json_message m \<or> (\<exists>challenge. m = owe_ws_auth E challenge)
          \<or> (\<exists>a. order_text E a = Some m \<and> \<not> plain_action E a))"
proof -
  have "typed.all_ok s"
    by (rule typed.whole.reached [OF assms typed.all_ok_create])
  then have ok: "gc_drop_copy s account = Some (E4, c4) \<Longrightarrow> sends json_message c4"
    "(E5, c5) \<in> set (gc_market_data s) \<Longrightarrow> plain_market E5 \<Longrightarrow> texts json_message c5"
    "gc_order_entry_ws s account = Some (E3, c3) \<Longrightarrow> sends (order_stream_text E3) c3" for account E3 c3 E4 c4 E5 c5
    by (simp_all add: typed.all_ok_def)
  show ?thesis
    using ok(1) [THEN sends_sent] ok(2) [THEN texts_sent] ok(3) [THEN sends_sent, unfolded order_stream_text_def]
    by blast
qed

definition typed_controller_env :: controller_env where
  "typed_controller_env = token_controller_env\<lparr>ge_drop_copy := (\<lambda>account uri. welcome_env
     \<lparr>dce_download := (\<lambda>tr. DlCall SUBSCRIBE_BALANCES (\<lambda>n. DlDone))\<rparr>)\<rparr>"

theorem websocket_texts_typed_witness:
  "\<exists>s E c m. gc_reach typed_controller_env (Controller_create typed_controller_env sample_config) s
     \<and> gc_drop_copy s ''A1'' = Some (E, c) \<and> SendText m \<in> set (trace c) \<and> json_message m"
proof -
  let ?G = typed_controller_env
  let ?s = "Controller_create ?G sample_config"
  let ?e = "GC_OrderEntryREST ''A1'' (OE_PrivateTokenAck sample_trace_info (ok_response ''t1''))"
  let ?D = "drop_copy_stream ?G 3 ''A1'' ''wss'' 18000000000"
  let ?w = "GC_DropCopy ''A1'' (DC_Text sample_trace_info ''welcome'')"
  note run = controller_step_def on_order_entry_rest_def relaying_def attempt_def zoom_def order_entry_step_def
      get_private_token_ack_def process_response_def response_switch_def ok_response_def order_entry_rest_stream_def
      typed_controller_env_def token_controller_env_def sample_controller_env_def sample_order_entry_env_def
      OE_SYSTEM_CODE_SUCCESS_def oe_token_def oe_download_call_def oe_download_def oe_report_run ns_of_ms_def exec_simps
      put_order_entry_rest_def lend_def on_notification_def on_private_token_run create_drop_copy_run
      OrderEntryREST_create_def Let_def Controller_create_def create_order_entry_ws_def sample_config_def sample_settings_def
  have "\<exists>t d. controller_step ?G ?e ?s = Normal () t \<and> gc_drop_copy t ''A1'' = Some (?D, d)"
    by (simp add: run drop_copy_stream_def)
  then obtain t d where t: "controller_step ?G ?e ?s = Normal () t" and d: "gc_drop_copy t ''A1'' = Some (?D, d)" by blast
  have one: "gc_reach ?G ?s t"
    using gc_event [OF gc_created, of ?G ?e ?s] t by simp
  note handled = dc_parse_def parser_dispatch_def dc_handle_def dc_download_call_def dc_download_def dc_report_run dc_subscribe_def
    drop_copy_stream_def typed_controller_env_def welcome_env_def sample_drop_copy_env_def no_decoders_def exec_simps Let_def
  have "\<exists>c m. drop_copy_step ?D (DC_Text sample_trace_info ''welcome'') (lend ''A1'' t d) = Normal () c
      \<and> SendText m \<in> set (trace c)"
    by (simp add: drop_copy_step_def handled) blast
  then obtain c m where c: "drop_copy_step ?D (DC_Text sample_trace_info ''welcome'') (lend ''A1'' t d) = Normal () c"
    and m: "SendText m \<in> set (trace c)" by blast
  let ?u = "put_drop_copy ''A1'' ?D d c t"
  have "controller_step ?G ?w t = Normal () ?u"
    using d c by (simp add: controller_step_def on_drop_copy_def reading_def zoom_def)
  with gc_event [OF one, of ?w] have two: "gc_reach ?G ?s ?u" by simp
  from d have "gc_drop_copy ?u ''A1'' = Some (?D, c\<lparr>details_stale_orders := details_stale_orders d\<rparr>)"
    by (simp add: put_drop_copy_def)
  with websocket_texts_typed [OF two] two m show ?thesis by fastforce
qed

end
