(* ===== verification/Stream_Setup.thy ===== *)
theory Stream_Setup
  imports Gateway
begin

text \<open>
  How the streams are set up, in the head of \<open>gateway/rest.cpp\<close>, \<open>order_entry_rest.cpp\<close>,
  \<open>order_entry_ws.cpp\<close>, \<open>drop_copy.cpp\<close> and \<open>market_data.cpp\<close>: the name of a stream, what its connection
  is configured with, the metrics it creates and those it writes. The connections and the values of
  the metrics are library objects; \<open>package_name\<close> is the build's macro.
\<close>

subsection \<open>Names\<close>

definition Rest_name :: "16 word \<Rightarrow> string" where
  "Rest_name stream_id = fmt_nat (unat stream_id) @ '':'' @ ''rest''"

definition OrderEntryREST_name :: "16 word \<Rightarrow> string \<Rightarrow> string" where
  "OrderEntryREST_name stream_id account = fmt_nat (unat stream_id) @ '':'' @ ''om'' @ '':'' @ account"

definition OrderEntryWS_name :: "16 word \<Rightarrow> string \<Rightarrow> string" where
  "OrderEntryWS_name stream_id account = fmt_nat (unat stream_id) @ '':'' @ ''ex'' @ '':'' @ account"

definition DropCopy_name :: "16 word \<Rightarrow> string \<Rightarrow> string" where
  "DropCopy_name stream_id account = fmt_nat (unat stream_id) @ '':'' @ ''ex'' @ '':'' @ account"

definition MarketData_name :: "16 word \<Rightarrow> string" where
  "MarketData_name stream_id = fmt_nat (unat stream_id) @ '':'' @ ''md''"

subsection \<open>Connections\<close>

datatype http_connection = CLOSE | KEEP_ALIVE

record rest_client_config =
  rc_interface :: string
  rc_proxy :: string
  rc_uris :: "string list"
  rc_host :: string
  rc_validate_certificate :: bool
  rc_connection_timeout :: int
  rc_disconnect_on_idle_timeout :: int
  rc_connection :: http_connection
  rc_allow_pipelining :: bool
  rc_request_timeout :: int
  rc_suspend_on_retry_after :: bool
  rc_query :: string
  rc_user_agent :: string
  rc_ping_frequency :: int
  rc_ping_path :: string
  rc_decode_buffer_size :: nat
  rc_encode_buffer_size :: nat

record socket_client_config =
  sc_interface :: string
  sc_uris :: "string list"
  sc_host :: string
  sc_validate_certificate :: bool
  sc_connection_timeout :: int
  sc_disconnect_on_idle_timeout :: int
  sc_always_reconnect :: bool
  sc_proxy :: string
  sc_user_agent :: string
  sc_request_timeout :: int
  sc_ping_frequency :: int
  sc_decode_buffer_size :: nat
  sc_encode_buffer_size :: nat

definition Rest_connection :: "string \<Rightarrow> settings \<Rightarrow> rest_client_config" where
  "Rest_connection package_name s =
     \<lparr>rc_interface = [], rc_proxy = set_rest_proxy s, rc_uris = [set_rest_uri s], rc_host = [],
      rc_validate_certificate = set_net_tls_validate_certificate s,
      rc_connection_timeout = 0, rc_disconnect_on_idle_timeout = 0, rc_connection = KEEP_ALIVE,
      rc_allow_pipelining = True, rc_request_timeout = set_rest_request_timeout s,
      rc_suspend_on_retry_after = False, rc_query = [], rc_user_agent = package_name,
      rc_ping_frequency = set_rest_ping_freq s, rc_ping_path = set_rest_ping_path s,
      rc_decode_buffer_size = set_decode_buffer_size s, rc_encode_buffer_size = set_encode_buffer_size s\<rparr>"

definition OrderEntryREST_connection :: "string \<Rightarrow> settings \<Rightarrow> rest_client_config" where
  "OrderEntryREST_connection package_name s =
     \<lparr>rc_interface = [], rc_proxy = set_rest_proxy s, rc_uris = [set_rest_uri s], rc_host = [],
      rc_validate_certificate = set_net_tls_validate_certificate s,
      rc_connection_timeout = 0, rc_disconnect_on_idle_timeout = 0, rc_connection = KEEP_ALIVE,
      rc_allow_pipelining = True, rc_request_timeout = set_rest_request_timeout s,
      rc_suspend_on_retry_after = False, rc_query = [], rc_user_agent = package_name,
      rc_ping_frequency = set_rest_ping_freq s, rc_ping_path = set_rest_ping_path s,
      rc_decode_buffer_size = set_decode_buffer_size s, rc_encode_buffer_size = set_encode_buffer_size s\<rparr>"

definition OrderEntryWS_connection :: "string \<Rightarrow> settings \<Rightarrow> socket_client_config" where
  "OrderEntryWS_connection package_name s =
     \<lparr>sc_interface = [], sc_uris = [set_ws_uri s], sc_host = [],
      sc_validate_certificate = set_net_tls_validate_certificate s,
      sc_connection_timeout = set_net_connection_timeout s,
      sc_disconnect_on_idle_timeout = 0,
      sc_always_reconnect = True, sc_proxy = [], sc_user_agent = package_name, sc_request_timeout = 0,
      sc_ping_frequency = set_ws_ping_freq s,
      sc_decode_buffer_size = set_decode_buffer_size s, sc_encode_buffer_size = set_encode_buffer_size s\<rparr>"

definition DropCopy_connection :: "string \<Rightarrow> settings \<Rightarrow> string \<Rightarrow> socket_client_config" where
  "DropCopy_connection package_name s uri =
     \<lparr>sc_interface = [], sc_uris = [uri], sc_host = [],
      sc_validate_certificate = set_net_tls_validate_certificate s,
      sc_connection_timeout = set_net_connection_timeout s,
      sc_disconnect_on_idle_timeout = 0,
      sc_always_reconnect = True, sc_proxy = [], sc_user_agent = package_name, sc_request_timeout = 0,
      sc_ping_frequency = set_ws_ping_freq s,
      sc_decode_buffer_size = set_decode_buffer_size s, sc_encode_buffer_size = set_encode_buffer_size s\<rparr>"

definition MarketData_connection :: "string \<Rightarrow> settings \<Rightarrow> string \<Rightarrow> socket_client_config" where
  "MarketData_connection package_name s uri =
     \<lparr>sc_interface = [], sc_uris = [uri], sc_host = [],
      sc_validate_certificate = set_net_tls_validate_certificate s,
      sc_connection_timeout = set_net_connection_timeout s,
      sc_disconnect_on_idle_timeout = set_net_disconnect_on_idle_timeout s,
      sc_always_reconnect = True, sc_proxy = [], sc_user_agent = package_name, sc_request_timeout = 0,
      sc_ping_frequency = set_ws_ping_freq s,
      sc_decode_buffer_size = set_decode_buffer_size s, sc_encode_buffer_size = set_encode_buffer_size s\<rparr>"

text \<open>
  The five copies agree: both REST connections are the same, and the websockets differ in where
  they go and, for market data, in the time after which an idle connection is closed.
\<close>

lemma connections_agree:
  "Rest_connection p s = OrderEntryREST_connection p s"
  "DropCopy_connection p s (set_ws_uri s) = OrderEntryWS_connection p s"
  "MarketData_connection p s uri = (DropCopy_connection p s uri)\<lparr>sc_disconnect_on_idle_timeout := set_net_disconnect_on_idle_timeout s\<rparr>"
  by (simp_all add: Rest_connection_def OrderEntryREST_connection_def OrderEntryWS_connection_def DropCopy_connection_def
    MarketData_connection_def)

subsection \<open>Metrics\<close>

record metric =
  mt_app :: string
  mt_group :: string
  mt_function :: string

datatype metric_type = COUNTER | PROFILE | LATENCY

text \<open>The members of a stream's \<open>counter_\<close>, \<open>profile_\<close> and \<open>latency_\<close>.\<close>

record stream_metrics =
  ms_counter :: "(string \<times> metric) list"
  ms_profile :: "(string \<times> metric) list"
  ms_latency :: "(string \<times> metric) list"

definition create_metrics :: "settings \<Rightarrow> string \<Rightarrow> string \<Rightarrow> metric" where
  "create_metrics s grp function = \<lparr>mt_app = set_app_name s, mt_group = grp, mt_function = function\<rparr>"

type_synonym written = "(metric option \<times> metric_type) list"

definition member :: "(string \<times> metric) list \<Rightarrow> metric_type \<Rightarrow> string \<Rightarrow> metric option \<times> metric_type" where
  "member ms t name = (map_of ms name, t)"

definition Rest_metrics :: "settings \<Rightarrow> string \<Rightarrow> stream_metrics" where
  "Rest_metrics s name =
     \<lparr>ms_counter =
        [(''disconnect'', create_metrics s name ''disconnect'')],
      ms_profile =
        [(''public_token'', create_metrics s name ''public_token''),
         (''public_token_ack'', create_metrics s name ''public_token_ack''),
         (''contracts'', create_metrics s name ''contracts''),
         (''contracts_ack'', create_metrics s name ''contracts_ack''),
         (''order_book'', create_metrics s name ''order_book''),
         (''order_book_ack'', create_metrics s name ''order_book_ack'')],
      ms_latency =
        [(''ping'', create_metrics s name ''ping'')]\<rparr>"

definition Rest_write :: "stream_metrics \<Rightarrow> written" where
  "Rest_write ms =
     [member (ms_counter ms) COUNTER ''disconnect'', member (ms_profile ms) PROFILE ''public_token'',
      member (ms_profile ms) PROFILE ''public_token_ack'', member (ms_profile ms) PROFILE ''contracts'',
      member (ms_profile ms) PROFILE ''contracts_ack'', member (ms_profile ms) PROFILE ''order_book'',
      member (ms_profile ms) PROFILE ''order_book_ack'', member (ms_latency ms) LATENCY ''ping'']"

definition OrderEntryREST_metrics :: "settings \<Rightarrow> string \<Rightarrow> stream_metrics" where
  "OrderEntryREST_metrics s name =
     \<lparr>ms_counter =
        [(''disconnect'', create_metrics s name ''disconnect'')],
      ms_profile =
        [(''private_token'', create_metrics s name ''private_token''),
         (''private_token_ack'', create_metrics s name ''private_token_ack''),
         (''account'', create_metrics s name ''account''),
         (''account_ack'', create_metrics s name ''account_ack''),
         (''positions'', create_metrics s name ''positions''),
         (''positions_ack'', create_metrics s name ''positions_ack''),
         (''orders'', create_metrics s name ''orders''),
         (''orders_ack'', create_metrics s name ''orders_ack''),
         (''order'', create_metrics s name ''order''), (''order_ack'', create_metrics s name ''order_ack''),
         (''fills'', create_metrics s name ''fills''), (''fills_ack'', create_metrics s name ''fills_ack''),
         (''create_order'', create_metrics s name ''create_order''),
         (''create_order_ack'', create_metrics s name ''create_order_ack''),
         (''cancel_order'', create_metrics s name ''cancel_order''),
         (''cancel_order_ack'', create_metrics s name ''cancel_order_ack''),
         (''cancel_all_orders'', create_metrics s name ''cancel_all_orders''),
         (''cancel_all_orders_ack'', create_metrics s name ''cancel_all_orders_ack'')],
      ms_latency =
        [(''ping'', create_metrics s name ''ping'')]\<rparr>"

definition OrderEntryREST_write :: "stream_metrics \<Rightarrow> written" where
  "OrderEntryREST_write ms =
     [member (ms_counter ms) COUNTER ''disconnect'', member (ms_profile ms) PROFILE ''private_token'',
      member (ms_profile ms) PROFILE ''private_token_ack'', member (ms_profile ms) PROFILE ''account'',
      member (ms_profile ms) PROFILE ''account_ack'', member (ms_profile ms) PROFILE ''positions'',
      member (ms_profile ms) PROFILE ''positions_ack'', member (ms_profile ms) PROFILE ''orders'',
      member (ms_profile ms) PROFILE ''orders_ack'', member (ms_profile ms) PROFILE ''order'',
      member (ms_profile ms) PROFILE ''order_ack'', member (ms_profile ms) PROFILE ''fills'',
      member (ms_profile ms) PROFILE ''fills_ack'', member (ms_profile ms) PROFILE ''create_order'',
      member (ms_profile ms) PROFILE ''create_order_ack'', member (ms_profile ms) PROFILE ''cancel_order'',
      member (ms_profile ms) PROFILE ''cancel_order_ack'',
      member (ms_profile ms) PROFILE ''cancel_all_orders'',
      member (ms_profile ms) PROFILE ''cancel_all_orders_ack'', member (ms_latency ms) LATENCY ''ping'']"

definition OrderEntryWS_metrics :: "settings \<Rightarrow> string \<Rightarrow> stream_metrics" where
  "OrderEntryWS_metrics s name =
     \<lparr>ms_counter =
        [(''disconnect'', create_metrics s name ''disconnect'')],
      ms_profile =
        [(''parse'', create_metrics s name ''parse''), (''auth'', create_metrics s name ''auth''),
         (''welcome'', create_metrics s name ''welcome''), (''error'', create_metrics s name ''error''),
         (''pong'', create_metrics s name ''pong''),
         (''add_order_ack'', create_metrics s name ''add_order_ack''),
         (''cancel_order_ack'', create_metrics s name ''cancel_order_ack'')],
      ms_latency =
        [(''ping'', create_metrics s name ''ping''), (''heartbeat'', create_metrics s name ''heartbeat'')]\<rparr>"

definition OrderEntryWS_write :: "stream_metrics \<Rightarrow> written" where
  "OrderEntryWS_write ms =
     [member (ms_counter ms) COUNTER ''disconnect'', member (ms_profile ms) PROFILE ''parse'',
      member (ms_profile ms) PROFILE ''auth'', member (ms_profile ms) PROFILE ''welcome'',
      member (ms_profile ms) PROFILE ''error'', member (ms_profile ms) PROFILE ''pong'',
      member (ms_profile ms) PROFILE ''add_order_ack'', member (ms_profile ms) PROFILE ''cancel_order_ack'',
      member (ms_latency ms) LATENCY ''ping'', member (ms_latency ms) LATENCY ''heartbeat'']"

definition DropCopy_metrics :: "settings \<Rightarrow> string \<Rightarrow> stream_metrics" where
  "DropCopy_metrics s name =
     \<lparr>ms_counter =
        [(''disconnect'', create_metrics s name ''disconnect'')],
      ms_profile =
        [(''parse'', create_metrics s name ''parse''), (''welcome'', create_metrics s name ''welcome''),
         (''error'', create_metrics s name ''error''), (''pong'', create_metrics s name ''pong''),
         (''ack'', create_metrics s name ''ack'')],
      ms_latency =
        [(''ping'', create_metrics s name ''ping''), (''heartbeat'', create_metrics s name ''heartbeat'')]\<rparr>"

definition DropCopy_write :: "stream_metrics \<Rightarrow> written" where
  "DropCopy_write ms =
     [member (ms_counter ms) COUNTER ''disconnect'', member (ms_profile ms) PROFILE ''parse'',
      member (ms_profile ms) PROFILE ''welcome'', member (ms_profile ms) PROFILE ''error'',
      member (ms_profile ms) PROFILE ''pong'', member (ms_profile ms) PROFILE ''ack'',
      member (ms_latency ms) LATENCY ''ping'', member (ms_latency ms) LATENCY ''heartbeat'']"

definition MarketData_metrics :: "settings \<Rightarrow> string \<Rightarrow> stream_metrics" where
  "MarketData_metrics s name =
     \<lparr>ms_counter =
        [(''disconnect'', create_metrics s name ''disconnect''),
         (''total_bytes_received'', create_metrics s name ''total_bytes_received'')],
      ms_profile =
        [(''parse'', create_metrics s name ''parse''), (''welcome'', create_metrics s name ''welcome''),
         (''error'', create_metrics s name ''error''), (''pong'', create_metrics s name ''pong''),
         (''ack'', create_metrics s name ''ack''), (''ticker_v2'', create_metrics s name ''ticker_v2''),
         (''ticker'', create_metrics s name ''ticker''), (''match'', create_metrics s name ''match''),
         (''execution'', create_metrics s name ''execution''),
         (''mark_index_price'', create_metrics s name ''mark_index_price''),
         (''funding_rate'', create_metrics s name ''funding_rate''),
         (''level2'', create_metrics s name ''level2''),
         (''funding_begin'', create_metrics s name ''funding_begin''),
         (''funding_end'', create_metrics s name ''funding_end''),
         (''snapshot_24h'', create_metrics s name ''snapshot_24h'')],
      ms_latency =
        [(''ping'', create_metrics s name ''ping''), (''heartbeat'', create_metrics s name ''heartbeat'')]\<rparr>"

definition MarketData_write :: "stream_metrics \<Rightarrow> written" where
  "MarketData_write ms =
     [member (ms_counter ms) COUNTER ''disconnect'', member (ms_counter ms) COUNTER ''total_bytes_received'',
      member (ms_profile ms) PROFILE ''parse'', member (ms_profile ms) PROFILE ''welcome'',
      member (ms_profile ms) PROFILE ''error'', member (ms_profile ms) PROFILE ''pong'',
      member (ms_profile ms) PROFILE ''ack'', member (ms_profile ms) PROFILE ''ticker_v2'',
      member (ms_profile ms) PROFILE ''ticker'', member (ms_profile ms) PROFILE ''match'',
      member (ms_profile ms) PROFILE ''execution'', member (ms_profile ms) PROFILE ''mark_index_price'',
      member (ms_profile ms) PROFILE ''funding_rate'', member (ms_profile ms) PROFILE ''level2'',
      member (ms_profile ms) PROFILE ''funding_begin'', member (ms_profile ms) PROFILE ''funding_end'',
      member (ms_profile ms) PROFILE ''snapshot_24h'', member (ms_latency ms) LATENCY ''ping'',
      member (ms_latency ms) LATENCY ''heartbeat'']"

subsection \<open>What the gateway writes\<close>

text \<open>A stream that is there, with its metrics and what it writes of them.\<close>

definition stream_setup :: "controller \<Rightarrow> stream_key \<Rightarrow> (stream_metrics \<times> written) option" where
  "stream_setup s k = (case k of
     Key_Rest \<Rightarrow> (let E = fst (gc_rest s); ms = Rest_metrics (ree_settings E) (Rest_name (ree_stream_id E))
       in Some (ms, Rest_write ms))
   | Key_OrderEntryREST account \<Rightarrow> map_option (\<lambda>(E, c).
       let ms = OrderEntryREST_metrics (oee_settings E) (OrderEntryREST_name (oee_stream_id E) (oee_account_name E))
       in (ms, OrderEntryREST_write ms)) (gc_order_entry_rest s account)
   | Key_OrderEntryWS account \<Rightarrow> map_option (\<lambda>(E, c).
       let ms = OrderEntryWS_metrics (owe_settings E) (OrderEntryWS_name (owe_stream_id E) (owe_account_name E))
       in (ms, OrderEntryWS_write ms)) (gc_order_entry_ws s account)
   | Key_DropCopy account \<Rightarrow> map_option (\<lambda>(E, c).
       let ms = DropCopy_metrics (dce_settings E) (DropCopy_name (dce_stream_id E) (dce_account_name E))
       in (ms, DropCopy_write ms)) (gc_drop_copy s account)
   | Key_MarketData i \<Rightarrow> if i < length (gc_market_data s)
       then let E = fst (gc_market_data s ! i); ms = MarketData_metrics (mde_settings E) (MarketData_name (mde_stream_id E))
         in Some (ms, MarketData_write ms)
       else None)"

definition stream_keys :: "controller \<Rightarrow> stream_key list" where
  "stream_keys s = Key_Rest # map Key_OrderEntryREST (gc_accounts s) @ map Key_OrderEntryWS (gc_accounts s)
     @ map Key_DropCopy (gc_accounts s) @ map Key_MarketData [0..<length (gc_market_data s)]"

definition Controller_write :: "controller \<Rightarrow> written" where
  "Controller_write s = concat (map (\<lambda>k. case stream_setup s k of None \<Rightarrow> [] | Some (ms, w) \<Rightarrow> w) (stream_keys s))"

text \<open>Every metric there is, by its type.\<close>

definition every_metric :: "stream_metrics \<Rightarrow> written" where
  "every_metric ms = map (\<lambda>(n, m). (Some m, COUNTER)) (ms_counter ms) @ map (\<lambda>(n, m). (Some m, PROFILE)) (ms_profile ms)
     @ map (\<lambda>(n, m). (Some m, LATENCY)) (ms_latency ms)"

definition well_labelled :: "string \<Rightarrow> stream_metrics \<Rightarrow> written \<Rightarrow> bool" where
  "well_labelled name ms w \<longleftrightarrow> w = every_metric ms \<and> distinct (map fst w)
     \<and> list_all (\<lambda>(m, t). case m of None \<Rightarrow> False | Some m \<Rightarrow> mt_group m = name) w"

text \<open>It is enough that the functions of a stream's metrics are distinct.\<close>

definition all_members :: "stream_metrics \<Rightarrow> metric list" where
  "all_members ms = map snd (ms_counter ms @ ms_profile ms @ ms_latency ms)"

lemma well_labelledI:
  assumes "w = every_metric ms" and "distinct (map mt_function (all_members ms))"
    and "list_all (\<lambda>m. mt_group m = name) (all_members ms)"
  shows "well_labelled name ms w"
proof -
  have members: "map fst (every_metric ms) = map Some (all_members ms)"
    by (simp add: every_metric_def all_members_def split_def)
  have "distinct (map Some (all_members ms))"
    using assms(2) by (simp add: distinct_map)
  moreover have "list_all (\<lambda>x. case x of None \<Rightarrow> False | Some m \<Rightarrow> mt_group m = name) (map fst (every_metric ms))"
    unfolding members using assms(3) by (simp add: list_all_iff)
  ultimately show ?thesis
    unfolding well_labelled_def assms(1) members [symmetric] by (simp add: list_all_iff split_def)
qed

lemma functions_distinct:
  "distinct (map mt_function (all_members (Rest_metrics s name)))"
  "distinct (map mt_function (all_members (OrderEntryREST_metrics s name)))"
  "distinct (map mt_function (all_members (OrderEntryWS_metrics s name)))"
  "distinct (map mt_function (all_members (DropCopy_metrics s name)))"
  "distinct (map mt_function (all_members (MarketData_metrics s name)))"
  by (simp_all add: all_members_def create_metrics_def Rest_metrics_def OrderEntryREST_metrics_def
    OrderEntryWS_metrics_def DropCopy_metrics_def MarketData_metrics_def)

lemma stream_writes:
  "Rest_write (Rest_metrics s name) = every_metric (Rest_metrics s name)"
  "OrderEntryREST_write (OrderEntryREST_metrics s name) = every_metric (OrderEntryREST_metrics s name)"
  "OrderEntryWS_write (OrderEntryWS_metrics s name) = every_metric (OrderEntryWS_metrics s name)"
  "DropCopy_write (DropCopy_metrics s name) = every_metric (DropCopy_metrics s name)"
  "MarketData_write (MarketData_metrics s name) = every_metric (MarketData_metrics s name)"
  by (simp_all add: every_metric_def member_def Rest_metrics_def Rest_write_def OrderEntryREST_metrics_def
    OrderEntryREST_write_def OrderEntryWS_metrics_def OrderEntryWS_write_def DropCopy_metrics_def DropCopy_write_def
    MarketData_metrics_def MarketData_write_def)

lemma stream_groups:
  "list_all (\<lambda>m. mt_group m = name) (all_members (Rest_metrics s name))"
  "list_all (\<lambda>m. mt_group m = name) (all_members (OrderEntryREST_metrics s name))"
  "list_all (\<lambda>m. mt_group m = name) (all_members (OrderEntryWS_metrics s name))"
  "list_all (\<lambda>m. mt_group m = name) (all_members (DropCopy_metrics s name))"
  "list_all (\<lambda>m. mt_group m = name) (all_members (MarketData_metrics s name))"
  by (simp_all add: all_members_def create_metrics_def Rest_metrics_def OrderEntryREST_metrics_def
    OrderEntryWS_metrics_def DropCopy_metrics_def MarketData_metrics_def)

lemma stream_well_labelled:
  "well_labelled name (Rest_metrics s name) (Rest_write (Rest_metrics s name))"
  "well_labelled name (OrderEntryREST_metrics s name) (OrderEntryREST_write (OrderEntryREST_metrics s name))"
  "well_labelled name (OrderEntryWS_metrics s name) (OrderEntryWS_write (OrderEntryWS_metrics s name))"
  "well_labelled name (DropCopy_metrics s name) (DropCopy_write (DropCopy_metrics s name))"
  "well_labelled name (MarketData_metrics s name) (MarketData_write (MarketData_metrics s name))"
  by (rule well_labelledI [OF _ functions_distinct(1)] well_labelledI [OF _ functions_distinct(2)]
      well_labelledI [OF _ functions_distinct(3)] well_labelledI [OF _ functions_distinct(4)]
      well_labelledI [OF _ functions_distinct(5)], rule stream_writes, rule stream_groups)+

text \<open>The number of a stream can be read off its name.\<close>

lemma named_by_number: "fmt_nat m @ CHR '':'' # p = fmt_nat n @ CHR '':'' # q \<Longrightarrow> m = n"
proof -
  assume eq: "fmt_nat m @ CHR '':'' # p = fmt_nat n @ CHR '':'' # q"
  have "CHR '':'' \<notin> set (fmt_nat k)" for k
    using fmt_nat_digits [of "CHR '':''" k] by (auto simp: is_digit_def)
  then have split: "split_first CHR '':'' (fmt_nat k @ CHR '':'' # r) = Some (fmt_nat k, r)" for k r by simp
  have "Some (fmt_nat m, p) = split_first CHR '':'' (fmt_nat m @ CHR '':'' # p)" by (rule split [symmetric])
  also have "\<dots> = Some (fmt_nat n, q)" unfolding eq by (rule split)
  finally show "m = n" by simp
qed

definition numbered_name :: "16 word \<Rightarrow> string \<Rightarrow> bool" where
  "numbered_name i name \<longleftrightarrow> (\<exists>rest. name = fmt_nat (unat i) @ CHR '':'' # rest)"

lemma numbered_names:
  "numbered_name i (Rest_name i)" "numbered_name i (OrderEntryREST_name i account)"
  "numbered_name i (OrderEntryWS_name i account)" "numbered_name i (DropCopy_name i account)"
  "numbered_name i (MarketData_name i)"
  by (auto simp: numbered_name_def Rest_name_def OrderEntryREST_name_def OrderEntryWS_name_def DropCopy_name_def
    MarketData_name_def)

lemma numbered_name_unique: "numbered_name i name \<Longrightarrow> numbered_name j name \<Longrightarrow> i = j"
  unfolding numbered_name_def using named_by_number by (metis unsigned_word_eqI)

lemma stream_setup_name:
  assumes "stream_setup s k = Some (ms, w)"
  shows "\<exists>i name. stream_ids s k = Some i \<and> numbered_name i name \<and> well_labelled name ms w"
  using assms numbered_names stream_well_labelled
  by (cases k) (auto simp: stream_setup_def stream_ids_def Let_def split: if_splits, blast+)

lemma distinct_concat_map:
  assumes "distinct ks" and "\<And>k. k \<in> set ks \<Longrightarrow> distinct (f k)"
    and "\<And>k l. k \<in> set ks \<Longrightarrow> l \<in> set ks \<Longrightarrow> k \<noteq> l \<Longrightarrow> set (f k) \<inter> set (f l) = {}"
  shows "distinct (concat (map f ks))"
  using assms by (induction ks) auto

text \<open>The accounts are those of the configuration, for good.\<close>

interpretation accounts: gateway_invariant G "\<lambda>s. gc_accounts s = accounts" for G accounts
  by unfold_locales (auto simp: put_rest_def put_order_entry_rest_def put_order_entry_ws_def put_drop_copy_def
    put_market_data_def create_slice_run create_drop_copy_run Let_def split: option.splits if_splits)

lemma created_accounts: "gc_accounts (Controller_create G config) = map fst (cfg_accounts config)"
  by (simp add: Controller_create_def Let_def split_def)

lemma distinct_stream_keys: "distinct (gc_accounts s) \<Longrightarrow> distinct (stream_keys s)"
  by (auto simp: stream_keys_def distinct_map inj_on_def)

text \<open>
  C23. For a configuration that loads, in every state the gateway can reach with fewer than 65536
  streams, the metrics it writes are all the metrics its streams created, each once and with the type
  it was created for, and no two of them have the same labels; in particular no two streams have the
  same name, although the drop copy and the websocket order stream of an account differ only in the
  number.
\<close>

theorem metrics_written_once:
  assumes "Config_create setting sy entries = Normal () config" and "gc_reach G (Controller_create G config) s"
    and "card (dom (stream_ids s)) < 2 ^ 16"
  shows "distinct (map fst (Controller_write s)) \<and> None \<notin> fst ` set (Controller_write s)
    \<and> Controller_write s = concat (map (\<lambda>k. case stream_setup s k of None \<Rightarrow> [] | Some (ms, w) \<Rightarrow> every_metric ms) (stream_keys s))"
proof -
  let ?w = "\<lambda>k. case stream_setup s k of None \<Rightarrow> [] | Some (ms, w) \<Rightarrow> w"
  have named: "\<exists>i name. stream_ids s k = Some i \<and> numbered_name i name
      \<and> distinct (map fst (?w k)) \<and> (\<forall>x\<in>fst ` set (?w k). \<exists>m. x = Some m \<and> mt_group m = name)
      \<and> ?w k = (case stream_setup s k of None \<Rightarrow> [] | Some (ms, w) \<Rightarrow> every_metric ms)"
    if "stream_setup s k \<noteq> None" for k
  proof -
    from that obtain ms w where k: "stream_setup s k = Some (ms, w)" by auto
    from stream_setup_name [OF k] obtain i name where "stream_ids s k = Some i" "numbered_name i name" "well_labelled name ms w"
      by blast
    with k show ?thesis
      by (intro exI [of _ i] exI [of _ name]) (auto simp: well_labelled_def list_all_iff split: option.splits)
  qed
  have absent: "?w k = []" if "stream_setup s k = None" for k using that by simp
  have "distinct (concat (map (\<lambda>k. map fst (?w k)) (stream_keys s)))"
  proof (rule distinct_concat_map)
    have "gc_accounts s = map fst (cfg_accounts config)"
      by (rule accounts.reached [OF assms(2) created_accounts])
    then show "distinct (stream_keys s)"
      using loaded_accounts [OF assms(1)] by (intro distinct_stream_keys) simp
    show "distinct (map fst (?w k))" for k
      using named [of k] absent [of k] by (cases "stream_setup s k = None") auto
    show "set (map fst (?w k)) \<inter> set (map fst (?w l)) = {}" if "k \<noteq> l" for k l
    proof (rule ccontr)
      assume "set (map fst (?w k)) \<inter> set (map fst (?w l)) \<noteq> {}"
      then obtain x where x: "x \<in> fst ` set (?w k)" "x \<in> fst ` set (?w l)" by auto
      have there: "stream_setup s k \<noteq> None" "stream_setup s l \<noteq> None"
        using x absent [of k] absent [of l] by (metis empty_iff image_empty list.set(1))+
      obtain i m where k: "stream_ids s k = Some i" "x = Some m" "numbered_name i (mt_group m)"
        using named [OF there(1)] x(1) by blast
      obtain j where l: "stream_ids s l = Some j" "numbered_name j (mt_group m)"
        using named [OF there(2)] x(2) unfolding k(2) by (metis option.inject)
      from numbered_name_unique [OF k(3) l(2)] have "i = j" .
      with k(1) l(1) have "k = l"
        using inj_onD [OF reached_ids(1) [OF assms], of k l] by (simp add: domI)
      with \<open>k \<noteq> l\<close> show False by simp
    qed
  qed
  then have "distinct (map fst (Controller_write s))"
    by (simp add: Controller_write_def map_concat o_def)
  moreover have "None \<notin> fst ` set (Controller_write s)"
  proof
    assume "None \<in> fst ` set (Controller_write s)"
    then obtain k where k: "None \<in> fst ` set (?w k)" by (auto simp: Controller_write_def)
    then have "stream_setup s k \<noteq> None"
      using absent [of k] by (metis empty_iff image_empty list.set(1))
    from named [OF this] k show False by blast
  qed
  moreover have "Controller_write s
      = concat (map (\<lambda>k. case stream_setup s k of None \<Rightarrow> [] | Some (ms, w) \<Rightarrow> every_metric ms) (stream_keys s))"
  proof -
    have "?w k = (case stream_setup s k of None \<Rightarrow> [] | Some (ms, w) \<Rightarrow> every_metric ms)" for k
      using named [of k] by (cases "stream_setup s k = None") auto
    then show ?thesis by (simp add: Controller_write_def)
  qed
  ultimately show ?thesis by blast
qed

text \<open>A gateway with one account, as it was created: 8 metrics of the REST stream and 20 of the order stream.\<close>

theorem metrics_written_once_witness:
  "let ws = Controller_write (Controller_create sample_controller_env sample_config) in
     length ws = 28 \<and> distinct (map fst ws)
     \<and> hd ws = (Some \<lparr>mt_app = ''kucoin-futures'', mt_group = ''1:rest'', mt_function = ''disconnect''\<rparr>, COUNTER)"
proof -
  let ?s = "Controller_create sample_controller_env sample_config"
  note run = Controller_create_def create_order_entry_ws_def sample_config_def sample_controller_env_def
    sample_settings_def order_entry_rest_stream_def rest_stream_def stream_ids_def
  have "k \<in> dom (stream_ids ?s) \<longleftrightarrow> k \<in> {Key_Rest, Key_OrderEntryREST ''A1''}" for k
    by (cases k) (auto simp: run Let_def dom_def)
  then have "dom (stream_ids ?s) = {Key_Rest, Key_OrderEntryREST ''A1''}" by blast
  then have "card (dom (stream_ids ?s)) < 2 ^ 16" by simp
  note once = metrics_written_once [OF sample_config_loads gc_created this]
  have "length (Controller_write ?s) = 28"
    and "hd (Controller_write ?s) = (Some \<lparr>mt_app = ''kucoin-futures'', mt_group = ''1:rest'', mt_function = ''disconnect''\<rparr>, COUNTER)"
    by (simp_all add: Controller_write_def stream_keys_def stream_setup_def run Let_def Rest_write_def OrderEntryREST_write_def
      Rest_metrics_def member_def create_metrics_def Rest_name_def fmt_nat.simps [of "Suc 0"] char_of_def bit_0)
  then show ?thesis unfolding Let_def by (intro conjI conjunct1 [OF once])
qed

end
