(* ===== verification/Throttle.thy ===== *)
theory Throttle
  imports Roq_Types
begin

text \<open>
  \<open>tools/throttle.cpp\<close>: the interceptor that watches REST responses and tells the connections
  until when to stay quiet. The FNV hash, the number parser and the clock are external: the hash
  and the parsers are the parameters \<open>throttle_env\<close>, the clock's answer comes with the event.
\<close>

definition DEFAULT_BACKOFF :: int where
  "DEFAULT_BACKOFF = ns_of_s 5"

definition BLOCKED_BACKOFF :: int where
  "BLOCKED_BACKOFF = ns_of_s (10 * 60)"

record throttle_env =
  fnv_compute :: "string \<Rightarrow> nat"
  from_chars_int32 :: "string \<Rightarrow> exn + 32 word"
  from_chars_int64 :: "string \<Rightarrow> exn + 64 word"

definition lower :: "char \<Rightarrow> char" where
  "lower c = (let n = of_char c :: nat in if 65 \<le> n \<and> n \<le> 90 then char_of (n + 32) else c)"

datatype header = Header_UNKNOWN | GW_RATELIMIT_REMAINING | GW_RATELIMIT_LIMIT | GW_RATELIMIT_RESET

definition parse_header :: "throttle_env \<Rightarrow> string \<Rightarrow> header" where
  "parse_header E text = (let key = fnv_compute E (map lower text) in
     if key = fnv_compute E ''gw-ratelimit-remaining'' then GW_RATELIMIT_REMAINING
     else if key = fnv_compute E ''gw-ratelimit-limit'' then GW_RATELIMIT_LIMIT
     else if key = fnv_compute E ''gw-ratelimit-reset'' then GW_RATELIMIT_RESET
     else Header_UNKNOWN)"

record throttle =
  th_enabled :: bool
  th_remaining :: "32 word"
  th_limit :: "32 word"
  th_reset :: "64 word"
  th_suspend_until :: int

definition Throttle_create :: "bool \<Rightarrow> throttle" where
  "Throttle_create enable_rate_limit =
     \<lparr>th_enabled = enable_rate_limit, th_remaining = 0, th_limit = 0, th_reset = 0, th_suspend_until = 0\<rparr>"

datatype http_status = FORBIDDEN | TOO_MANY_REQUESTS | OtherStatus nat

text \<open>The three events of \<open>web::rest::Interceptor\<close>; the end of a message with the time it is seen.\<close>

datatype throttle_event = MessageBegin | MessageHeader string string | MessageEnd int http_status

text \<open>
  \<open>update_suspend_until\<close> of the code does nothing on either branch (its body is commented out);
  \<open>update_value\<close> stores the parsed value.
\<close>

definition update_suspend_until :: "(throttle, exn, unit) stmt" where
  "update_suspend_until = (\<lambda>t. if \<not> th_enabled t then Normal () t else Normal () t)"

definition throttle_header :: "throttle_env \<Rightarrow> string \<Rightarrow> string \<Rightarrow> (throttle, exn, unit) stmt" where
  "throttle_header E name value = (case parse_header E name of
     Header_UNKNOWN \<Rightarrow> skip
   | GW_RATELIMIT_REMAINING \<Rightarrow>
       bindm (lift_sum (from_chars_int32 E value)) (\<lambda>v. modify (\<lambda>t. t\<lparr>th_remaining := v\<rparr>))
   | GW_RATELIMIT_LIMIT \<Rightarrow>
       bindm (lift_sum (from_chars_int32 E value)) (\<lambda>v. reading th_limit (\<lambda>old. block
         [modify (\<lambda>t. t\<lparr>th_limit := v\<rparr>), whenm (old \<noteq> v) update_suspend_until]))
   | GW_RATELIMIT_RESET \<Rightarrow>
       bindm (lift_sum (from_chars_int64 E value)) (\<lambda>v. reading th_reset (\<lambda>old. block
         [modify (\<lambda>t. t\<lparr>th_reset := v\<rparr>), whenm (old \<noteq> v) update_suspend_until])))"

definition throttle_end :: "int \<Rightarrow> http_status \<Rightarrow> (throttle, exn, unit) stmt" where
  "throttle_end now status = (\<lambda>t. if \<not> th_enabled t then Normal () t else (case status of
     FORBIDDEN \<Rightarrow> Normal () (t\<lparr>th_suspend_until := max (th_suspend_until t) (now + BLOCKED_BACKOFF)\<rparr>)
   | TOO_MANY_REQUESTS \<Rightarrow>
       if th_suspend_until t = 0 then Normal () (t\<lparr>th_suspend_until := now + DEFAULT_BACKOFF\<rparr>) else Normal () t
   | OtherStatus n \<Rightarrow> Normal () t))"

definition throttle_step :: "throttle_env \<Rightarrow> throttle_event \<Rightarrow> (throttle, exn, unit) stmt" where
  "throttle_step E e = (case e of
     MessageBegin \<Rightarrow> skip
   | MessageHeader name value \<Rightarrow> throttle_header E name value
   | MessageEnd now status \<Rightarrow> throttle_end now status)"

definition throttle_run :: "throttle_env \<Rightarrow> throttle_event list \<Rightarrow> throttle \<Rightarrow> throttle" where
  "throttle_run E es t = fold (\<lambda>e t. final_state (throttle_step E e t)) es t"

subsection \<open>Lemmas\<close>

lemma throttle_header_state:
  "let t' = final_state (throttle_header E n v t) in
     th_enabled t' = th_enabled t \<and> th_suspend_until t' = th_suspend_until t"
  by (cases "parse_header E n")
    (auto simp: throttle_header_def update_suspend_until_def exec_simps split: sum.splits)

lemma throttle_step_enabled: "th_enabled (final_state (throttle_step E e t)) = th_enabled t"
  using throttle_header_state [of E _ _ t]
  by (cases e) (auto simp: throttle_step_def throttle_end_def exec_simps Let_def split: http_status.splits)

lemma throttle_run_enabled: "th_enabled (throttle_run E es t) = th_enabled t"
  unfolding throttle_run_def by (induction es arbitrary: t) (auto simp: throttle_step_enabled)

text \<open>What one event does to the time the connections stay quiet until.\<close>

fun next_suspend :: "throttle_event \<Rightarrow> int \<Rightarrow> int" where
  "next_suspend (MessageEnd now FORBIDDEN) s = max s (now + BLOCKED_BACKOFF)"
| "next_suspend (MessageEnd now TOO_MANY_REQUESTS) s = (if s = 0 then now + DEFAULT_BACKOFF else s)"
| "next_suspend _ s = s"

lemma throttle_step_suspend:
  "th_suspend_until (final_state (throttle_step E e t)) =
     (if th_enabled t then next_suspend e (th_suspend_until t) else th_suspend_until t)"
proof (cases e)
  case (MessageHeader n v)
  then show ?thesis using throttle_header_state [of E n v t]
    by (simp add: throttle_step_def Let_def)
qed (auto simp: throttle_step_def throttle_end_def exec_simps split: http_status.splits)

lemma throttle_run_suspend:
  "th_suspend_until (throttle_run E es t) =
     (if th_enabled t then fold next_suspend es (th_suspend_until t) else th_suspend_until t)"
  unfolding throttle_run_def
  by (induction es arbitrary: t) (auto simp: throttle_step_suspend throttle_step_enabled)

definition blocked_until :: "throttle_event list \<Rightarrow> int list" where
  "blocked_until es = [now + BLOCKED_BACKOFF. MessageEnd now FORBIDDEN \<leftarrow> es]"

lemma blocked_until_simps:
  "blocked_until [] = []"
  "blocked_until (MessageEnd now FORBIDDEN # es) = (now + BLOCKED_BACKOFF) # blocked_until es"
  "(\<And>now. e \<noteq> MessageEnd now FORBIDDEN) \<Longrightarrow> blocked_until (e # es) = blocked_until es"
  by (auto simp: blocked_until_def split: throttle_event.splits http_status.splits)

lemma suspended_fold: "0 < s \<Longrightarrow> fold next_suspend es s = fold max (blocked_until es) s"
proof (induction es arbitrary: s)
  case (Cons e es)
  then show ?case
  proof (cases "\<exists>now. e = MessageEnd now FORBIDDEN")
    case True
    with Cons show ?thesis by (auto simp: blocked_until_simps max.commute)
  next
    case False
    then have "next_suspend e s = s"
      using Cons.prems by (cases "(e, s)" rule: next_suspend.cases) auto
    with False Cons show ?thesis by (auto simp: blocked_until_simps(3))
  qed
qed (simp add: blocked_until_def)

lemma fold_max_ge: "s \<le> fold max xs (s :: int)"
  by (induction xs arbitrary: s) (simp, simp, meson max.cobounded2 order_trans)

subsection \<open>Properties\<close>


definition sample_throttle_env :: throttle_env where
  "sample_throttle_env = \<lparr>fnv_compute = (\<lambda>s. sum_list (map of_char s)), from_chars_int32 = (\<lambda>_. Inr 1), from_chars_int64 = (\<lambda>_. Inr 2)\<rparr>"


text \<open>
  Header names are recognised in any case; with a hash that separates the names in question
  every other header is ignored, and a recognised one updates exactly its own value, unless the
  value is no number, when the exception leaves the state alone.
\<close>

theorem header_updates_its_value:
  assumes "inj_on (fnv_compute E)
    {map lower name, ''gw-ratelimit-remaining'', ''gw-ratelimit-limit'', ''gw-ratelimit-reset''}"
  shows "throttle_header E name value t =
    (if map lower name = ''gw-ratelimit-remaining'' then (case from_chars_int32 E value of
       Inl e \<Rightarrow> Thrown e t | Inr v \<Rightarrow> Normal () (t\<lparr>th_remaining := v\<rparr>))
     else if map lower name = ''gw-ratelimit-limit'' then (case from_chars_int32 E value of
       Inl e \<Rightarrow> Thrown e t | Inr v \<Rightarrow> Normal () (t\<lparr>th_limit := v\<rparr>))
     else if map lower name = ''gw-ratelimit-reset'' then (case from_chars_int64 E value of
       Inl e \<Rightarrow> Thrown e t | Inr v \<Rightarrow> Normal () (t\<lparr>th_reset := v\<rparr>))
     else Normal () t)"
proof -
  have eq: "fnv_compute E (map lower name) = fnv_compute E ''gw-ratelimit-remaining'' \<longleftrightarrow> map lower name = ''gw-ratelimit-remaining''"
    "fnv_compute E (map lower name) = fnv_compute E ''gw-ratelimit-limit'' \<longleftrightarrow> map lower name = ''gw-ratelimit-limit''"
    "fnv_compute E (map lower name) = fnv_compute E ''gw-ratelimit-reset'' \<longleftrightarrow> map lower name = ''gw-ratelimit-reset''"
    by (rule inj_on_eq_iff [OF assms]; blast)+
  have parsed: "parse_header E name =
      (if map lower name = ''gw-ratelimit-remaining'' then GW_RATELIMIT_REMAINING
       else if map lower name = ''gw-ratelimit-limit'' then GW_RATELIMIT_LIMIT
       else if map lower name = ''gw-ratelimit-reset'' then GW_RATELIMIT_RESET else Header_UNKNOWN)"
    unfolding parse_header_def Let_def eq ..
  show ?thesis
    unfolding throttle_header_def parsed
    by (cases "from_chars_int32 E value"; cases "from_chars_int64 E value")
      (simp_all add: update_suspend_until_def exec_simps)
qed

theorem header_updates_its_value_witness:
  "throttle_header sample_throttle_env ''GW-RateLimit-Limit'' ''1'' (Throttle_create True)
     = Normal () ((Throttle_create True)\<lparr>th_limit := 1\<rparr>)"
proof -
  have low: "map lower ''GW-RateLimit-Limit'' = ''gw-ratelimit-limit''" by code_simp
  have "inj_on (fnv_compute sample_throttle_env)
    {map lower ''GW-RateLimit-Limit'', ''gw-ratelimit-remaining'', ''gw-ratelimit-limit'', ''gw-ratelimit-reset''}"
    unfolding low by (auto simp: inj_on_def sample_throttle_env_def)
  from header_updates_its_value [OF this, of "''1''" "Throttle_create True"] show ?thesis
    unfolding low by (simp add: sample_throttle_env_def)
qed

end
