(* ===== verification/Crypto.thy ===== *)
theory Crypto
  imports Config_Api
begin

text \<open>
  \<open>tools/crypto.cpp\<close> and \<open>gateway/account.cpp\<close>: the signed headers of REST requests, the signed
  query and the signed login of the websocket order API. The HMAC object is external and
  stateful, as are Base64 and URL encoding, the text of an HTTP method and the conversion
  \<open>utils::safe_cast\<close> of nanoseconds to milliseconds: they are the parameters \<open>crypto_env\<close>.
\<close>

record 'm crypto_env =
  mac_create :: "string \<Rightarrow> 'm"
  mac_clear :: "'m \<Rightarrow> 'm"
  mac_update :: "string \<Rightarrow> 'm \<Rightarrow> 'm"
  mac_final :: "'m \<Rightarrow> string \<times> 'm"
  base64_encode :: "string \<Rightarrow> string"
  url_encode :: "string \<Rightarrow> string"
  fmt_method :: "http_method \<Rightarrow> string"
  safe_cast_ms :: "int \<Rightarrow> int"

record 'm crypto =
  cr_key :: string
  cr_mac :: 'm
  cr_passphrase :: string
  cr_signed_passphrase :: string

definition create_signed_passphrase :: "'m crypto_env \<Rightarrow> 'm \<Rightarrow> string \<Rightarrow> string \<times> 'm" where
  "create_signed_passphrase E mac passphrase = (
     let mac = mac_clear E mac;
         mac = mac_update E passphrase mac;
         (digest, mac) = mac_final E mac
     in (base64_encode E digest, mac))"

definition Crypto_create :: "'m crypto_env \<Rightarrow> string \<Rightarrow> string \<Rightarrow> string \<Rightarrow> 'm crypto" where
  "Crypto_create E key secret passphrase = (
     let (signed, mac) = create_signed_passphrase E (mac_create E secret) passphrase
     in \<lparr>cr_key = key, cr_mac = mac, cr_passphrase = passphrase, cr_signed_passphrase = signed\<rparr>)"

definition crlf :: string where
  "crlf = [CHR 0x0D, CHR 0x0A]"

text \<open>\<open>None\<close> is the failed assertion of an empty path.\<close>

definition create_headers ::
    "'m crypto_env \<Rightarrow> 'm crypto \<Rightarrow> http_method \<Rightarrow> string \<Rightarrow> string \<Rightarrow> string \<Rightarrow> int \<Rightarrow> (string \<times> 'm crypto) option" where
  "create_headers E c method path query body timestamp = (if path = [] then None else (
     let tmp = fmt_int timestamp @ fmt_method E method @ path @ query @ body;
         mac = mac_clear E (cr_mac c);
         mac = mac_update E tmp mac;
         (digest, mac) = mac_final E mac;
         signature = base64_encode E digest;
         result = ''KC-API-KEY: '' @ cr_key c @ crlf
           @ ''KC-API-SIGN: '' @ signature @ crlf
           @ ''KC-API-TIMESTAMP: '' @ fmt_int timestamp @ crlf
           @ ''KC-API-PASSPHRASE: '' @ cr_signed_passphrase c @ crlf
           @ ''KC-API-KEY-VERSION: 2'' @ crlf
     in Some (result, c\<lparr>cr_mac := mac\<rparr>)))"

definition create_ws_query :: "'m crypto_env \<Rightarrow> 'm crypto \<Rightarrow> int \<Rightarrow> string \<times> 'm crypto" where
  "create_ws_query E c now = (
     let timestamp_2 = fmt_int now;
         mac = mac_clear E (cr_mac c);
         mac = mac_update E (cr_key c) mac;
         mac = mac_update E timestamp_2 mac;
         (digest, mac) = mac_final E mac;
         sign_url = url_encode E (base64_encode E digest);
         passphrase_url = url_encode E (cr_signed_passphrase c)
     in (''?apikey='' @ cr_key c @ ''&sign='' @ sign_url @ ''&passphrase='' @ passphrase_url
           @ ''&timestamp='' @ timestamp_2, c\<lparr>cr_mac := mac\<rparr>))"

definition create_ws_auth :: "'m crypto_env \<Rightarrow> 'm crypto \<Rightarrow> string \<Rightarrow> string \<times> 'm crypto" where
  "create_ws_auth E c message = (
     let mac = mac_clear E (cr_mac c);
         mac = mac_update E message mac;
         (digest, mac) = mac_final E mac
     in (base64_encode E digest, c\<lparr>cr_mac := mac\<rparr>))"

subsection \<open>Accounts\<close>

record 'm account =
  acc_name :: string
  acc_crypto :: "'m crypto"

text \<open>\<open>None\<close>: the process ends, the account is not configured.\<close>

definition Account_create :: "'m crypto_env \<Rightarrow> ('sy, 'us, 'rl) config \<Rightarrow> string \<Rightarrow> 'm account option" where
  "Account_create E config name = (case (get_api_key config name, get_secret config name, get_passphrase config name) of
     (Some key, Some secret, Some passphrase) \<Rightarrow>
       Some \<lparr>acc_name = name, acc_crypto = Crypto_create E key secret passphrase\<rparr>
   | _ \<Rightarrow> None)"

definition account_create_headers ::
    "'m crypto_env \<Rightarrow> 'm account \<Rightarrow> trace_info \<Rightarrow> http_method \<Rightarrow> string \<Rightarrow> string \<Rightarrow> string \<Rightarrow> (string \<times> 'm account) option" where
  "account_create_headers E a trace_info method path query body =
     map_option (\<lambda>(h, c). (h, a\<lparr>acc_crypto := c\<rparr>))
       (create_headers E (acc_crypto a) method path query body (safe_cast_ms E (origin_create_time_utc trace_info)))"

definition account_create_ws_query :: "'m crypto_env \<Rightarrow> 'm account \<Rightarrow> trace_info \<Rightarrow> string \<times> 'm account" where
  "account_create_ws_query E a trace_info = (
     let (q, c) = create_ws_query E (acc_crypto a) (safe_cast_ms E (origin_create_time_utc trace_info))
     in (q, a\<lparr>acc_crypto := c\<rparr>))"

definition account_create_ws_auth :: "'m crypto_env \<Rightarrow> 'm account \<Rightarrow> string \<Rightarrow> string \<times> 'm account" where
  "account_create_ws_auth E a message = (
     let (q, c) = create_ws_auth E (acc_crypto a) message in (q, a\<lparr>acc_crypto := c\<rparr>))"

subsection \<open>Use over time\<close>

text \<open>
  What is relied on of the HMAC object: it keeps its secret, and from \<open>clear\<close> to \<open>final\<close> it
  digests the concatenation of the updates. Nothing is said of an object that was not cleared.
\<close>

definition lawful_mac :: "'m crypto_env \<Rightarrow> (string \<Rightarrow> 'm \<Rightarrow> bool) \<Rightarrow> (string \<Rightarrow> string \<Rightarrow> string) \<Rightarrow> bool" where
  "lawful_mac E keyed hmac \<longleftrightarrow>
     (\<forall>secret. keyed secret (mac_create E secret))
   \<and> (\<forall>secret m texts. keyed secret m \<longrightarrow>
        fst (mac_final E (fold (mac_update E) texts (mac_clear E m))) = hmac secret (concat texts)
      \<and> keyed secret (snd (mac_final E (fold (mac_update E) texts (mac_clear E m)))))"

text \<open>The accounts that can exist after any sequence of calls.\<close>

inductive account_run :: "'m crypto_env \<Rightarrow> ('sy, 'us, 'rl) config \<Rightarrow> string \<Rightarrow> 'm account \<Rightarrow> bool"
  for E and config and name where
  run_create: "Account_create E config name = Some a \<Longrightarrow> account_run E config name a"
| run_headers: "account_run E config name a \<Longrightarrow>
    account_create_headers E a ti method path query body = Some (h, a') \<Longrightarrow> account_run E config name a'"
| run_query: "account_run E config name a \<Longrightarrow> account_create_ws_query E a ti = (q, a') \<Longrightarrow>
    account_run E config name a'"
| run_auth: "account_run E config name a \<Longrightarrow> account_create_ws_auth E a message = (q, a') \<Longrightarrow>
    account_run E config name a'"

definition account_keyed ::
    "'m crypto_env \<Rightarrow> (string \<Rightarrow> 'm \<Rightarrow> bool) \<Rightarrow> (string \<Rightarrow> string \<Rightarrow> string) \<Rightarrow> string \<Rightarrow> string \<Rightarrow> string \<Rightarrow> string \<Rightarrow> 'm account \<Rightarrow> bool" where
  "account_keyed E keyed hmac name key secret passphrase a \<longleftrightarrow>
     acc_name a = name \<and> cr_key (acc_crypto a) = key \<and> keyed secret (cr_mac (acc_crypto a))
   \<and> cr_signed_passphrase (acc_crypto a) = base64_encode E (hmac secret passphrase)"

lemma lawful_one:
  assumes "lawful_mac E keyed hmac" and "keyed secret m"
  shows "fst (mac_final E (mac_update E t (mac_clear E m))) = hmac secret t"
    and "keyed secret (snd (mac_final E (mac_update E t (mac_clear E m))))"
proof -
  have "fst (mac_final E (fold (mac_update E) [t] (mac_clear E m))) = hmac secret (concat [t])
      \<and> keyed secret (snd (mac_final E (fold (mac_update E) [t] (mac_clear E m))))"
    using assms unfolding lawful_mac_def by blast
  then show "fst (mac_final E (mac_update E t (mac_clear E m))) = hmac secret t"
    and "keyed secret (snd (mac_final E (mac_update E t (mac_clear E m))))" by simp_all
qed

lemma lawful_two:
  assumes "lawful_mac E keyed hmac" and "keyed secret m"
  shows "fst (mac_final E (mac_update E u (mac_update E t (mac_clear E m)))) = hmac secret (t @ u)"
    and "keyed secret (snd (mac_final E (mac_update E u (mac_update E t (mac_clear E m)))))"
proof -
  have "fst (mac_final E (fold (mac_update E) [t, u] (mac_clear E m))) = hmac secret (concat [t, u])
      \<and> keyed secret (snd (mac_final E (fold (mac_update E) [t, u] (mac_clear E m))))"
    using assms unfolding lawful_mac_def by blast
  then show "fst (mac_final E (mac_update E u (mac_update E t (mac_clear E m)))) = hmac secret (t @ u)"
    and "keyed secret (snd (mac_final E (mac_update E u (mac_update E t (mac_clear E m)))))" by simp_all
qed

lemma account_run_keyed:
  assumes law: "lawful_mac E keyed hmac"
    and creds: "get_api_key config name = Some key" "get_secret config name = Some secret"
      "get_passphrase config name = Some passphrase"
    and run: "account_run E config name a"
  shows "account_keyed E keyed hmac name key secret passphrase a"
  using run
proof (induction rule: account_run.induct)
  case (run_create a)
  have "keyed secret (mac_create E secret)"
    using law by (simp add: lawful_mac_def)
  with lawful_one [OF law] run_create creds show ?case
    by (auto simp: Account_create_def Crypto_create_def create_signed_passphrase_def account_keyed_def Let_def split_def)
next
  case (run_headers a ti meth path query body h a')
  with lawful_one [OF law] show ?case
    by (auto simp: account_create_headers_def create_headers_def account_keyed_def Let_def split_def split: if_splits)
next
  case (run_query a ti q a')
  with lawful_two [OF law] show ?case
    by (auto simp: account_create_ws_query_def create_ws_query_def account_keyed_def Let_def split_def)
next
  case (run_auth a message q a')
  with lawful_one [OF law] show ?case
    by (auto simp: account_create_ws_auth_def create_ws_auth_def account_keyed_def Let_def split_def)
qed

text \<open>The headers of a request, as the exchange documents them.\<close>

definition signed_headers ::
    "'m crypto_env \<Rightarrow> (string \<Rightarrow> string \<Rightarrow> string) \<Rightarrow> string \<Rightarrow> string \<Rightarrow> string \<Rightarrow> string \<Rightarrow> http_method
       \<Rightarrow> string \<Rightarrow> string \<Rightarrow> string \<Rightarrow> string" where
  "signed_headers E hmac key secret passphrase ts method path query body =
     ''KC-API-KEY: '' @ key @ crlf
     @ ''KC-API-SIGN: '' @ base64_encode E (hmac secret (ts @ fmt_method E method @ path @ query @ body)) @ crlf
     @ ''KC-API-TIMESTAMP: '' @ ts @ crlf
     @ ''KC-API-PASSPHRASE: '' @ base64_encode E (hmac secret passphrase) @ crlf
     @ ''KC-API-KEY-VERSION: 2'' @ crlf"

text \<open>What an account signs, whatever it signed before.\<close>

lemma account_signs:
  assumes "lawful_mac E keyed hmac" and "account_keyed E keyed hmac name key secret passphrase a"
  shows "map_option fst (account_create_headers E a ti method path query body) = (if path = [] then None else Some
      (signed_headers E hmac key secret passphrase (fmt_int (safe_cast_ms E (origin_create_time_utc ti))) method path query body))"
    and "fst (account_create_ws_query E a ti) = (let ts = fmt_int (safe_cast_ms E (origin_create_time_utc ti)) in
      ''?apikey='' @ key @ ''&sign='' @ url_encode E (base64_encode E (hmac secret (key @ ts)))
      @ ''&passphrase='' @ url_encode E (base64_encode E (hmac secret passphrase)) @ ''&timestamp='' @ ts)"
    and "fst (account_create_ws_auth E a message) = base64_encode E (hmac secret message)"
proof -
  from assms(2) have m: "keyed secret (cr_mac (acc_crypto a))" by (simp add: account_keyed_def)
  note facts = assms(2) lawful_one(1) [OF assms(1) m] lawful_two(1) [OF assms(1) m]
  show "map_option fst (account_create_headers E a ti method path query body) = (if path = [] then None else Some
      (signed_headers E hmac key secret passphrase (fmt_int (safe_cast_ms E (origin_create_time_utc ti))) method path query body))"
    using facts by (auto simp: account_keyed_def account_create_headers_def create_headers_def signed_headers_def Let_def split_def)
  show "fst (account_create_ws_query E a ti) = (let ts = fmt_int (safe_cast_ms E (origin_create_time_utc ti)) in
      ''?apikey='' @ key @ ''&sign='' @ url_encode E (base64_encode E (hmac secret (key @ ts)))
      @ ''&passphrase='' @ url_encode E (base64_encode E (hmac secret passphrase)) @ ''&timestamp='' @ ts)"
    using facts by (auto simp: account_keyed_def account_create_ws_query_def create_ws_query_def Let_def split_def)
  show "fst (account_create_ws_auth E a message) = base64_encode E (hmac secret message)"
    using facts by (auto simp: account_keyed_def account_create_ws_auth_def create_ws_auth_def Let_def split_def)
qed

subsection \<open>Properties\<close>

text \<open>
  C36. What an account signs does not depend on what it signed before: after any sequence of
  signing calls the headers of a request, the websocket query and the websocket login carry the
  HMAC, under the configured secret, of exactly the time, method, path, query and body (the key
  and time; the message), and the passphrase is the HMAC of the configured one. Only an empty
  path fails.
\<close>

theorem signatures_independent_of_history:
  assumes "lawful_mac E keyed hmac"
    and "get_api_key config name = Some key" and "get_secret config name = Some secret"
    and "get_passphrase config name = Some passphrase"
    and "account_run E config name a"
  shows "map_option fst (account_create_headers E a ti method path query body) =
       (if path = [] then None else Some (
          let ts = fmt_int (safe_cast_ms E (origin_create_time_utc ti)) in
          ''KC-API-KEY: '' @ key @ crlf
          @ ''KC-API-SIGN: '' @ base64_encode E (hmac secret (ts @ fmt_method E method @ path @ query @ body)) @ crlf
          @ ''KC-API-TIMESTAMP: '' @ ts @ crlf
          @ ''KC-API-PASSPHRASE: '' @ base64_encode E (hmac secret passphrase) @ crlf
          @ ''KC-API-KEY-VERSION: 2'' @ crlf))
     \<and> fst (account_create_ws_query E a ti) = (
          let ts = fmt_int (safe_cast_ms E (origin_create_time_utc ti)) in
          ''?apikey='' @ key @ ''&sign='' @ url_encode E (base64_encode E (hmac secret (key @ ts)))
          @ ''&passphrase='' @ url_encode E (base64_encode E (hmac secret passphrase)) @ ''&timestamp='' @ ts)
     \<and> fst (account_create_ws_auth E a message) = base64_encode E (hmac secret message)"
  using account_signs [OF assms(1) account_run_keyed [OF assms]] by (simp add: signed_headers_def Let_def)

text \<open>
  A concrete object with the interface: it keeps its secret and the texts since the last
  \<open>clear\<close>, and its digest is their concatenation.
\<close>

definition plain_mac :: "(string \<times> string) crypto_env" where
  "plain_mac = \<lparr>mac_create = (\<lambda>s. (s, ''?'')), mac_clear = (\<lambda>(s, b). (s, [])), mac_update = (\<lambda>t (s, b). (s, b @ t)),
     mac_final = (\<lambda>(s, b). (s @ '':'' @ b, (s, b))), base64_encode = id, url_encode = id,
     fmt_method = (\<lambda>m. case m of GET \<Rightarrow> ''GET'' | POST \<Rightarrow> ''POST'' | DELETE \<Rightarrow> ''DELETE''),
     safe_cast_ms = (\<lambda>t. t div 1000000)\<rparr>"

lemma plain_mac_fold: "fold (mac_update plain_mac) ts (s, b) = (s, b @ concat ts)"
  by (induction ts arbitrary: b) (auto simp: plain_mac_def)

lemma plain_mac_clear: "mac_clear plain_mac m = (fst m, [])"
  by (simp add: plain_mac_def split_def)

lemma plain_mac_final: "mac_final plain_mac (s, b) = (s @ '':'' @ b, (s, b))"
  by (simp add: plain_mac_def)

lemma lawful_plain_mac: "lawful_mac plain_mac (\<lambda>s m. fst m = s) (\<lambda>s t. s @ '':'' @ t)"
  unfolding lawful_mac_def plain_mac_clear plain_mac_fold plain_mac_final
  by (simp add: plain_mac_def)

theorem signatures_independent_of_history_witness:
  "\<exists>c a. Config_create sample_settings () sample_entries = Normal () c
     \<and> account_run plain_mac c ''A1'' a \<and> cr_mac (acc_crypto a) = (''s1'', ''hello'')
     \<and> fst (account_create_ws_auth plain_mac a ''msg'') = ''s1:msg''"
proof -
  obtain c where c: "Config_create sample_settings () sample_entries = Normal () c"
    by (simp add: Config_create_def sample_entries_def config_handle_def exec_simps)
  have creds: "get_api_key c ''A1'' = Some ''k1''" "get_secret c ''A1'' = Some ''s1''" "get_passphrase c ''A1'' = Some ''p1''"
    using config_load_lookup [OF c, of "''A1''"]
    by (simp_all add: get_api_key_def get_secret_def get_passphrase_def sample_entries_def)
  obtain a0 where a0: "Account_create plain_mac c ''A1'' = Some a0"
    by (simp add: Account_create_def creds)
  then have "cr_mac (acc_crypto a0) = (''s1'', ''p1'')"
    by (auto simp: Account_create_def creds Crypto_create_def create_signed_passphrase_def plain_mac_def)
  define a where "a = snd (account_create_ws_auth plain_mac a0 ''hello'')"
  have run: "account_run plain_mac c ''A1'' a"
    by (rule run_auth [OF run_create [OF a0]]) (simp add: a_def prod_eq_iff)
  have "cr_mac (acc_crypto a) = (''s1'', ''hello'')"
    unfolding a_def using \<open>cr_mac (acc_crypto a0) = _\<close>
    by (simp add: account_create_ws_auth_def create_ws_auth_def plain_mac_def)
  with c run signatures_independent_of_history [OF lawful_plain_mac creds run, of _ _ _ _ _ "''msg''"]
  show ?thesis by (auto simp: plain_mac_def)
qed

end
