(* ===== verification/Application.thy ===== *)
theory Application
  imports Order_Requests Throttle Crypto Sessions Gateway
begin

text \<open>
  The process around the gateway: \<open>flags/settings.*\<close>, \<open>gateway/shared.*\<close>, the accounts and requests
  of \<open>gateway/controller.cpp\<close>, \<open>application.cpp\<close> and the two bridges. The generated flags are
  parsed by library code: the parsed command line is a parameter. So is the server, which creates the
  controller and hands it its events. Here the streams' parameters that are code of the gateway
  itself (signatures, paths, margin mode) are bound to their models.
\<close>

subsection \<open>Settings\<close>

text \<open>The groups of flags, as \<open>flags/*.json\<close> declares them, and the settings of the server the code reads.\<close>

record flag_values =
  fl_exchange :: string
  fl_ws_api :: bool
  fl_margin_mode :: string

record misc_flags =
  fm_encode_buffer_size :: nat
  fm_decode_buffer_size :: nat
  fm_experimental_crash_on_expired_token :: bool
  fm_experimental_simulate_expired_token :: int

record rest_flags =
  fr_uri :: string
  fr_proxy :: string
  fr_ping_freq :: int
  fr_ping_path :: string
  fr_request_timeout :: int
  fr_token_refresh_freq :: int

record ws_flags =
  fw_uri :: string
  fw_ping_freq :: int
  fw_request_timeout :: int
  fw_max_subscriptions_per_stream :: nat
  fw_subscribe_ticker_v2 :: bool
  fw_mbp_request_delay :: int
  fw_mbp_request_max_retries :: nat

record request_flags =
  fq_limit :: nat
  fq_limit_interval :: int

record server_settings =
  ss_app_name :: string
  ss_trades_lookback :: int
  ss_allow_unknown_event_types :: bool
  ss_check_stale_order_freq :: int
  ss_enable_rate_limit :: bool
  ss_mbp_checksum :: bool
  ss_retry_logon :: bool
  ss_connection_timeout :: int
  ss_disconnect_on_idle_timeout :: int
  ss_tls_validate_certificate :: bool

record command_line =
  cl_server :: server_settings
  cl_flags :: flag_values
  cl_misc :: misc_flags
  cl_rest :: rest_flags
  cl_ws :: ws_flags
  cl_mbp_allow_price_inversion :: bool
  cl_request :: request_flags

definition Settings_create :: "command_line \<Rightarrow> settings" where
  "Settings_create args = (let server = cl_server args; flags = cl_flags args; misc = cl_misc args;
       rest = cl_rest args; ws = cl_ws args; request = cl_request args in
     \<lparr>set_app_name = ss_app_name server, set_exchange = fl_exchange flags, set_ws_api = fl_ws_api flags,
      set_ws_uri = fw_uri ws, set_margin_mode = fl_margin_mode flags, set_trades_lookback = ss_trades_lookback server,
      set_allow_unknown_event_types = ss_allow_unknown_event_types server,
      set_check_stale_order_freq = ss_check_stale_order_freq server, set_enable_rate_limit = ss_enable_rate_limit server,
      set_mbp_checksum = ss_mbp_checksum server, set_retry_logon = ss_retry_logon server,
      set_allow_price_inversion = cl_mbp_allow_price_inversion args,
      set_crash_on_expired_token = fm_experimental_crash_on_expired_token misc,
      set_simulate_expired_token = fm_experimental_simulate_expired_token misc,
      set_mbp_request_max_retries = fw_mbp_request_max_retries ws, set_ws_request_timeout = fw_request_timeout ws,
      set_ws_max_subscriptions_per_stream = fw_max_subscriptions_per_stream ws, set_ws_ping_freq = fw_ping_freq ws,
      set_mbp_request_delay = fw_mbp_request_delay ws, set_request_limit = fq_limit request,
      set_request_limit_interval = fq_limit_interval request, set_rest_uri = fr_uri rest, set_rest_proxy = fr_proxy rest,
      set_rest_request_timeout = fr_request_timeout rest, set_rest_ping_freq = fr_ping_freq rest,
      set_rest_ping_path = fr_ping_path rest, set_net_connection_timeout = ss_connection_timeout server,
      set_net_disconnect_on_idle_timeout = ss_disconnect_on_idle_timeout server,
      set_net_tls_validate_certificate = ss_tls_validate_certificate server,
      set_decode_buffer_size = fm_decode_buffer_size misc, set_encode_buffer_size = fm_encode_buffer_size misc\<rparr>)"

subsection \<open>Shared state\<close>

text \<open>
  The limiter, the queue and the table of symbols are library objects: of those, what they are
  created with. The sequencers and the set of known symbols start out empty.
\<close>

record shared =
  sh_settings :: settings
  sh_api :: api
  sh_margin_mode :: margin_mode
  sh_throttle :: throttle
  sh_rate_limiter :: "nat \<times> int"
  sh_depth_request_delay :: int
  sh_symbols_per_stream :: nat
  sh_all_symbols :: "string list"

definition create_margin_mode :: "(string \<Rightarrow> exn + margin_mode) \<Rightarrow> string \<Rightarrow> exn + margin_mode" where
  "create_margin_mode parse_enum margin_mode = parse_enum margin_mode"

definition Shared_create :: "(string \<Rightarrow> exn + margin_mode) \<Rightarrow> settings \<Rightarrow> exn + shared" where
  "Shared_create parse_enum s = (case create_margin_mode parse_enum (set_margin_mode s) of
     Inl e \<Rightarrow> Inl e
   | Inr margin_mode \<Rightarrow> Inr \<lparr>sh_settings = s, sh_api = API_create, sh_margin_mode = margin_mode,
       sh_throttle = Throttle_create (set_enable_rate_limit s),
       sh_rate_limiter = (set_request_limit s, set_request_limit_interval s),
       sh_depth_request_delay = set_mbp_request_delay s,
       sh_symbols_per_stream = set_ws_max_subscriptions_per_stream s, sh_all_symbols = []\<rparr>)"

subsection \<open>Accounts and requests\<close>

text \<open>\<open>None\<close>: the credentials of an account are not found, the process ends.\<close>

primrec create_accounts_loop :: "'m crypto_env \<Rightarrow> ('sy, 'us, 'rl) config \<Rightarrow> (string \<times> account_config) list
    \<Rightarrow> (string \<rightharpoonup> 'm account) \<Rightarrow> (string \<rightharpoonup> 'm account) option" where
  "create_accounts_loop K config [] result = Some result"
| "create_accounts_loop K config (item # items) result = (case Account_create K config (ac_name (snd item)) of
     None \<Rightarrow> None
   | Some account \<Rightarrow> create_accounts_loop K config items
       (if ac_name (snd item) \<in> dom result then result else result(ac_name (snd item) \<mapsto> account)))"

definition create_accounts :: "'m crypto_env \<Rightarrow> ('sy, 'us, 'rl) config \<Rightarrow> (string \<rightharpoonup> 'm account) option" where
  "create_accounts K config = create_accounts_loop K config (cfg_accounts config) Map.empty"

text \<open>Of a request object, the stale orders it holds; a new one holds none.\<close>

definition create_requests :: "('sy, 'us, 'rl) config \<Rightarrow> string \<rightharpoonup> (8 word \<times> 64 word) list" where
  "create_requests config = fold (\<lambda>item result. if ac_name (snd item) \<in> dom result then result
     else result(ac_name (snd item) \<mapsto> [])) (cfg_accounts config) Map.empty"

text \<open>\<open>None\<close> is the fatal log.\<close>

definition get_request :: "(string \<rightharpoonup> 'r) \<Rightarrow> string \<Rightarrow> 'r option" where
  "get_request requests account = requests account"

text \<open>
  The signatures of an account, as its streams ask for them. The account object changes with every
  signature, but \<open>headers_any_time\<close> below shows that what it signs does not.
\<close>

definition account_headers :: "'m crypto_env \<Rightarrow> 'm account option
    \<Rightarrow> trace_info \<Rightarrow> http_method \<Rightarrow> string \<Rightarrow> string \<Rightarrow> string \<Rightarrow> string" where
  "account_headers K account ti method path query body = (case account of
     None \<Rightarrow> []
   | Some a \<Rightarrow> (case account_create_headers K a ti method path query body of None \<Rightarrow> [] | Some (h, a') \<Rightarrow> h))"

definition account_ws_auth :: "'m crypto_env \<Rightarrow> 'm account option \<Rightarrow> string \<Rightarrow> string" where
  "account_ws_auth K account message = (case account of None \<Rightarrow> [] | Some a \<Rightarrow> fst (account_create_ws_auth K a message))"

definition account_ws_query :: "'m crypto_env \<Rightarrow> 'm account option \<Rightarrow> trace_info \<Rightarrow> string" where
  "account_ws_query K account ti = (case account of None \<Rightarrow> [] | Some a \<Rightarrow> fst (account_create_ws_query K a ti))"

text \<open>What the streams are given: the account's signatures and the shared settings, paths and margin mode.\<close>

definition gateway_env ::
    "'m crypto_env \<Rightarrow> controller_env \<Rightarrow> shared \<Rightarrow> (string \<rightharpoonup> 'm account) \<Rightarrow> controller_env" where
  "gateway_env K W shared accounts = W
     \<lparr>ge_settings := sh_settings shared,
      ge_rest := (ge_rest W)\<lparr>ree_api := sh_api shared\<rparr>,
      ge_order_entry_rest := (\<lambda>account. (ge_order_entry_rest W account)
        \<lparr>oee_api := sh_api shared, oee_margin_mode := sh_margin_mode shared,
         oee_headers := account_headers K (accounts account)\<rparr>),
      ge_order_entry_ws := (\<lambda>account. (ge_order_entry_ws W account)
        \<lparr>owe_margin_mode := sh_margin_mode shared, owe_ws_auth := account_ws_auth K (accounts account),
         owe_ws_query := account_ws_query K (accounts account)\<rparr>),
      ge_market_data := (\<lambda>uri query. (ge_market_data W uri query)\<lparr>mde_api := sh_api shared\<rparr>)\<rparr>"

text \<open>The whole constructor of the controller.\<close>

definition Controller_start :: "'m crypto_env \<Rightarrow> controller_env \<Rightarrow> (string \<Rightarrow> exn + margin_mode) \<Rightarrow> settings
    \<Rightarrow> ('sy, 'us, 'rl) config \<Rightarrow> (controller_env \<times> controller, exn, unit) outcome" where
  "Controller_start K W parse_enum settings config = (case Shared_create parse_enum settings of
     Inl e \<Rightarrow> Thrown e ()
   | Inr shared \<Rightarrow> (case create_accounts K config of
       None \<Rightarrow> Fatal ''Unexpected'' ()
     | Some accounts \<Rightarrow>
         if list_ex (\<lambda>item. get_request (create_requests config) (ac_name (snd item)) = None) (cfg_accounts config)
         then Fatal ''Unexpected'' ()
         else let G = gateway_env K W shared accounts in Normal (G, Controller_create G config) ()))"

subsection \<open>Applications\<close>

definition EXIT_SUCCESS :: int where
  "EXIT_SUCCESS = 0"

text \<open>
  What the three programs share: the configuration is read, the server creates the controller and
  dispatches until it stops; the events are those the server (or the bridge) sends in that time.
\<close>

definition start_gateway :: "'m crypto_env \<Rightarrow> controller_env \<Rightarrow> (string \<Rightarrow> exn + margin_mode) \<Rightarrow> settings \<Rightarrow> 'sy
    \<Rightarrow> ('sy, 'us, 'rl) config_entry list \<Rightarrow> (controller_env \<times> controller, exn, unit) outcome" where
  "start_gateway K W parse_enum settings no_symbols entries = (case Config_create settings no_symbols entries of
     Normal u config \<Rightarrow> Controller_start K W parse_enum settings config
   | Thrown e config \<Rightarrow> Thrown e ()
   | Fatal msg config \<Rightarrow> Fatal msg ())"

definition serve :: "(controller_env \<times> controller, exn, unit) outcome \<Rightarrow> controller_event list
    \<Rightarrow> (int \<times> controller, exn, unit) outcome" where
  "serve started events = (case started of
     Normal (G, s) u \<Rightarrow> (case run_alive (controller_step G) events s of
         None \<Rightarrow> Fatal ''event'' ()
       | Some t \<Rightarrow> Normal (EXIT_SUCCESS, t) ())
   | Thrown e u \<Rightarrow> Thrown e ()
   | Fatal msg u \<Rightarrow> Fatal msg ())"

definition Application_main :: "'m crypto_env \<Rightarrow> controller_env \<Rightarrow> (string \<Rightarrow> exn + margin_mode) \<Rightarrow> command_line \<Rightarrow> 'sy
    \<Rightarrow> ('sy, 'us, 'rl) config_entry list \<Rightarrow> controller_event list \<Rightarrow> (int \<times> controller, exn, unit) outcome" where
  "Application_main K W parse_enum args no_symbols entries events =
     (let settings = Settings_create args in serve (start_gateway K W parse_enum settings no_symbols entries) events)"

text \<open>The settings of a bridge extend those of the gateway by its own, which library code parses.\<close>

record 'b bridge_settings =
  bs_gateway :: settings
  bs_bridge :: 'b

definition Bridge_Settings_create :: "(command_line \<Rightarrow> 'b) \<Rightarrow> command_line \<Rightarrow> 'b bridge_settings" where
  "Bridge_Settings_create create_bridge args = \<lparr>bs_gateway = Settings_create args, bs_bridge = create_bridge args\<rparr>"

definition FixBridge_Settings_create :: "(command_line \<Rightarrow> 'b) \<Rightarrow> command_line \<Rightarrow> 'b bridge_settings" where
  "FixBridge_Settings_create create_fix_bridge args =
     \<lparr>bs_gateway = Settings_create args, bs_bridge = create_fix_bridge args\<rparr>"

text \<open>What a bridge sends to the gateway depends on its settings too: \<open>events\<close> is a function of them.\<close>

definition Bridge_main :: "(command_line \<Rightarrow> 'b) \<Rightarrow> 'm crypto_env \<Rightarrow> controller_env \<Rightarrow> (string \<Rightarrow> exn + margin_mode)
    \<Rightarrow> command_line \<Rightarrow> 'sy \<Rightarrow> ('sy, 'us, 'rl) config_entry list \<Rightarrow> ('b \<Rightarrow> controller_event list)
    \<Rightarrow> (int \<times> controller, exn, unit) outcome" where
  "Bridge_main create_bridge K W parse_enum args no_symbols entries events =
     (let settings = Bridge_Settings_create create_bridge args
      in serve (start_gateway K W parse_enum (bs_gateway settings) no_symbols entries) (events (bs_bridge settings)))"

definition FixBridge_main :: "(command_line \<Rightarrow> 'b) \<Rightarrow> 'm crypto_env \<Rightarrow> controller_env \<Rightarrow> (string \<Rightarrow> exn + margin_mode)
    \<Rightarrow> command_line \<Rightarrow> 'sy \<Rightarrow> ('sy, 'us, 'rl) config_entry list \<Rightarrow> ('b \<Rightarrow> controller_event list)
    \<Rightarrow> (int \<times> controller, exn, unit) outcome" where
  "FixBridge_main create_fix_bridge K W parse_enum args no_symbols entries events =
     (let settings = FixBridge_Settings_create create_fix_bridge args
      in serve (start_gateway K W parse_enum (bs_gateway settings) no_symbols entries) (events (bs_bridge settings)))"

subsection \<open>Starting\<close>

lemma create_accounts_loop_any:
  assumes "\<forall>item\<in>set items. map_of (cfg_accounts config) (ac_name (snd item)) \<noteq> None"
    and "\<forall>n a. result n = Some a \<longrightarrow> Account_create K config n = Some a"
  shows "\<exists>m. create_accounts_loop K config items result = Some m
     \<and> (\<forall>n. m n = (if n \<in> dom result \<union> (\<lambda>item. ac_name (snd item)) ` set items then Account_create K config n else None))"
  using assms
proof (induction items arbitrary: result)
  case Nil
  then show ?case by (auto simp: domIff split: option.splits)
next
  case (Cons item items)
  let ?n = "ac_name (snd item)"
  obtain a where a: "Account_create K config ?n = Some a"
    using Cons.prems(1) by (auto simp: Account_create_def get_api_key_def get_secret_def get_passphrase_def)
  let ?r = "if ?n \<in> dom result then result else result(?n \<mapsto> a)"
  have "\<exists>m. create_accounts_loop K config items ?r = Some m
     \<and> (\<forall>n. m n = (if n \<in> dom ?r \<union> (\<lambda>item. ac_name (snd item)) ` set items then Account_create K config n else None))"
    by (rule Cons.IH) (use Cons.prems a in \<open>auto split: if_splits\<close>)
  then obtain m where m: "create_accounts_loop K config items ?r = Some m"
    and each: "\<And>n. m n = (if n \<in> dom ?r \<union> (\<lambda>item. ac_name (snd item)) ` set items then Account_create K config n else None)"
    by blast
  have "dom ?r = insert ?n (dom result)" by auto
  with m each a show ?case by auto
qed

text \<open>The accounts of a configuration that loads are all created, each with its own credentials.\<close>

lemma accounts_created:
  assumes "Config_create settings sy entries = Normal () config"
  shows "create_accounts K config = Some (Account_create K config)"
proof -
  have accs: "cfg_accounts config = fold (\<lambda>a. emplace (ac_name a) a) (entry_accounts entries) []"
    using load_accounts [OF assms [unfolded Config_create_def]] by simp
  have keyed: "\<forall>(k, a)\<in>set (cfg_accounts config). k = ac_name a"
    unfolding accs by (rule keyed_fold_emplace) simp
  then have keys: "(\<lambda>item. ac_name (snd item)) ` set (cfg_accounts config) = fst ` set (cfg_accounts config)"
    by (intro image_cong) auto
  have none: "Account_create K config n = None" if "n \<notin> fst ` set (cfg_accounts config)" for n
    using that by (simp add: Account_create_def get_api_key_def map_of_eq_None_iff split: option.split)
  have "\<forall>item\<in>set (cfg_accounts config). map_of (cfg_accounts config) (ac_name (snd item)) \<noteq> None"
    using keys by (auto simp: map_of_eq_None_iff)
  from create_accounts_loop_any [OF this, of Map.empty K] obtain m where
    "create_accounts_loop K config (cfg_accounts config) Map.empty = Some m"
    "\<And>n. m n = (if n \<in> fst ` set (cfg_accounts config) then Account_create K config n else None)"
    by (auto simp: keys)
  with none show ?thesis by (auto simp: create_accounts_def fun_eq_iff)
qed

lemma requests_created:
  "create_requests config account = (if account \<in> (\<lambda>item. ac_name (snd item)) ` set (cfg_accounts config) then Some [] else None)"
proof -
  have loop: "fold (\<lambda>item result. if ac_name (snd item) \<in> dom result then result else result(ac_name (snd item) \<mapsto> [])) items result account
      = (if account \<in> dom result then result account
         else if account \<in> (\<lambda>item. ac_name (snd item)) ` set items then Some [] else None)"
    for items and result :: "string \<rightharpoonup> (8 word \<times> 64 word) list"
    by (induction items arbitrary: result) (auto simp: domIff)
  show ?thesis unfolding create_requests_def loop by simp
qed

lemma config_loads:
  "\<exists>config. if Entry_RequestTemplate \<in> set entries
     then Config_create settings sy entries = Fatal ''Unexpected: request templates not supported'' config
     else Config_create settings sy entries = Normal () config"
proof -
  have one: "config_handle e c = (if e = Entry_RequestTemplate
      then Fatal ''Unexpected: request templates not supported'' c else Normal () (final_state (config_handle e c)))"
    for e and c :: "('a, 'b, 'c) config"
    by (cases e) (simp_all add: config_handle_def exec_simps)
  have "\<exists>c'. for_each entries config_handle c = (if Entry_RequestTemplate \<in> set entries
      then Fatal ''Unexpected: request templates not supported'' c' else Normal () c')" for c :: "('a, 'b, 'c) config"
  proof (induction entries arbitrary: c)
    case (Cons e entries)
    show ?case
    proof (cases "e = Entry_RequestTemplate")
      case True
      with one [of e c] show ?thesis by (simp add: exec_simps)
    next
      case False
      with one [of e c] have "config_handle e c = Normal () (final_state (config_handle e c))" by simp
      with Cons.IH [of "final_state (config_handle e c)"] False show ?thesis
        by (simp add: seqm_Normal)
    qed
  qed (simp add: exec_simps)
  then show ?thesis unfolding Config_create_def by (metis (full_types))
qed

text \<open>
  C32. When the process starts. Whatever the command line and the file, a request template in the file
  ends the process, a margin mode that cannot be parsed is thrown, and otherwise the controller is
  created: every configured account gets the signatures of its own credentials and a request
  object, and all streams get the paths, the settings and the parsed margin mode. The two bridges
  do exactly what the gateway does; only where the events come from differs.
\<close>

theorem application_starts:
  "\<exists>config. (Entry_RequestTemplate \<in> set entries \<or> Config_create (Settings_create args) sy entries = Normal () config)
     \<and> start_gateway K W parse_enum (Settings_create args) sy entries =
        (if Entry_RequestTemplate \<in> set entries then Fatal ''Unexpected: request templates not supported'' ()
         else case parse_enum (fl_margin_mode (cl_flags args)) of
           Inl e \<Rightarrow> Thrown e ()
         | Inr mode \<Rightarrow> (let
             shared = \<lparr>sh_settings = Settings_create args, sh_api = API_create, sh_margin_mode = mode,
               sh_throttle = Throttle_create (ss_enable_rate_limit (cl_server args)),
               sh_rate_limiter = (fq_limit (cl_request args), fq_limit_interval (cl_request args)),
               sh_depth_request_delay = fw_mbp_request_delay (cl_ws args),
               sh_symbols_per_stream = fw_max_subscriptions_per_stream (cl_ws args), sh_all_symbols = []\<rparr>;
             G = gateway_env K W shared (Account_create K config)
           in Normal (G, Controller_create G config) ()))
     \<and> Bridge_main create_bridge K W parse_enum args sy entries bridge_events
        = Application_main K W parse_enum args sy entries (bridge_events (create_bridge args))
     \<and> FixBridge_main create_fix_bridge K W parse_enum args sy entries fix_events
        = Application_main K W parse_enum args sy entries (fix_events (create_fix_bridge args))"
proof -
  obtain config where config: "if Entry_RequestTemplate \<in> set entries
     then Config_create (Settings_create args) sy entries = Fatal ''Unexpected: request templates not supported'' config
     else Config_create (Settings_create args) sy entries = Normal () config"
    by (rule exE [OF config_loads])
  have "\<not> list_ex (\<lambda>item. get_request (create_requests config) (ac_name (snd item)) = None) (cfg_accounts config)"
    by (auto simp: get_request_def requests_created list_ex_iff)
  with config show ?thesis
    by (intro exI [of _ config]) (auto simp: start_gateway_def Controller_start_def Shared_create_def create_margin_mode_def
      accounts_created Settings_create_def Let_def Bridge_main_def FixBridge_main_def Application_main_def
      Bridge_Settings_create_def FixBridge_Settings_create_def split: sum.split)
qed

text \<open>A program that stops has gone through states the gateway can reach.\<close>

lemma run_alive_reach: "run_alive (controller_step G) events s = Some t \<Longrightarrow> gc_reach G r s \<Longrightarrow> gc_reach G r t"
  by (induction events arbitrary: s) (auto intro: gc_event split: if_splits)

lemma serve_reaches: "serve (Normal (G, s) u) events = Normal (status, t) v \<Longrightarrow> status = EXIT_SUCCESS \<and> gc_reach G s t"
  by (auto simp: serve_def intro: run_alive_reach gc_created split: option.splits)

subsection \<open>Signatures\<close>

lemma started:
  assumes "start_gateway K W parse_enum settings sy entries = Normal (G, s) u"
  obtains config shared where "Config_create settings sy entries = Normal () config"
    and "sh_api shared = API_create" and "G = gateway_env K W shared (Account_create K config)"
    and "s = Controller_create G config"
proof (cases "Config_create settings sy entries")
  case (Normal u config)
  with assms accounts_created [of settings sy entries config K] obtain shared where shared: "Shared_create parse_enum settings = Inr shared"
      "G = gateway_env K W shared (Account_create K config)" "s = Controller_create G config"
    by (auto simp: start_gateway_def Controller_start_def Let_def split: sum.splits if_splits)
  moreover from shared(1) have "sh_api shared = API_create" by (auto simp: Shared_create_def split: sum.splits)
  ultimately show thesis using Normal by (intro that [of config shared]) simp_all
qed (use assms in \<open>simp_all add: start_gateway_def\<close>)

text \<open>The account as configured, and every state of its object, sign alike.\<close>

lemma configured_account:
  assumes "lawful_mac K keyed hmac" and "Config_create settings sy entries = Normal () config"
    and "find (\<lambda>a. ac_name a = account) (entry_accounts entries) = Some a"
  obtains acc where "Account_create K config account = Some acc"
    and "\<And>acc'. account_run K config account acc' \<Longrightarrow>
      account_keyed K keyed hmac account (ac_login a) (ac_secret a) (ac_password a) acc'"
proof -
  have creds: "get_api_key config account = Some (ac_login a)" "get_secret config account = Some (ac_secret a)"
    "get_passphrase config account = Some (ac_password a)"
    using config_load_lookup [OF assms(2), of account] assms(3)
    by (simp_all add: get_api_key_def get_secret_def get_passphrase_def)
  show thesis
  proof (rule that)
    show "Account_create K config account = Some \<lparr>acc_name = account, acc_crypto = Crypto_create K (ac_login a) (ac_secret a) (ac_password a)\<rparr>"
      using creds by (simp add: Account_create_def)
    show "account_keyed K keyed hmac account (ac_login a) (ac_secret a) (ac_password a) acc'" if "account_run K config account acc'" for acc'
      by (rule account_run_keyed [OF assms(1) creds that])
  qed
qed

lemma headers_any_time:
  assumes "lawful_mac K keyed hmac" and "account_keyed K keyed hmac name key secret passphrase acc"
  shows "path \<noteq> [] \<Longrightarrow> account_headers K (Some acc) ti method path query body = signed_headers K hmac key secret passphrase
      (fmt_int (safe_cast_ms K (origin_create_time_utc ti))) method path query body"
    and "account_ws_auth K (Some acc) message = base64_encode K (hmac secret message)"
proof -
  show "account_headers K (Some acc) ti method path query body = signed_headers K hmac key secret passphrase
      (fmt_int (safe_cast_ms K (origin_create_time_utc ti))) method path query body" if "path \<noteq> []"
    using account_signs(1) [OF assms, of ti "method" path query body] that by (auto simp: account_headers_def)
  show "account_ws_auth K (Some acc) message = base64_encode K (hmac secret message)"
    using account_signs(3) [OF assms, of message] by (simp add: account_ws_auth_def)
qed

interpretation signed: streams_invariant "\<lambda>E c. True" "\<lambda>E. grows (signed_as_sent E) []" "\<lambda>E c. True" "\<lambda>E c. True" "\<lambda>E c. True"
proof
  show "keeps (grows (signed_as_sent E) []) (order_entry_step E e)" for E e
    by (rule signed_kept)
qed (simp_all add: keeps_def grows_def OrderEntryREST_create_def)

lemma private_path_nonempty: "private_path API_create path \<Longrightarrow> path \<noteq> []"
  by (auto simp: private_path_def private_paths_def API_create_def)

text \<open>
  C4. In every state a started gateway can reach, every request an account's order stream has sent is
  on one of the exchange's private paths and carries headers with the key of the account as the
  configuration file first names it, a signature under the account's secret of exactly the time, the
  method, path, query and body that are sent, and the signed passphrase; and its websocket order
  stream answers a login challenge with the challenge's signature under that secret. No account
  ever signs with the credentials of another.
\<close>

theorem accounts_sign_their_own:
  assumes "lawful_mac K keyed hmac" and "start_gateway K W parse_enum settings sy entries = Normal (G, s0) ()"
    and "gc_reach G s0 s"
  shows "(\<forall>account E c r i cb. gc_order_entry_rest s account = Some (E, c) \<and> SendRequest r i cb \<in> set (trace c) \<longrightarrow>
        private_path API_create (rq_path r)
      \<and> (\<exists>a (ti :: trace_info). find (\<lambda>a. ac_name a = account) (entry_accounts entries) = Some a
          \<and> rq_headers r = signed_headers K hmac (ac_login a) (ac_secret a) (ac_password a)
              (fmt_int (safe_cast_ms K (origin_create_time_utc ti))) (rq_method r) (rq_path r) (rq_query r) (rq_body r)))
    \<and> (\<forall>account E c message. gc_order_entry_ws s account = Some (E, c) \<longrightarrow>
        (\<exists>a. find (\<lambda>a. ac_name a = account) (entry_accounts entries) = Some a
          \<and> owe_ws_auth E message = base64_encode K (hmac (ac_secret a) message)))"
proof -
  obtain config shared where config: "Config_create settings sy entries = Normal () config"
    and api: "sh_api shared = API_create" and G: "G = gateway_env K W shared (Account_create K config)"
    and s0: "s0 = Controller_create G config"
    by (rule started [OF assms(2)])
  note reach = assms(3) [unfolded s0]
  have "accounts_served G (ac_name ` set (entry_accounts entries)) s"
    using served.reached [OF reach] created_numbered [of config G] loaded_accounts [OF config] by simp
  then have configured: "\<exists>a. find (\<lambda>a. ac_name a = account) (entry_accounts entries) = Some a"
    if "account \<in> dom (gc_order_entry_rest s) \<union> dom (gc_order_entry_ws s)" for account
    using that by (cases "find (\<lambda>a. ac_name a = account) (entry_accounts entries)")
      (auto simp: accounts_served_def find_None_iff split: if_splits)
  have signs: "\<exists>acc. Account_create K config account = Some acc
      \<and> account_keyed K keyed hmac account (ac_login a) (ac_secret a) (ac_password a) acc"
    if "find (\<lambda>a. ac_name a = account) (entry_accounts entries) = Some a" for account a
    using configured_account [OF assms(1) config that] by (metis run_create)
  note params = reached_parameters [OF reach, unfolded stream_parameters_def]
  have ok: "signed.all_ok s"
    by (rule signed.whole.reached [OF reach signed.all_ok_create])
  have rest: "private_path API_create (rq_path r) \<and> (\<exists>a (ti :: trace_info). find (\<lambda>a. ac_name a = account) (entry_accounts entries) = Some a
          \<and> rq_headers r = signed_headers K hmac (ac_login a) (ac_secret a) (ac_password a)
              (fmt_int (safe_cast_ms K (origin_create_time_utc ti))) (rq_method r) (rq_path r) (rq_query r) (rq_body r))"
    if c: "gc_order_entry_rest s account = Some (E, c)" "SendRequest r i cb \<in> set (trace c)" for account E c r i cb
  proof -
    obtain a where a: "find (\<lambda>a. ac_name a = account) (entry_accounts entries) = Some a"
      using configured c(1) by blast
    obtain acc where acc: "Account_create K config account = Some acc"
      "account_keyed K keyed hmac account (ac_login a) (ac_secret a) (ac_password a) acc"
      using signs [OF a] by blast
    obtain n where E: "E = order_entry_rest_stream G n account" using params c(1) by blast
    have E_is: "oee_api E = API_create" "oee_headers E = account_headers K (Some acc)"
      by (simp_all add: E order_entry_rest_stream_def G gateway_env_def api acc(1))
    from ok c(1) have "list_all (signed_as_sent E) (trace c)"
      by (simp add: signed.all_ok_def grows_def)
    with c(2) have "signed_as_sent E (SendRequest r i cb)" unfolding list_all_iff by blast
    then obtain ti where path: "private_path API_create (rq_path r)"
      and headers: "rq_headers r = account_headers K (Some acc) ti (rq_method r) (rq_path r) (rq_query r) (rq_body r)"
      by (auto simp: E_is)
    have "rq_headers r = signed_headers K hmac (ac_login a) (ac_secret a) (ac_password a)
        (fmt_int (safe_cast_ms K (origin_create_time_utc ti))) (rq_method r) (rq_path r) (rq_query r) (rq_body r)"
      unfolding headers by (rule headers_any_time(1) [OF assms(1) acc(2) private_path_nonempty [OF path]])
    then show ?thesis by (intro conjI path a exI [of _ a] exI [of _ ti])
  qed
  moreover have "\<exists>a. find (\<lambda>a. ac_name a = account) (entry_accounts entries) = Some a
      \<and> owe_ws_auth E message = base64_encode K (hmac (ac_secret a) message)"
    if c: "gc_order_entry_ws s account = Some (E, c)" for account E c message
  proof -
    obtain a where a: "find (\<lambda>a. ac_name a = account) (entry_accounts entries) = Some a"
      using configured c by blast
    obtain acc where acc: "Account_create K config account = Some acc"
      "account_keyed K keyed hmac account (ac_login a) (ac_secret a) (ac_password a) acc"
      using signs [OF a] by blast
    obtain n where E: "E = order_entry_ws_stream G n account" using params c by blast
    show ?thesis
      using a headers_any_time(2) [OF assms(1) acc(2)]
      by (simp add: E order_entry_ws_stream_def G gateway_env_def acc(1))
  qed
  ultimately show ?thesis by blast
qed

definition connecting_env :: controller_env where
  "connecting_env = sample_controller_env\<lparr>ge_order_entry_rest := (\<lambda>account. sample_order_entry_env
     \<lparr>oee_download := (\<lambda>tr. DlCall PRIVATE_TOKEN (\<lambda>n. DlDone))\<rparr>)\<rparr>"

theorem accounts_sign_their_own_witness:
  "\<exists>G s0 s E c r i cb ts. start_gateway plain_mac connecting_env (\<lambda>m. Inr MarginMode_CROSS) sample_settings () sample_entries
       = Normal (G, s0) ()
     \<and> gc_reach G s0 s \<and> gc_order_entry_rest s ''A1'' = Some (E, c) \<and> SendRequest r i cb \<in> set (trace c)
     \<and> rq_path r = ''/api/v1/bullet-private''
     \<and> rq_headers r = signed_headers plain_mac (\<lambda>s t. s @ '':'' @ t) ''k1'' ''s1'' ''p1'' ts (rq_method r) (rq_path r)
         (rq_query r) (rq_body r)"
proof -
  let ?e = "GC_OrderEntryREST ''A1'' (OE_Connected sample_trace_info)"
  have mode: "Shared_create (\<lambda>m. Inr MarginMode_CROSS) sample_settings \<noteq> Inl e" for e
    by (simp add: Shared_create_def create_margin_mode_def)
  have requests: "\<not> list_ex (\<lambda>item. get_request (create_requests sample_config) (ac_name (snd item)) = None) (cfg_accounts sample_config)"
    by (auto simp: get_request_def requests_created list_ex_iff)
  obtain G s0 where start: "start_gateway plain_mac connecting_env (\<lambda>m. Inr MarginMode_CROSS) sample_settings () sample_entries
      = Normal (G, s0) ()"
    using accounts_created [OF sample_config_loads, of plain_mac] requests
    by (simp add: start_gateway_def sample_config_loads Controller_start_def Shared_create_def create_margin_mode_def Let_def)
  obtain config shared where config: "Config_create sample_settings () sample_entries = Normal () config"
    and api: "sh_api shared = API_create"
    and G: "G = gateway_env plain_mac connecting_env shared (Account_create plain_mac config)"
    and s0: "s0 = Controller_create G config"
    by (rule started [OF start])
  have config: "config = sample_config" using config sample_config_loads by simp
  note run = controller_step_def on_order_entry_rest_def relaying_def attempt_def zoom_def order_entry_step_def
    oe_download_call_def oe_download_def oe_report_run get_private_token_def oe_request_def Controller_create_def
    create_order_entry_ws_def sample_config_def order_entry_rest_stream_def connecting_env_def sample_controller_env_def
    sample_order_entry_env_def OrderEntryREST_create_def lend_def put_order_entry_rest_def gateway_env_def
  have calm: "\<not> is_fatal (controller_step G ?e s0)"
    by (simp add: s0 config G run exec_simps Let_def)
  have reach: "gc_reach G s0 (final_state (controller_step G ?e s0))"
    by (rule gc_event [OF gc_created calm])
  have "\<exists>E c r i cb. gc_order_entry_rest (final_state (controller_step G ?e s0)) ''A1'' = Some (E, c)
      \<and> SendRequest r i cb \<in> set (trace c) \<and> rq_path r = ''/api/v1/bullet-private''"
    by (simp add: s0 config G run exec_simps Let_def api API_create_def)
  then obtain E c r i cb where c: "gc_order_entry_rest (final_state (controller_step G ?e s0)) ''A1'' = Some (E, c)"
      and r: "SendRequest r i cb \<in> set (trace c)" "rq_path r = ''/api/v1/bullet-private''"
    by blast
  have "find (\<lambda>a. ac_name a = ''A1'') (entry_accounts sample_entries)
      = Some \<lparr>ac_name = ''A1'', ac_master = True, ac_login = ''k1'', ac_password = ''p1'', ac_secret = ''s1''\<rparr>"
    by (simp add: sample_entries_def)
  with conjunct1 [OF accounts_sign_their_own [OF lawful_plain_mac start reach], rule_format, OF conjI [OF c r(1)]]
  obtain ts where "rq_headers r = signed_headers plain_mac (\<lambda>s t. s @ '':'' @ t) ''k1'' ''s1'' ''p1'' ts (rq_method r) (rq_path r)
      (rq_query r) (rq_body r)"
    by auto
  with start reach c r show ?thesis by blast
qed

end
