(* ===== verification/Formatters.thy ===== *)
theory Formatters
  imports Application
begin

text \<open>
  The texts the programs log about themselves: \<open>fmt::formatter\<close> of the settings
  (\<open>flags/settings.hpp\<close>), of the settings of the bridges, of the configuration (\<open>gateway/config.hpp\<close>)
  and of the throttle's parameters (\<open>tools/throttle.hpp\<close>). How the library's and the generated
  members are formatted is a parameter.
\<close>

text \<open>\<open>fmt::join\<close>\<close>

fun fmt_join :: "string \<Rightarrow> string list \<Rightarrow> string" where
  "fmt_join sep [] = []"
| "fmt_join sep [x] = x"
| "fmt_join sep (x # y # xs) = x @ sep @ fmt_join sep (y # xs)"

record settings_texts =
  tx_misc :: "misc_flags \<Rightarrow> string"
  tx_rest :: "rest_flags \<Rightarrow> string"
  tx_ws :: "ws_flags \<Rightarrow> string"
  tx_mbp :: "bool \<Rightarrow> string"
  tx_request :: "request_flags \<Rightarrow> string"
  tx_server :: "server_settings \<Rightarrow> string"

definition Settings_format :: "settings_texts \<Rightarrow> command_line \<Rightarrow> string" where
  \<open>Settings_format T value =
     ''{'' @ ''exchange="'' @ fl_exchange (cl_flags value) @ ''", '' @
     ''margin_mode='' @ fl_margin_mode (cl_flags value) @ '', '' @
     ''misc='' @ tx_misc T (cl_misc value) @ '', '' @
     ''rest='' @ tx_rest T (cl_rest value) @ '', '' @
     ''ws='' @ tx_ws T (cl_ws value) @ '', '' @
     ''mbp='' @ tx_mbp T (cl_mbp_allow_price_inversion value) @ '', '' @
     ''request='' @ tx_request T (cl_request value) @ '', '' @
     ''server='' @ tx_server T (cl_server value) @ ''}''\<close>

definition Bridge_Settings_format :: "settings_texts \<Rightarrow> ('b \<Rightarrow> string) \<Rightarrow> command_line \<Rightarrow> 'b \<Rightarrow> string" where
  "Bridge_Settings_format T tx_bridge value bridge =
     ''{'' @ ''gateway='' @ Settings_format T value @ '', '' @ ''bridge='' @ tx_bridge bridge @ ''}''"

definition FixBridge_Settings_format :: "settings_texts \<Rightarrow> ('b \<Rightarrow> string) \<Rightarrow> command_line \<Rightarrow> 'b \<Rightarrow> string" where
  "FixBridge_Settings_format T tx_fix_bridge value fix_bridge =
     ''{'' @ ''gateway='' @ Settings_format T value @ '', '' @ ''fix_bridge='' @ tx_fix_bridge fix_bridge @ ''}''"

record ('sy, 'us, 'rl) config_texts =
  tx_symbols :: "'sy \<Rightarrow> string"
  tx_account :: "string \<times> account_config \<Rightarrow> string"
  tx_user :: "'us \<Rightarrow> string"
  tx_rate_limit :: "string \<times> 'rl \<Rightarrow> string"

definition Config_format :: "('sy, 'us, 'rl) config_texts \<Rightarrow> ('sy, 'us, 'rl) config \<Rightarrow> string" where
  \<open>Config_format T value =
     ''{'' @ ''symbols='' @ tx_symbols T (cfg_symbols value) @ '', '' @
     ''accounts=['' @ fmt_join '', '' (map (tx_account T) (cfg_accounts value)) @ ''], '' @
     ''master_account="'' @ cfg_master_account value @ ''", '' @
     ''users=['' @ fmt_join '', '' (map (tx_user T) (cfg_users value)) @ ''], '' @
     ''rate_limits=['' @ fmt_join '', '' (map (tx_rate_limit T) (cfg_rate_limits value)) @ '']'' @ ''}''\<close>

definition Throttle_Params_format :: "throttle \<Rightarrow> string" where
  "Throttle_Params_format value =
     ''{'' @ ''remaining='' @ fmt_int (sint (th_remaining value)) @ '', '' @
     ''limit='' @ fmt_int (sint (th_limit value)) @ '', '' @
     ''reset='' @ fmt_int (sint (th_reset value)) @ ''}''"

text \<open>
  The settings that are logged do not say whether orders go over the websocket: command lines
  that differ in \<open>ws_api\<close> only have the same text, although they route orders differently.
\<close>

lemma settings_text_hides_ws_api:
  "Settings_format T (args\<lparr>cl_flags := (cl_flags args)\<lparr>fl_ws_api := b\<rparr>\<rparr>) = Settings_format T args"
  "set_ws_api (Settings_create (args\<lparr>cl_flags := (cl_flags args)\<lparr>fl_ws_api := b\<rparr>\<rparr>)) = b"
  by (simp_all add: Settings_format_def Settings_create_def Let_def)

end
