(* ===== verification/Source_Checks.thy ===== *)
theory Source_Checks
  imports Encoder
begin

text \<open>
  The checks the repository makes of itself, made of the model. The compile-time checks of
  \<open>protocol/json/map.cpp\<close>: every \<open>static_assert\<close> of the file, as the pair of what is translated and what
  the compiler is told to expect. The unit tests of the encoder, \<open>test/json_encoder.cpp\<close>: the texts they
  expect are those of the model. The model passes all of them.
\<close>

subsection \<open>Compile-time checks\<close>

definition checked :: "('a \<Rightarrow> 'b) \<Rightarrow> ('a \<times> 'b) list \<Rightarrow> bool" where
  "checked f = list_all (\<lambda>(x, y). f x = y)"

definition map_liquidity_checks :: "(json_liquidity \<times> liquidity) list" where
  "map_liquidity_checks =
     [(JLiquidity_UNDEFINED_INTERNAL, Liquidity_UNDEFINED), (JLiquidity_TAKER, Liquidity_TAKER),
      (JLiquidity_MAKER, Liquidity_MAKER)]"

definition map_margin_mode_checks :: "(json_margin_mode \<times> margin_mode) list" where
  "map_margin_mode_checks =
     [(JMarginMode_UNDEFINED_INTERNAL, MarginMode_UNDEFINED), (JMarginMode_CROSS, MarginMode_CROSS),
      (JMarginMode_ISOLATED, MarginMode_ISOLATED)]"

definition map_order_status_checks :: "(json_order_status \<times> order_status) list" where
  "map_order_status_checks =
     [(JOrderStatus_UNDEFINED_INTERNAL, OrderStatus_UNDEFINED), (JOrderStatus_OPEN, OrderStatus_WORKING),
      (JOrderStatus_MATCH, OrderStatus_WORKING), (JOrderStatus_DONE, OrderStatus_COMPLETED)]"

definition map_order_type_checks :: "(json_order_type \<times> order_type) list" where
  "map_order_type_checks =
     [(JOrderType_UNDEFINED_INTERNAL, OrderType_UNDEFINED), (JOrderType_MARKET, OrderType_MARKET),
      (JOrderType_LIMIT, OrderType_LIMIT)]"

definition map_position_effect_checks :: "((json_position_side \<times> json_side) \<times> position_effect) list" where
  "map_position_effect_checks =
     [((JPositionSide_UNDEFINED_INTERNAL, JSide_UNDEFINED_INTERNAL), PositionEffect_UNDEFINED),
      ((JPositionSide_BOTH, JSide_UNDEFINED_INTERNAL), PositionEffect_UNDEFINED),
      ((JPositionSide_LONG, JSide_BUY), PositionEffect_OPEN),
      ((JPositionSide_LONG, JSide_SELL), PositionEffect_CLOSE),
      ((JPositionSide_SHORT, JSide_BUY), PositionEffect_CLOSE),
      ((JPositionSide_SHORT, JSide_SELL), PositionEffect_OPEN)]"

definition map_side_checks :: "(json_side \<times> side) list" where
  "map_side_checks =
     [(JSide_UNDEFINED_INTERNAL, Side_UNDEFINED), (JSide_BUY, Side_BUY), (JSide_SELL, Side_SELL)]"

definition map_time_in_force_checks :: "(json_time_in_force \<times> time_in_force) list" where
  "map_time_in_force_checks =
     [(JTimeInForce_UNDEFINED_INTERNAL, TimeInForce_UNDEFINED), (JTimeInForce_GTC, TimeInForce_GTC),
      (JTimeInForce_IOC, TimeInForce_IOC), (JTimeInForce_FOK, TimeInForce_FOK),
      (JTimeInForce_GTT, TimeInForce_UNDEFINED)]"

definition to_json_margin_mode_checks :: "(margin_mode \<times> json_margin_mode) list" where
  "to_json_margin_mode_checks =
     [(MarginMode_UNDEFINED, JMarginMode_ISOLATED), (MarginMode_ISOLATED, JMarginMode_ISOLATED),
      (MarginMode_CROSS, JMarginMode_CROSS), (MarginMode_PORTFOLIO, JMarginMode_ISOLATED)]"

definition to_json_order_type_checks :: "(order_type \<times> json_order_type) list" where
  "to_json_order_type_checks =
     [(OrderType_UNDEFINED, JOrderType_UNDEFINED_INTERNAL), (OrderType_MARKET, JOrderType_MARKET),
      (OrderType_LIMIT, JOrderType_LIMIT)]"

definition to_json_side_checks :: "(side \<times> json_side) list" where
  "to_json_side_checks =
     [(Side_UNDEFINED, JSide_UNDEFINED_INTERNAL), (Side_BUY, JSide_BUY), (Side_SELL, JSide_SELL)]"

definition to_json_time_in_force_checks :: "(time_in_force \<times> json_time_in_force) list" where
  "to_json_time_in_force_checks =
     [(TimeInForce_UNDEFINED, JTimeInForce_UNDEFINED_INTERNAL),
      (TimeInForce_GFD, JTimeInForce_UNDEFINED_INTERNAL), (TimeInForce_GTC, JTimeInForce_GTC),
      (TimeInForce_OPG, JTimeInForce_UNDEFINED_INTERNAL), (TimeInForce_IOC, JTimeInForce_IOC),
      (TimeInForce_FOK, JTimeInForce_FOK), (TimeInForce_GTX, JTimeInForce_UNDEFINED_INTERNAL),
      (TimeInForce_GTD, JTimeInForce_UNDEFINED_INTERNAL),
      (TimeInForce_AT_THE_CLOSE, JTimeInForce_UNDEFINED_INTERNAL),
      (TimeInForce_GOOD_THROUGH_CROSSING, JTimeInForce_UNDEFINED_INTERNAL),
      (TimeInForce_AT_CROSSING, JTimeInForce_UNDEFINED_INTERNAL),
      (TimeInForce_GOOD_FOR_TIME, JTimeInForce_UNDEFINED_INTERNAL),
      (TimeInForce_GFA, JTimeInForce_UNDEFINED_INTERNAL), (TimeInForce_GFM, JTimeInForce_UNDEFINED_INTERNAL)]"

lemma compile_time_checks:
  "checked map_liquidity map_liquidity_checks"
  "checked map_margin_mode map_margin_mode_checks"
  "checked map_order_status map_order_status_checks"
  "checked map_order_type map_order_type_checks"
  "checked (\<lambda>(p, sd). map_position_effect p sd) map_position_effect_checks"
  "checked map_side map_side_checks"
  "checked map_time_in_force map_time_in_force_checks"
  "checked to_json_margin_mode to_json_margin_mode_checks"
  "checked to_json_order_type to_json_order_type_checks"
  "checked to_json_side to_json_side_checks"
  "checked to_json_time_in_force to_json_time_in_force_checks"
  by (simp_all add: checked_def map_liquidity_checks_def map_margin_mode_checks_def map_order_status_checks_def map_order_type_checks_def map_position_effect_checks_def map_side_checks_def map_time_in_force_checks_def to_json_margin_mode_checks_def to_json_order_type_checks_def to_json_side_checks_def to_json_time_in_force_checks_def)

subsection \<open>Unit tests of the encoder\<close>

text \<open>The orders of the tests; \<open>roq::Decimal\<close> formats the two numbers that occur as the tests expect.\<close>

definition test_env :: encoder_env where
  "test_env = \<lparr>fmt_decimal = (\<lambda>x precision. if x = Fin 1 \<and> precision = 0 then ''1''
     else if x = Fin 32000 \<and> precision = 1 then ''32000.0'' else []), internal_text = []\<rparr>"

definition test_ref_data :: ref_data where
  "test_ref_data = \<lparr>rf_quantity_precision = 0, rf_price_precision = 1\<rparr>"

definition test_order :: "order_type \<Rightarrow> time_in_force \<Rightarrow> execution_instruction list \<Rightarrow> f64 \<Rightarrow> create_order" where
  "test_order order_type time_in_force instructions price = \<lparr>co_account = [], co_order_id = 0, co_symbol = ''XBTUSDTM'',
     co_side = Side_BUY, co_margin_mode = MarginMode_ISOLATED, co_order_type = order_type, co_time_in_force = time_in_force,
     co_execution_instructions = instructions, co_quantity = Fin 1, co_price = price\<rparr>"

lemmas encoder_test = add_order_def ws_add_order_def test_env_def test_ref_data_def test_order_def side_raw_text_def
  order_type_raw_text_def margin_mode_raw_text_def time_in_force_raw_text_def fmt_bool_def Let_def

lemma test_create_market:
  \<open>add_order test_env (test_order OrderType_MARKET TimeInForce_GTC [] NaN) test_ref_data ''1234'' MarginMode_UNDEFINED =
     Some (''{"clientOid":"1234","symbol":"XBTUSDTM","side":"buy","marginMode":"ISOLATED","type":"market",''
       @ ''"reduceOnly":false,"size":"1"}'')\<close>
  by (simp add: encoder_test)

lemma test_create_limit:
  \<open>add_order test_env (test_order OrderType_LIMIT TimeInForce_GTC [] (Fin 32000)) test_ref_data ''1234'' MarginMode_UNDEFINED =
     Some (''{"clientOid":"1234","symbol":"XBTUSDTM","side":"buy","marginMode":"ISOLATED","type":"limit",''
       @ ''"timeInForce":"GTC","reduceOnly":false,"size":"1","price":"32000.0"}'')\<close>
  by (simp add: encoder_test)

lemma test_create_ioc:
  \<open>add_order test_env (test_order OrderType_LIMIT TimeInForce_IOC [] (Fin 32000)) test_ref_data ''1234'' MarginMode_UNDEFINED =
     Some (''{"clientOid":"1234","symbol":"XBTUSDTM","side":"buy","marginMode":"ISOLATED","type":"limit",''
       @ ''"timeInForce":"IOC","reduceOnly":false,"size":"1","price":"32000.0"}'')\<close>
  by (simp add: encoder_test)

lemma test_create_post_only:
  \<open>add_order test_env (test_order OrderType_LIMIT TimeInForce_IOC [PARTICIPATE_DO_NOT_INITIATE] (Fin 32000)) test_ref_data ''1234''
     MarginMode_UNDEFINED =
     Some (''{"clientOid":"1234","symbol":"XBTUSDTM","side":"buy","marginMode":"ISOLATED","type":"limit",''
       @ ''"postOnly":true,"timeInForce":"IOC","reduceOnly":false,"size":"1","price":"32000.0"}'')\<close>
  by (simp add: encoder_test)

lemma test_ws_create_market:
  \<open>ws_add_order test_env (test_order OrderType_MARKET TimeInForce_GTC [] NaN) test_ref_data ''1234'' MarginMode_UNDEFINED =
     Some (''{"id":"1234","op":"futures.order","args":{"clientOid":"1234","symbol":"XBTUSDTM","side":"buy",''
       @ ''"marginMode":"ISOLATED","type":"market","reduceOnly":false,"size":"1"}}'')\<close>
  by (simp add: encoder_test)

lemma test_ws_create_ioc:
  \<open>ws_add_order test_env (test_order OrderType_MARKET TimeInForce_IOC [] NaN) test_ref_data ''1234'' MarginMode_UNDEFINED =
     Some (''{"id":"1234","op":"futures.order","args":{"clientOid":"1234","symbol":"XBTUSDTM","side":"buy",''
       @ ''"marginMode":"ISOLATED","type":"market","reduceOnly":false,"size":"1"}}'')\<close>
  by (simp add: encoder_test)

end
