(* ===== verification/Spec2Isabelle.thy ===== *)
theory Spec2Isabelle
  imports Order_Routing Symbol_Slices Token_Renewal Stale_Orders Gateway_Safety Downloads Token_Protocol Order_Book Wire_Texts Sessions Stream_Setup
    Application Formatters Source_Checks
begin

text \<open>
  \<^bold>\<open>A model of the Roq gateway for KuCoin Futures\<close>

  \<^bold>\<open>The program.\<close> The gateway (\<open>src/src/roq/kucoin_futures/gateway\<close>) connects a Roq server to the
  exchange. A \<open>Controller\<close> owns one public REST stream (\<open>Rest\<close>: public token, contracts, order book
  snapshots), one public websocket per slice of symbols (\<open>MarketData\<close>), and for every account a
  private REST stream (\<open>OrderEntryREST\<close>: token, balances, positions, orders, fills, order requests),
  a private websocket (\<open>DropCopy\<close>: account events, driving the account's downloads) and, if the
  websocket API is on, a websocket for order requests (\<open>OrderEntryWS\<close>). Streams publish through the
  server's dispatcher, tell the controller about tokens and symbols, and share two things: the order
  requests of an account with the stale orders to query (\<open>gateway/request.hpp\<close>), and the set of
  known symbols and the order book sequencers (\<open>gateway/shared.hpp\<close>). Below them are the wire
  vocabulary (\<open>protocol/json/map.cpp\<close>), the parsers and the encoder of JSON texts, the splitter of
  order book changes, the signatures (\<open>tools/crypto.cpp\<close>) and the rate limit throttle. Around them,
  \<open>application.cpp\<close> reads settings and configuration and has the server run a controller; two bridges
  (\<open>bridge\<close>, \<open>fix_bridge\<close>) run the same controller behind another interface.

  \<^bold>\<open>How code becomes HOL.\<close> A member function is a function on the state that returns, throws or ends
  the process (\<open>Prelude\<close>); \<open>log::fatal\<close>, a failed \<open>assert\<close> and an exception that leaves a noexcept
  handler are \<open>Fatal\<close>. Whatever a component does outside itself is an \<open>effect\<close> appended to its
  trace (\<open>Roq_Types\<close>), and whatever an external object answers (connection, \<open>core::Download2\<close>, request
  slots, queues, sequencers, the server's order management, the JSON decoders) is a parameter, a
  function of the trace so far. A trace only grows, so any sequence of answers is given by some such
  function, also when the external object is shared with other components, and nothing is assumed
  about it; the handful of properties that need more say so as hypotheses. Integers of fixed width are words, quantities and prices are
  binary64 values (\<open>Binary64\<close>: a rational for every finite value, the special values, subtraction
  with its rounding), durations are unbounded integers of nanoseconds.

  \<^bold>\<open>The theories\<close>, with the files they model and what their lemmas show.
  \<^item> \<open>Prelude\<close>, \<open>Binary64\<close>, \<open>Roq_Types\<close>: statements, postconditions (\<open>keeps\<close>), decimal formatting,
    floating point, and the messages, orders and effects of the Roq libraries.
  \<^item> \<open>Protocol_Types\<close>, \<open>Json_Map\<close> (\<open>protocol/json/map.cpp\<close>), \<open>Json_Utils\<close> (\<open>protocol/json/utils.*\<close>,
    \<open>tools/splitter.cpp\<close>): the messages of the exchange and the mapping of its enums, with round trips.
  \<^item> \<open>Json_Text\<close>, \<open>Encoder\<close> (\<open>protocol/json/encoder.cpp\<close>): a reference reader of JSON texts, and that
    every order text reads back to exactly the order's fields.
  \<^item> \<open>Parser\<close> (\<open>protocol/json/parser.cpp\<close>, \<open>ws_parser.cpp\<close>): routing of a text to its handler.
  \<^item> \<open>Config_Api\<close> (\<open>gateway/config.cpp\<close>, \<open>gateway/api.cpp\<close>): accounts, credentials, paths.
  \<^item> \<open>Crypto\<close> (\<open>tools/crypto.cpp\<close>, \<open>gateway/account.cpp\<close>): signatures, independent of history.
  \<^item> \<open>Throttle\<close> (\<open>tools/throttle.cpp\<close>): rate limit headers and the suspension they lead to.
  \<^item> \<open>Streams\<close> (\<open>gateway/request.*\<close> and the code the streams have copies of): stream status,
    responses, downloads, sequencers; the interfaces \<open>stream\<close> (the status a stream reports is what it
    answers from) and \<open>downloader\<close> (a download step returns the number of answers to wait for).
  \<^item> \<open>Order_Actions\<close>, \<open>Replies\<close>: order actions and the interface \<open>order_action_stream\<close> (an action is
    taken and sent once, or refused and nothing happens); what the answer to a REST request amounts to,
    and the interface \<open>request_ack\<close> (every answer commits its request slot once).
  \<^item> \<open>Rest_Stream\<close>, \<open>Order_Book\<close> (\<open>gateway/rest.cpp\<close>), \<open>Market_Data\<close> (\<open>gateway/market_data.cpp\<close>), \<open>Drop_Copy\<close>
    (\<open>gateway/drop_copy.cpp\<close>), \<open>Order_Entry_REST\<close> with \<open>Order_Requests\<close> (\<open>gateway/order_entry_rest.cpp\<close>),
    \<open>Order_Entry_WS\<close> (\<open>gateway/order_entry_ws.cpp\<close>): the state, every handler and every event of each
    stream (\<open>rest_step\<close>, \<open>market_data_step\<close>, \<open>drop_copy_step\<close>, \<open>order_entry_step\<close>,
    \<open>order_entry_ws_step\<close>). Each has one traversal of its handlers for any invariant (\<open>re_safe\<close>,
    \<open>md_safe\<close>, \<open>dc_safe\<close>, \<open>oe_safe\<close>, \<open>ow_safe\<close>) and interprets the interfaces above.
  \<^item> \<open>Controller\<close> (\<open>gateway/controller.cpp\<close>): creation, notifications, routing, and \<open>controller_step\<close>,
    an event of the whole gateway. \<open>Gateway\<close>: its reachable states (\<open>gc_reach\<close>), the interface
    \<open>gateway_invariant\<close> and, on it, \<open>streams_invariant\<close>, by which what every stream keeps holds of
    all streams of a running gateway; the numbering of the streams. \<open>Order_Routing\<close>, \<open>Symbol_Slices\<close>,
    \<open>Token_Renewal\<close>, \<open>Stale_Orders\<close>: order requests, symbols, tokens and stale orders on their way
    through the controller and between the two streams of an account.
  \<^item> \<open>Sessions\<close>: the interface \<open>socket_session\<close> (progress and preservation of a stream over the events of a
    connection): market data and websocket order streams that no allowed event sequence can end.
  \<^item> \<open>Orderly_Runs\<close>, \<open>Rest_Runs\<close>, \<open>Gateway_Safety\<close>: the interface \<open>orderly_process\<close> (runs in which the
    outside keeps its side, by phases of the connections and by state), provided by every stream and,
    composed from them, by the gateway: no orderly run ends the process, and the one way in which two
    streams of an account can end it between them, stated exactly. \<open>Downloads\<close>: what drives the download
    of a drop copy: the states it asks in, and the ticks and acknowledgements it is told of.
  \<^item> \<open>Wire_Texts\<close>: what the websocket streams send, as typed JSON, read by the reader of \<open>Json_Text\<close>.
  \<^item> \<open>Stream_Setup\<close>: the head of the five stream files: names, connections (the five copies of the
    configuration agree), and the metrics, which the gateway writes completely and without clashes.
  \<^item> \<open>Application\<close> (\<open>application.cpp\<close>, \<open>flags/settings.*\<close>, \<open>gateway/shared.*\<close>, the bridges): from the command
    line to the running controller, with the streams' signatures, paths and margin mode bound to the
    models of \<open>Crypto\<close> and \<open>Config_Api\<close>; every account signs with its own credentials.
    \<open>Formatters\<close>: what the programs log about themselves. \<open>Source_Checks\<close>: the \<open>static_assert\<close>s of
    \<open>protocol/json/map.cpp\<close> and the unit tests of \<open>test/json_encoder.cpp\<close>, passed by the model.
  \<^item> \<open>Token_Protocol\<close>: the abstract machine of a drop copy and its token (it holds a query, gives it up
    and asks, or takes a new one and resumes), and that every run of the stream refines it.

  \<^bold>\<open>Open system.\<close> Events come in any order and any number, also in orders a real connection would not
  produce, and a run goes on after an event that threw; \<open>run_events\<close> (of one component) even goes on
  after the process would have ended. Invariants proved this way hold in particular of real runs.
  \<open>reset()\<close> and \<open>retry()\<close> of \<open>core::Download2\<close> pass no event, so they cannot call back; \<open>check\<close>,
  \<open>begin\<close> and \<open>bump\<close> may call the owner's \<open>download\<close> any finite number of times. Callbacks that a
  connection makes while it is refreshed, closed or suspended are events of their own. What a stream
  tells the controller in the middle of a handler is delivered at the end of the handler; the two work
  on different state, so nothing but the order of effects of different components changes.

  \<^bold>\<open>Bounds.\<close> Recursion is structural everywhere except \<open>fmt_nat\<close> (the number decreases) and
  \<open>ensure_symbol_slices\<close> (the number of missing streams decreases); no fuel is used. The counter of
  outstanding order queries (\<open>size_t\<close>) is a natural number. Stream ids (16 bits), request ids (64
  bits), versions (32 bits) and user ids (8 bits) wrap.

  \<^bold>\<open>Not modelled.\<close> Logging, and the values of metrics (what is counted and timed); the connections
  themselves; the hint \<open>is_last\<close> of dispatched events; the JSON decoders, which are generated (the
  decoded records of \<open>Protocol_Types\<close> have the fields the handlers read); the parsing of the command
  line, which is generated, \<open>main\<close>, which only calls the library, and what the bridges translate;
  the rate limiter, to which \<open>can_request\<close> forwards; \<open>collector.hpp\<close>, which nothing uses.
\<close>

section \<open>Positions\<close>

text \<open>
  C39. Whether a position is downloaded or arrives on the private websocket, the gateway publishes
  the same long and short quantities for the same signed quantity: both nonnegative, at most one of
  them nonzero, and their difference is the quantity.
\<close>

theorem positions_split_consistently:
  assumes "is_finite q" and "pi_current_qty item = q" and "pc_current_qty data = q"
  shows "let p = oe_position E item; r = dc_position_change D data in
     pu_long_quantity p = pu_long_quantity r \<and> pu_short_quantity p = pu_short_quantity r
     \<and> nonneg64 (pu_long_quantity p) \<and> nonneg64 (pu_short_quantity p)
     \<and> (value64 (pu_long_quantity p) = 0 \<or> value64 (pu_short_quantity p) = 0)
     \<and> value64 (pu_long_quantity p) - value64 (pu_short_quantity p) = value64 q"
proof -
  have "q \<noteq> NaN" "f64_neg q \<noteq> NaN"
    using assms(1) is_finite_neg [OF assms(1)] by (auto simp: is_finite_def)
  then show ?thesis
    using assms long_short_exclusive [OF assms(1)] long_minus_short [OF assms(1)]
    by (simp add: oe_position_def dc_position_change_def Let_def std_max_zero_nonneg)
qed

definition sample_position_change :: position_change where
  "sample_position_change = \<lparr>pc_symbol = ''XBTUSDTM'', pc_margin_mode = JMarginMode_CROSS, pc_current_timestamp_ms = 1,
     pc_current_qty = Fin (- 3), pc_ts_ms = 2\<rparr>"

theorem positions_split_consistently_witness:
  "value64 (pu_long_quantity (dc_position_change sample_drop_copy_env sample_position_change))
     - value64 (pu_short_quantity (dc_position_change sample_drop_copy_env sample_position_change)) = - 3"
proof -
  have "is_finite (Fin (- 3))" by (simp add: is_finite_def)
  moreover have "pi_current_qty \<lparr>pi_symbol = [], pi_margin_mode = JMarginMode_CROSS, pi_current_qty = Fin (- 3),
      pi_current_timestamp_ms = 1\<rparr> = Fin (- 3)"
    by simp
  moreover have "pc_current_qty sample_position_change = Fin (- 3)"
    by (simp add: sample_position_change_def)
  moreover have "value64 (Fin (- 3)) = - 3" by (simp add: value64_def)
  ultimately show ?thesis
    using positions_split_consistently [of "Fin (- 3)" _ sample_position_change sample_order_entry_env sample_drop_copy_env]
    unfolding Let_def by metis
qed

end
